(* ===== verification/Prelude.thy ===== *)
theory Prelude
  imports Main "HOL-Library.Word" "HOL-Library.Signed_Division" "HOL-Library.Char_ord"
    "HOL-Library.List_Lexorder" "HOL-Library.Product_Lexorder"
begin

text \<open>
  What the components share: the rule collections of the development, Go's sized signed
  integers with their truncating division, and the generic facts on lists that the table and
  the pagination proofs use.
\<close>

subsection \<open>Rule collections\<close>

text \<open>
  \<open>go_defs\<close> holds the definitions of the pure Go functions, \<open>step_defs\<close> those of the
  single effects, \<open>sql_defs\<close> the meaning of the SQL statements, \<open>run_simps\<close> the
  equations that execute a program.
\<close>

named_theorems go_defs
named_theorems step_defs
named_theorems sql_defs
named_theorems run_simps

subsection \<open>Integers of a fixed width\<close>

text \<open>
  Go's \<open>int64\<close> and \<open>int32\<close> are words read in two's complement. Comparisons read the
  value with \<open>sint\<close>; \<open>+\<close> and \<open>-\<close> wrap; division and remainder truncate towards
  zero. A division by zero panics in Go; the callers below return \<open>None\<close> for it.
\<close>

type_synonym int64 = "64 word"
type_synonym int32 = "32 word"

definition quot64 :: "int64 \<Rightarrow> int64 \<Rightarrow> int64" where
  "quot64 a b = word_of_int (sint a sdiv sint b)"

definition rem64 :: "int64 \<Rightarrow> int64 \<Rightarrow> int64" where
  "rem64 a b = word_of_int (sint a smod sint b)"

text \<open>The conversion \<open>int32(x)\<close> of an \<open>int64\<close> keeps the low 32 bits.\<close>

definition to_int32 :: "int64 \<Rightarrow> int32" where
  "to_int32 a = word_of_int (sint a)"

lemma sint64_word_of_int:
  "- (2 ^ 63) \<le> i \<Longrightarrow> i < 2 ^ 63 \<Longrightarrow> sint (word_of_int i :: int64) = i"
  unfolding sint_sbintrunc' by (rule signed_take_bit_int_eq_self) simp_all

lemma sint32_word_of_int:
  "- (2 ^ 31) \<le> i \<Longrightarrow> i < 2 ^ 31 \<Longrightarrow> sint (word_of_int i :: int32) = i"
  unfolding sint_sbintrunc' by (rule signed_take_bit_int_eq_self) simp_all

lemma sint64_range: "- (2 ^ 63) \<le> sint (a :: int64)" "sint (a :: int64) < 2 ^ 63"
  using sint_ge [of a] sint_lt [of a] by simp_all

lemma sint32_range: "- (2 ^ 31) \<le> sint (a :: int32)" "sint (a :: int32) < 2 ^ 31"
  using sint_ge [of a] sint_lt [of a] by simp_all

lemma sint64_add:
  "- (2 ^ 63) \<le> sint a + sint b \<Longrightarrow> sint a + sint b < 2 ^ 63 \<Longrightarrow>
   sint (a + b :: int64) = sint a + sint b"
  using sint64_word_of_int [of "sint a + sint b"] by simp

lemma sint64_sub:
  "- (2 ^ 63) \<le> sint a - sint b \<Longrightarrow> sint a - sint b < 2 ^ 63 \<Longrightarrow>
   sint (a - b :: int64) = sint a - sint b"
  using sint64_word_of_int [of "sint a - sint b"] by simp

lemma sint32_add:
  "- (2 ^ 31) \<le> sint a + sint b \<Longrightarrow> sint a + sint b < 2 ^ 31 \<Longrightarrow>
   sint (a + b :: int32) = sint a + sint b"
  using sint32_word_of_int [of "sint a + sint b"] by simp

lemma sdiv_nonneg: "0 \<le> a \<Longrightarrow> 0 < b \<Longrightarrow> (a::int) sdiv b = a div b"
  by (simp add: signed_divide_int_def sgn_if)

lemma smod_nonneg: "0 \<le> a \<Longrightarrow> 0 < b \<Longrightarrow> (a::int) smod b = a mod b"
  by (cases "a = 0") (simp_all add: signed_modulo_int_def sgn_if)

lemma sint_quot64:
  assumes "0 \<le> sint a" and "0 < sint b"
  shows "sint (quot64 a b) = sint a div sint b"
proof -
  have "0 \<le> sint a div sint b" and "sint a div sint b \<le> sint a"
    using assms zdiv_mono2 [of "sint a" 1 "sint b"] by (simp_all add: pos_imp_zdiv_nonneg_iff)
  moreover have "sint a < 2 ^ 63" by (rule sint64_range)
  ultimately show ?thesis
    unfolding quot64_def sdiv_nonneg [OF assms] by (intro sint64_word_of_int) simp_all
qed

lemma sint_rem64:
  assumes "0 \<le> sint a" and "0 < sint b"
  shows "sint (rem64 a b) = sint a mod sint b"
proof -
  have "0 \<le> sint a mod sint b" and "sint a mod sint b < sint b"
    using assms by simp_all
  moreover have "sint b < 2 ^ 63" by (rule sint64_range)
  ultimately show ?thesis
    unfolding rem64_def smod_nonneg [OF assms] by (intro sint64_word_of_int) simp_all
qed

lemma sint_to_int32:
  "- (2 ^ 31) \<le> sint a \<Longrightarrow> sint a < 2 ^ 31 \<Longrightarrow> sint (to_int32 a) = sint a"
  unfolding to_int32_def by (rule sint32_word_of_int)

text \<open>The ceiling quotient \<open>(s + p - 1) / p\<close> and the part sizes it implies.\<close>

lemma ceil_quot_bounds:
  assumes "0 < (p::int)" and "0 < s"
  shows "1 \<le> (s + p - 1) div p" and "((s + p - 1) div p - 1) * p < s"
    and "s \<le> (s + p - 1) div p * p"
proof -
  let ?q = "(s + p - 1) div p"
  have e: "s + p - 1 = ?q * p + (s + p - 1) mod p" by simp
  have m: "0 \<le> (s + p - 1) mod p" "(s + p - 1) mod p < p" using assms by simp_all
  show "s \<le> ?q * p" using e m by linarith
  have "(?q - 1) * p = ?q * p - p" by (simp add: left_diff_distrib)
  then show "(?q - 1) * p < s" using e m by linarith
  show "1 \<le> ?q" using assms pos_imp_zdiv_pos_iff [of p "s + p - 1"] by simp
qed

subsection \<open>Slices\<close>

text \<open>
  Indexing and slicing with Go's bounds checks: \<open>None\<close> is the panic. The upper bound of
  \<open>s[:n]\<close> is the capacity in Go; the code here only slices within the length.
\<close>

definition slice_at :: "'a list \<Rightarrow> int \<Rightarrow> 'a option" where
  "slice_at xs i = (if 0 \<le> i \<and> i < int (length xs) then Some (xs ! nat i) else None)"

definition slice_from :: "'a list \<Rightarrow> int \<Rightarrow> 'a list option" where
  "slice_from xs i = (if 0 \<le> i \<and> i \<le> int (length xs) then Some (drop (nat i) xs) else None)"

definition slice_to :: "'a list \<Rightarrow> int \<Rightarrow> 'a list option" where
  "slice_to xs i = (if 0 \<le> i \<and> i \<le> int (length xs) then Some (take (nat i) xs) else None)"

subsection \<open>Lists\<close>

lemma find_Some_mem: "find P xs = Some x \<Longrightarrow> x \<in> set xs \<and> P x"
  by (induction xs) (auto split: if_splits)

lemma find_eq_Some_distinct:
  "distinct (map f xs) \<Longrightarrow> x \<in> set xs \<Longrightarrow> find (\<lambda>y. f y = f x) xs = Some x"
  by (induction xs) (auto simp: image_iff)

lemma find_map_same:
  "(\<And>y. y \<in> set xs \<Longrightarrow> P (g y) = P y) \<Longrightarrow> find P (map g xs) = map_option g (find P xs)"
  by (induction xs) auto

lemma find_append:
  "find P (xs @ ys) = (case find P xs of None \<Rightarrow> find P ys | Some x \<Rightarrow> Some x)"
  by (induction xs) auto

lemma map_filter_id:
  "(\<And>x. x \<in> set xs \<Longrightarrow> g x = x) \<Longrightarrow> map g xs = xs"
  by (induction xs) auto

end
