(* ===== verification/Go_Strings.thy ===== *)
theory Go_Strings
  imports Prelude
begin

text \<open>
  The parts of Go's standard library that the program uses on strings: \<open>strings\<close>,
  \<open>path\<close>, the verbs \<open>%d\<close> and \<open>%s\<close> of \<open>fmt\<close>, and the fragment of \<open>regexp\<close>
  its patterns use. A Go string is a sequence of bytes, so a \<open>string\<close> here is one too: a
  code point above 127 is the list of its UTF-8 bytes.
\<close>

subsection \<open>Package strings\<close>

definition HasPrefix :: "string \<Rightarrow> string \<Rightarrow> bool" where
  "HasPrefix s p \<longleftrightarrow> take (length p) s = p"

definition HasSuffix :: "string \<Rightarrow> string \<Rightarrow> bool" where
  "HasSuffix s p \<longleftrightarrow> HasPrefix (rev s) (rev p)"

fun Contains :: "string \<Rightarrow> string \<Rightarrow> bool" where
  "Contains [] p \<longleftrightarrow> p = []"
| "Contains (c # s) p \<longleftrightarrow> HasPrefix (c # s) p \<or> Contains s p"

text \<open>\<open>ReplaceAll\<close> with two one-byte arguments.\<close>

definition ReplaceAll :: "char \<Rightarrow> char \<Rightarrow> string \<Rightarrow> string" where
  "ReplaceAll old new = map (\<lambda>c. if c = old then new else c)"

text \<open>
  The UTF-8 encodings of the Unicode white space code points. \<open>strings.TrimSpace\<close> and the
  scanner of \<open>fmt\<close> agree on this set. Every encoding starts with a byte that is not a
  continuation byte, so decoding the last code point of a string and comparing its last bytes
  with an encoding give the same answer.
\<close>

definition white_space :: "string list" where
  "white_space =
     [[CHR 0x20], [CHR 0x09], [CHR 0x0A], [CHR 0x0B], [CHR 0x0C], [CHR 0x0D],
      [CHR 0xC2, CHR 0x85], [CHR 0xC2, CHR 0xA0], [CHR 0xE1, CHR 0x9A, CHR 0x80],
      [CHR 0xE2, CHR 0x80, CHR 0x80], [CHR 0xE2, CHR 0x80, CHR 0x81],
      [CHR 0xE2, CHR 0x80, CHR 0x82], [CHR 0xE2, CHR 0x80, CHR 0x83],
      [CHR 0xE2, CHR 0x80, CHR 0x84], [CHR 0xE2, CHR 0x80, CHR 0x85],
      [CHR 0xE2, CHR 0x80, CHR 0x86], [CHR 0xE2, CHR 0x80, CHR 0x87],
      [CHR 0xE2, CHR 0x80, CHR 0x88], [CHR 0xE2, CHR 0x80, CHR 0x89],
      [CHR 0xE2, CHR 0x80, CHR 0x8A], [CHR 0xE2, CHR 0x80, CHR 0xA8],
      [CHR 0xE2, CHR 0x80, CHR 0xA9], [CHR 0xE2, CHR 0x80, CHR 0xAF],
      [CHR 0xE2, CHR 0x81, CHR 0x9F], [CHR 0xE3, CHR 0x80, CHR 0x80]]"

lemma drop_prefix_shorter:
  "find (\<lambda>p. p \<noteq> [] \<and> HasPrefix s p) ps = Some p \<Longrightarrow> length (drop (length p) s) < length s"
  by (cases s) (auto dest!: find_Some_mem simp: HasPrefix_def)

function strip_prefixes :: "string list \<Rightarrow> string \<Rightarrow> string" where
  "strip_prefixes ps s =
     (case find (\<lambda>p. p \<noteq> [] \<and> HasPrefix s p) ps of
        None \<Rightarrow> s
      | Some p \<Rightarrow> strip_prefixes ps (drop (length p) s))"
  by pat_completeness auto
termination
  by (relation "measure (\<lambda>(ps, s). length s)") (use drop_prefix_shorter in auto)

declare strip_prefixes.simps [simp del]

definition TrimLeftSpace :: "string \<Rightarrow> string" where
  "TrimLeftSpace s = strip_prefixes white_space s"

definition TrimRightSpace :: "string \<Rightarrow> string" where
  "TrimRightSpace s = rev (strip_prefixes (map rev white_space) (rev s))"

definition TrimSpace :: "string \<Rightarrow> string" where
  "TrimSpace s = TrimRightSpace (TrimLeftSpace s)"

text \<open>\<open>Trim\<close> with a cutset of one byte.\<close>

definition Trim :: "string \<Rightarrow> char \<Rightarrow> string" where
  "Trim s q = rev (dropWhile (\<lambda>c. c = q) (rev (dropWhile (\<lambda>c. c = q) s)))"

text \<open>
  \<open>ToLower\<close> on the letters A to Z. The program compares the result with patterns over the
  letters a, b, c, d, e, f and r, the digits and the space, and no code point outside ASCII
  has one of these as its lower case, so the comparisons agree with the full Unicode mapping.
\<close>

definition lower_char :: "char \<Rightarrow> char" where
  "lower_char c =
     (let n = (of_char c :: nat) in if 65 \<le> n \<and> n \<le> 90 then char_of (n + 32) else c)"

definition ToLower :: "string \<Rightarrow> string" where
  "ToLower = map lower_char"

subsection \<open>Package path\<close>

fun split_on :: "char \<Rightarrow> string \<Rightarrow> string list" where
  "split_on d [] = [[]]"
| "split_on d (c # cs) =
     (if c = d then [] # split_on d cs
      else (case split_on d cs of [] \<Rightarrow> [[c]] | x # xs \<Rightarrow> (c # x) # xs))"

fun join_with :: "char \<Rightarrow> string list \<Rightarrow> string" where
  "join_with d [] = []"
| "join_with d [x] = x"
| "join_with d (x # y # xs) = x @ d # join_with d (y # xs)"

text \<open>
  \<open>path.Clean\<close>: the elements are processed from left to right over the elements written so
  far (most recent first); an empty element and \<open>.\<close> are dropped, \<open>..\<close> removes the last
  written element unless that is itself \<open>..\<close>, and is kept where nothing can be removed from
  a path that is not rooted.
\<close>

definition clean_elem :: "bool \<Rightarrow> string list \<Rightarrow> string \<Rightarrow> string list" where
  "clean_elem rooted out e =
     (if e = [] \<or> e = ''.'' then out
      else if e = ''..'' then
        (if out \<noteq> [] \<and> hd out \<noteq> ''..'' then tl out
         else if rooted then out else e # out)
      else e # out)"

definition path_Clean :: "string \<Rightarrow> string" where
  "path_Clean p =
     (if p = [] then ''.''
      else
        (let rooted = HasPrefix p ''/'';
             out = rev (foldl (clean_elem rooted) [] (split_on (CHR ''/'') p));
             body = join_with (CHR ''/'') out
         in if rooted then CHR ''/'' # body else if out = [] then ''.'' else body))"

text \<open>\<open>path.Join\<close>: leading empty elements are skipped, later ones are not.\<close>

definition path_Join :: "string list \<Rightarrow> string" where
  "path_Join es =
     (let buf = join_with (CHR ''/'') (dropWhile (\<lambda>e. e = []) es)
      in if concat es = [] then [] else path_Clean buf)"

subsection \<open>Package fmt: the verbs d and s\<close>

definition digit :: "nat \<Rightarrow> char" where
  "digit n = char_of (48 + n)"

definition is_digit :: "char \<Rightarrow> bool" where
  "is_digit c \<longleftrightarrow> 48 \<le> (of_char c :: nat) \<and> (of_char c :: nat) \<le> 57"

fun nat_to_string :: "nat \<Rightarrow> string" where
  "nat_to_string n =
     (if n < 10 then [digit n] else nat_to_string (n div 10) @ [digit (n mod 10)])"

declare nat_to_string.simps [simp del]

definition int_to_string :: "int \<Rightarrow> string" where
  "int_to_string i =
     (if i < 0 then CHR ''-'' # nat_to_string (nat (- i)) else nat_to_string (nat i))"

definition digits_value :: "string \<Rightarrow> nat" where
  "digits_value = foldl (\<lambda>v c. 10 * v + (of_char c - 48)) 0"

text \<open>
  The scanner skips white space before a verb, but a newline that the format does not have is
  an error.
\<close>

definition skip_space :: "string \<Rightarrow> string option" where
  "skip_space s =
     (let t = strip_prefixes (filter (\<lambda>p. p \<noteq> [CHR 0x0A]) white_space) s
      in if HasPrefix t [CHR 0x0A] then None else Some t)"

fun scan_token :: "string \<Rightarrow> string" where
  "scan_token [] = []"
| "scan_token (c # cs) =
     (if \<exists>p \<in> set white_space. HasPrefix (c # cs) p then [] else c # scan_token cs)"

definition scan_sign :: "string \<Rightarrow> bool \<times> string" where
  "scan_sign s =
     (case s of
        [] \<Rightarrow> (False, [])
      | c # t \<Rightarrow> if c = CHR ''-'' then (True, t) else if c = CHR ''+'' then (False, t) else (False, s))"

text \<open>\<open>%d\<close> into an \<open>int64\<close>: an optional sign, at least one digit, and a range check.\<close>

definition scan_int64 :: "string \<Rightarrow> (int \<times> string) option" where
  "scan_int64 s =
     (let (neg, t) = scan_sign s;
          ds = takeWhile is_digit t;
          v = (if neg then - int (digits_value ds) else int (digits_value ds))
      in if ds = [] \<or> v < - (2 ^ 63) \<or> 2 ^ 63 \<le> v then None
         else Some (v, dropWhile is_digit t))"

text \<open>\<open>fmt.Sscanf(s, "%d|%s", &ns, &id)\<close>; input after the second verb is ignored.\<close>

definition Sscanf_d_bar_s :: "string \<Rightarrow> (int \<times> string) option" where
  "Sscanf_d_bar_s s =
     (case skip_space s of
        None \<Rightarrow> None
      | Some t \<Rightarrow>
          (case scan_int64 t of
             None \<Rightarrow> None
           | Some (v, u) \<Rightarrow>
               (case u of
                  [] \<Rightarrow> None
                | c # w \<Rightarrow>
                    if c \<noteq> CHR ''|'' then None
                    else (case skip_space w of
                            None \<Rightarrow> None
                          | Some x \<Rightarrow> if x = [] then None else Some (v, scan_token x)))))"

subsection \<open>Package regexp: classes, sequences and bounded repetition\<close>

datatype regex = Class string | Seq regex regex | Rep nat nat regex

text \<open>
  \<open>re_rests r s\<close> lists what can be left of \<open>s\<close> after a match of \<open>r\<close> at its start. An
  expression between \<open>^\<close> and \<open>$\<close> matches when nothing can be left: without the flag
  \<open>m\<close>, Go's \<open>$\<close> is the end of the text only.
\<close>

fun rep_rests :: "(string \<Rightarrow> string list) \<Rightarrow> nat \<Rightarrow> nat \<Rightarrow> string \<Rightarrow> string list" where
  "rep_rests f lo 0 s = (if lo = 0 then [s] else [])"
| "rep_rests f lo (Suc hi) s =
     (if lo = 0 then [s] else []) @ concat (map (rep_rests f (lo - 1) hi) (f s))"

primrec re_rests :: "regex \<Rightarrow> string \<Rightarrow> string list" where
  "re_rests (Class cs) s = (case s of [] \<Rightarrow> [] | c # t \<Rightarrow> if c \<in> set cs then [t] else [])"
| "re_rests (Seq a b) s = concat (map (re_rests b) (re_rests a s))"
| "re_rests (Rep lo hi r) s = rep_rests (re_rests r) lo hi s"

definition MatchString :: "regex \<Rightarrow> string \<Rightarrow> bool" where
  "MatchString r s \<longleftrightarrow> [] \<in> set (re_rests r s)"

subsection \<open>Facts on trimming\<close>

lemma HasPrefix_iff: "HasPrefix s p \<longleftrightarrow> (\<exists>t. s = p @ t)"
  by (metis HasPrefix_def append_eq_conv_conj append_take_drop_id)

lemma HasPrefix_Cons: "HasPrefix (c # s) (d # p) \<longleftrightarrow> c = d \<and> HasPrefix s p"
  by (auto simp: HasPrefix_iff)

lemma set_strip_prefixes: "set (strip_prefixes ps s) \<subseteq> set s"
proof (induction ps s rule: strip_prefixes.induct)
  case (1 ps s)
  show ?case
  proof (cases "find (\<lambda>p. p \<noteq> [] \<and> HasPrefix s p) ps")
    case None
    then show ?thesis by (subst strip_prefixes.simps) simp
  next
    case (Some p)
    with 1 have "set (strip_prefixes ps (drop (length p) s)) \<subseteq> set (drop (length p) s)" by blast
    moreover have "set (drop (length p) s) \<subseteq> set s" by (rule set_drop_subset)
    ultimately show ?thesis using Some by (subst strip_prefixes.simps) auto
  qed
qed

lemma strip_prefixes_done: "p \<in> set ps \<Longrightarrow> p \<noteq> [] \<Longrightarrow> \<not> HasPrefix (strip_prefixes ps s) p"
proof (induction ps s rule: strip_prefixes.induct)
  case (1 ps s)
  show ?case
  proof (cases "find (\<lambda>p. p \<noteq> [] \<and> HasPrefix s p) ps")
    case None
    with 1(2,3) have "\<not> HasPrefix s p" by (auto simp: find_None_iff)
    with None show ?thesis by (subst strip_prefixes.simps) simp
  next
    case (Some q)
    with 1 show ?thesis by (subst strip_prefixes.simps) auto
  qed
qed

lemma strip_prefixes_id:
  "(\<And>p. p \<in> set ps \<Longrightarrow> p \<noteq> [] \<Longrightarrow> \<not> HasPrefix s p) \<Longrightarrow> strip_prefixes ps s = s"
  by (subst strip_prefixes.simps) (auto split: option.splits dest!: find_Some_mem)

lemma set_TrimSpace: "set (TrimSpace s) \<subseteq> set s"
  unfolding TrimSpace_def TrimRightSpace_def TrimLeftSpace_def
  using set_strip_prefixes by (metis set_rev subset_trans)

lemma set_ReplaceAll: "old \<noteq> new \<Longrightarrow> old \<notin> set (ReplaceAll old new s)"
  by (auto simp: ReplaceAll_def)

lemma set_ReplaceAll_other: "c \<noteq> new \<Longrightarrow> c \<notin> set s \<Longrightarrow> c \<notin> set (ReplaceAll old new s)"
  by (auto simp: ReplaceAll_def)

subsection \<open>Facts on paths\<close>

definition plain_elem :: "string \<Rightarrow> bool" where
  "plain_elem e \<longleftrightarrow> e \<noteq> [] \<and> e \<noteq> ''.'' \<and> e \<noteq> ''..'' \<and> CHR ''/'' \<notin> set e"

lemma split_on_free: "d \<notin> set s \<Longrightarrow> split_on d s = [s]"
  by (induction s) auto

lemma split_on_append: "d \<notin> set s \<Longrightarrow> split_on d (s @ d # t) = s # split_on d t"
  by (induction s) auto

lemma split_on_nonempty: "split_on d s \<noteq> []"
  by (induction s) (auto split: list.splits)

lemma split_on_join_with:
  "xs \<noteq> [] \<Longrightarrow> \<forall>x \<in> set xs. d \<notin> set x \<Longrightarrow> split_on d (join_with d xs) = xs"
  by (induction d xs rule: join_with.induct) (auto simp: split_on_free split_on_append)

lemma HasPrefix_slash_append: "a \<noteq> [] \<Longrightarrow> CHR ''/'' \<notin> set a \<Longrightarrow> \<not> HasPrefix (a @ t) ''/''"
  by (cases a) (auto simp: HasPrefix_Cons)

lemma path_Clean_three:
  assumes "plain_elem a" and "plain_elem b" and "CHR ''/'' \<notin> set c"
  shows "path_Clean (a @ CHR ''/'' # b @ CHR ''/'' # c) =
    join_with (CHR ''/'') (rev (clean_elem False [b, a] c))"
proof -
  let ?p = "a @ CHR ''/'' # b @ CHR ''/'' # c"
  have sp: "split_on (CHR ''/'') ?p = [a, b, c]"
    using assms by (simp add: split_on_append split_on_free plain_elem_def)
  have nr: "\<not> HasPrefix ?p ''/''"
    using assms(1) HasPrefix_slash_append [of a] by (simp add: plain_elem_def)
  have ab: "clean_elem False [] a = [a]" "clean_elem False [a] b = [b, a]"
    using assms(1,2) by (simp_all add: clean_elem_def plain_elem_def)
  have ne: "clean_elem False [b, a] c \<noteq> []" by (simp add: clean_elem_def)
  show ?thesis
    using nr assms(1) by (simp add: path_Clean_def sp ab Let_def plain_elem_def ne)
qed

lemma path_Join_plain:
  assumes "plain_elem a" and "plain_elem b" and "plain_elem c"
  shows "path_Join [a, b, c] = a @ CHR ''/'' # b @ CHR ''/'' # c"
proof -
  have "a \<noteq> []" using assms(1) by (simp add: plain_elem_def)
  then show ?thesis
    using assms path_Clean_three [of a b c]
    by (simp add: path_Join_def clean_elem_def plain_elem_def)
qed

subsection \<open>Facts on decimal numbers\<close>

lemma of_char_digit: "n < 10 \<Longrightarrow> of_char (digit n) = 48 + n"
  by (simp add: digit_def)

lemma is_digit_digit: "n < 10 \<Longrightarrow> is_digit (digit n)"
  by (simp add: is_digit_def of_char_digit)

lemma nat_to_string_digits: "\<forall>c \<in> set (nat_to_string n). is_digit c"
proof (induction n rule: nat_to_string.induct)
  case (1 n)
  then show ?case
    by (subst nat_to_string.simps) (auto simp: is_digit_digit)
qed

lemma nat_to_string_nonempty: "nat_to_string n \<noteq> []"
  by (subst nat_to_string.simps) simp

lemma digits_value_nat_to_string: "digits_value (nat_to_string n) = n"
proof (induction n rule: nat_to_string.induct)
  case (1 n)
  show ?case
  proof (cases "n < 10")
    case True
    then show ?thesis by (subst nat_to_string.simps) (simp add: digits_value_def of_char_digit)
  next
    case False
    with 1 have "digits_value (nat_to_string (n div 10)) = n div 10" by simp
    with False show ?thesis
      by (subst nat_to_string.simps) (simp add: digits_value_def of_char_digit)
  qed
qed

text \<open>Bytes that start no white space encoding.\<close>

definition solid_char :: "char \<Rightarrow> bool" where
  "solid_char c \<longleftrightarrow> c \<notin> set (map hd white_space)"

lemma solid_no_space: "solid_char c \<Longrightarrow> p \<in> set white_space \<Longrightarrow> \<not> HasPrefix (c # s) p"
  by (auto simp: solid_char_def white_space_def HasPrefix_Cons)

lemma white_space_nonempty: "p \<in> set white_space \<Longrightarrow> p \<noteq> []"
  by (auto simp: white_space_def)

lemma digit_solid: "is_digit c \<Longrightarrow> solid_char c"
  by (auto simp: solid_char_def white_space_def is_digit_def)

lemma scan_token_solid: "\<forall>c \<in> set s. solid_char c \<Longrightarrow> scan_token s = s"
  by (induction s) (auto dest: solid_no_space)

lemma skip_space_solid:
  assumes "solid_char c"
  shows "skip_space (c # s) = Some (c # s)"
proof -
  have "[CHR 0x0A] \<in> set white_space" by (simp add: white_space_def)
  then have "\<not> HasPrefix (c # s) [CHR 0x0A]" by (rule solid_no_space [OF assms])
  moreover have "strip_prefixes (filter (\<lambda>p. p \<noteq> [CHR 0x0A]) white_space) (c # s) = c # s"
    using solid_no_space [OF assms] by (intro strip_prefixes_id) auto
  ultimately show ?thesis by (simp add: skip_space_def)
qed

lemma takeWhile_digits:
  "\<forall>c \<in> set ds. is_digit c \<Longrightarrow> \<not> is_digit d \<Longrightarrow>
   takeWhile is_digit (ds @ d # t) = ds \<and> dropWhile is_digit (ds @ d # t) = d # t"
  by (induction ds) auto

lemma scan_sign_nat: "scan_sign (nat_to_string n @ t) = (False, nat_to_string n @ t)"
proof (cases "nat_to_string n")
  case Nil
  then show ?thesis by (simp add: nat_to_string_nonempty)
next
  case (Cons c cs)
  then have "is_digit c" using nat_to_string_digits [of n] by simp
  then show ?thesis using Cons by (auto simp: scan_sign_def is_digit_def)
qed

lemma scan_int64_to_string:
  assumes "- (2 ^ 63) \<le> i" and "i < 2 ^ 63" and "\<not> is_digit d"
  shows "scan_int64 (int_to_string i @ d # t) = Some (i, d # t)"
  using assms takeWhile_digits [OF nat_to_string_digits assms(3)]
  by (auto simp: Let_def scan_int64_def int_to_string_def scan_sign_nat digits_value_nat_to_string
      nat_to_string_nonempty scan_sign_def [of "CHR ''-'' # _"])

lemma int_to_string_solid: "\<exists>c s. int_to_string i = c # s \<and> solid_char c"
proof -
  have "solid_char (CHR ''-'')" by (simp add: solid_char_def white_space_def)
  moreover have "\<exists>c s. nat_to_string n = c # s \<and> solid_char c" for n
    using nat_to_string_nonempty [of n] nat_to_string_digits [of n]
    by (cases "nat_to_string n") (auto intro: digit_solid)
  ultimately show ?thesis by (auto simp: int_to_string_def)
qed

lemma Sscanf_printed:
  assumes "- (2 ^ 63) \<le> i" and "i < 2 ^ 63" and "s \<noteq> []" and "\<forall>c \<in> set s. solid_char c"
  shows "Sscanf_d_bar_s (int_to_string i @ ''|'' @ s) = Some (i, s)"
proof -
  obtain c u where cu: "int_to_string i = c # u" "solid_char c"
    using int_to_string_solid by blast
  have "\<not> is_digit (CHR ''|'')" by (simp add: is_digit_def)
  then have "scan_int64 (int_to_string i @ ''|'' @ s) = Some (i, ''|'' @ s)"
    using scan_int64_to_string [OF assms(1,2), of "CHR ''|''" s] by simp
  moreover have "skip_space (int_to_string i @ ''|'' @ s) = Some (int_to_string i @ ''|'' @ s)"
    using cu skip_space_solid by simp
  moreover have "skip_space s = Some s"
    using assms(3,4) skip_space_solid by (cases s) auto
  ultimately show ?thesis
    using assms(3) scan_token_solid [OF assms(4)] by (simp add: Sscanf_d_bar_s_def)
qed

subsection \<open>Facts on matching\<close>

text \<open>The language of an expression; the matcher decides it.\<close>

definition conc :: "string set \<Rightarrow> string set \<Rightarrow> string set" where
  "conc A B = {a @ b | a b. a \<in> A \<and> b \<in> B}"

lemma concI: "a \<in> A \<Longrightarrow> b \<in> B \<Longrightarrow> a @ b \<in> conc A B"
  by (auto simp: conc_def)

lemma conc_rest:
  "(\<exists>p \<in> conc A B. s = p @ t) \<longleftrightarrow> (\<exists>u. (\<exists>a \<in> A. s = a @ u) \<and> (\<exists>b \<in> B. u = b @ t))"
proof
  assume "\<exists>p \<in> conc A B. s = p @ t"
  then obtain a b where "a \<in> A" "b \<in> B" "s = a @ b @ t" by (auto simp: conc_def)
  then show "\<exists>u. (\<exists>a \<in> A. s = a @ u) \<and> (\<exists>b \<in> B. u = b @ t)" by blast
next
  assume "\<exists>u. (\<exists>a \<in> A. s = a @ u) \<and> (\<exists>b \<in> B. u = b @ t)"
  then obtain a b where "a \<in> A" "b \<in> B" "s = (a @ b) @ t" by auto
  then show "\<exists>p \<in> conc A B. s = p @ t" unfolding conc_def by blast
qed

primrec lang_pow :: "nat \<Rightarrow> string set \<Rightarrow> string set" where
  "lang_pow 0 A = {[]}"
| "lang_pow (Suc n) A = conc A (lang_pow n A)"

primrec lang :: "regex \<Rightarrow> string set" where
  "lang (Class cs) = {[c] | c. c \<in> set cs}"
| "lang (Seq a b) = conc (lang a) (lang b)"
| "lang (Rep lo hi r) = (\<Union>n \<in> {lo..hi}. lang_pow n (lang r))"

lemma rep_rests_lang:
  assumes "\<And>s t. t \<in> set (f s) \<longleftrightarrow> (\<exists>p \<in> A. s = p @ t)"
  shows "t \<in> set (rep_rests f lo hi s) \<longleftrightarrow> (\<exists>n \<in> {lo..hi}. \<exists>p \<in> lang_pow n A. s = p @ t)"
proof (induction hi arbitrary: lo s)
  case 0
  then show ?case by auto
next
  case (Suc hi)
  have "(\<exists>n \<in> {lo..Suc hi}. \<exists>p \<in> lang_pow n A. s = p @ t) \<longleftrightarrow>
      (lo = 0 \<and> s = t) \<or> (\<exists>n \<in> {lo - 1..hi}. \<exists>p \<in> lang_pow (Suc n) A. s = p @ t)" (is "?L \<longleftrightarrow> ?R")
  proof
    assume ?L
    then obtain n p where n: "lo \<le> n" "n \<le> Suc hi" "p \<in> lang_pow n A" "s = p @ t" by auto
    then show ?R by (cases n) (auto intro!: bexI [of _ "n - 1"])
  next
    assume ?R
    then show ?L
    proof
      assume "lo = 0 \<and> s = t"
      then show ?L by (intro bexI [of _ 0]) auto
    next
      assume "\<exists>n \<in> {lo - 1..hi}. \<exists>p \<in> lang_pow (Suc n) A. s = p @ t"
      then obtain n where "lo - 1 \<le> n" "n \<le> hi" "\<exists>p \<in> lang_pow (Suc n) A. s = p @ t" by auto
      then show ?L by (intro bexI [of _ "Suc n"]) auto
    qed
  qed
  moreover have "t \<in> set (concat (map (rep_rests f (lo - 1) hi) (f s))) \<longleftrightarrow>
      (\<exists>n \<in> {lo - 1..hi}. \<exists>p \<in> lang_pow (Suc n) A. s = p @ t)"
    (is "?M \<longleftrightarrow> ?N")
  proof
    assume ?M
    then obtain u where "u \<in> set (f s)" "t \<in> set (rep_rests f (lo - 1) hi u)" by auto
    then have "\<exists>a \<in> A. s = a @ u" "\<exists>n \<in> {lo - 1..hi}. \<exists>b \<in> lang_pow n A. u = b @ t"
      using assms Suc.IH by blast+
    then show ?N unfolding lang_pow.simps conc_rest by blast
  next
    assume ?N
    then obtain n u where "n \<in> {lo - 1..hi}" "\<exists>a \<in> A. s = a @ u" "\<exists>b \<in> lang_pow n A. u = b @ t"
      unfolding lang_pow.simps conc_rest by blast
    then have "u \<in> set (f s)" "t \<in> set (rep_rests f (lo - 1) hi u)" using assms Suc.IH by blast+
    then show ?M by auto
  qed
  ultimately show ?case by auto
qed

lemma re_rests_lang: "t \<in> set (re_rests r s) \<longleftrightarrow> (\<exists>p \<in> lang r. s = p @ t)"
proof (induction r arbitrary: s t)
  case (Class cs)
  then show ?case by (cases s) auto
next
  case (Seq a b)
  then show ?case unfolding lang.simps conc_rest by auto
next
  case (Rep lo hi r)
  then show ?case using rep_rests_lang [of "re_rests r" "lang r" t lo hi s] by auto
qed

lemma MatchString_lang: "MatchString r s \<longleftrightarrow> s \<in> lang r"
  by (simp add: MatchString_def re_rests_lang)

lemma lang_pow_Class: "lang_pow n {[c] | c. c \<in> set cs} = {s. length s = n \<and> set s \<subseteq> set cs}"
proof (induction n)
  case (Suc n)
  have "conc {[c] | c. c \<in> set cs} {s. length s = n \<and> set s \<subseteq> set cs} = {s. length s = Suc n \<and> set s \<subseteq> set cs}"
  proof (intro set_eqI iffI)
    fix s assume "s \<in> {s. length s = Suc n \<and> set s \<subseteq> set cs}"
    then obtain c t where s: "s = [c] @ t"
      and ct: "[c] \<in> {[c] | c. c \<in> set cs}" "t \<in> {s. length s = n \<and> set s \<subseteq> set cs}"
      by (cases s) auto
    show "s \<in> conc {[c] | c. c \<in> set cs} {s. length s = n \<and> set s \<subseteq> set cs}"
      unfolding s using ct by (rule concI)
  qed (auto simp: conc_def)
  then show ?case by (simp add: Suc.IH)
qed auto

lemma lang_Rep_Class: "lang (Rep lo hi (Class cs)) = {s. lo \<le> length s \<and> length s \<le> hi \<and> set s \<subseteq> set cs}"
  by (auto simp: lang_pow_Class)

lemma MatchString_Rep_Class:
  "MatchString (Rep lo hi (Class cs)) s \<longleftrightarrow> lo \<le> length s \<and> length s \<le> hi \<and> set s \<subseteq> set cs"
  unfolding MatchString_lang lang_Rep_Class by simp

end
