(* ===== verification/Domain_Model.thy ===== *)
theory Domain_Model
  imports Go_Strings
begin

text \<open>
  \<open>src/internal/domain/file.go\<close>: the sentinel errors, the file status and upload mode, the
  metadata record and its methods. An instant is the number of nanoseconds since the Unix
  epoch, a duration a number of nanoseconds.
\<close>

type_synonym time = int
type_synonym duration = int

text \<open>Go's zero \<open>time.Time\<close>, the first of January of year 1.\<close>

definition zero_time :: time where
  "zero_time = - 62135596800000000000"

subsection \<open>Errors\<close>

text \<open>
  The four sentinels of the package, an error made by \<open>fmt.Errorf\<close> around another one (the
  text before \<open>%w\<close>, the wrapped error, the text after it), an error with a text of its own,
  the \<open>ErrNoRows\<close> value of the driver, and any other error of a third-party package, of which
  only a description is kept.
\<close>

datatype err =
    ErrNotFound
  | ErrAccessDenied
  | ErrInvalidInput
  | ErrAlreadyExists
  | Wrapf string err string
  | NewError string
  | PgxErrNoRows
  | External string

primrec Error :: "err \<Rightarrow> string" where
  "Error ErrNotFound = ''file not found''"
| "Error ErrAccessDenied = ''access denied''"
| "Error ErrInvalidInput = ''invalid input''"
| "Error ErrAlreadyExists = ''file already confirmed''"
| "Error (Wrapf pre e post) = pre @ Error e @ post"
| "Error (NewError s) = s"
| "Error PgxErrNoRows = ''no rows in result set''"
| "Error (External s) = s"

text \<open>\<open>errors.Is\<close> follows the chain of wrapped errors.\<close>

fun errors_Is :: "err \<Rightarrow> err \<Rightarrow> bool" where
  "errors_Is (Wrapf pre e post) t \<longleftrightarrow> Wrapf pre e post = t \<or> errors_Is e t"
| "errors_Is e t \<longleftrightarrow> e = t"

text \<open>The sentinel at the end of a chain.\<close>

primrec root_err :: "err \<Rightarrow> err" where
  "root_err (Wrapf pre e post) = root_err e"
| "root_err ErrNotFound = ErrNotFound"
| "root_err ErrAccessDenied = ErrAccessDenied"
| "root_err ErrInvalidInput = ErrInvalidInput"
| "root_err ErrAlreadyExists = ErrAlreadyExists"
| "root_err (NewError s) = NewError s"
| "root_err PgxErrNoRows = PgxErrNoRows"
| "root_err (External s) = External s"

lemma errors_Is_sentinel:
  "t \<in> {ErrNotFound, ErrAccessDenied, ErrInvalidInput, ErrAlreadyExists} \<Longrightarrow>
   errors_Is e t \<longleftrightarrow> root_err e = t"
  by (induction e) auto

subsection \<open>Status and upload mode\<close>

text \<open>Both are string types with named values, and any other string is a value too.\<close>

type_synonym FileStatus = string
type_synonym UploadMode_t = string

definition FileStatusPending :: FileStatus where "FileStatusPending = ''pending''"
definition FileStatusReady :: FileStatus where "FileStatusReady = ''ready''"
definition FileStatusDeleted :: FileStatus where "FileStatusDeleted = ''deleted''"

definition UploadModeSingle :: UploadMode_t where "UploadModeSingle = ''single''"
definition UploadModeMultipart :: UploadMode_t where "UploadModeMultipart = ''multipart''"

lemma status_distinct [simp]:
  "FileStatusPending \<noteq> FileStatusReady" "FileStatusReady \<noteq> FileStatusPending"
  "FileStatusPending \<noteq> FileStatusDeleted" "FileStatusDeleted \<noteq> FileStatusPending"
  "FileStatusReady \<noteq> FileStatusDeleted" "FileStatusDeleted \<noteq> FileStatusReady"
  by (simp_all add: FileStatusPending_def FileStatusReady_def FileStatusDeleted_def)

lemma mode_distinct [simp]:
  "UploadModeSingle \<noteq> UploadModeMultipart" "UploadModeMultipart \<noteq> UploadModeSingle"
  by (simp_all add: UploadModeSingle_def UploadModeMultipart_def)

lemmas status_defs = FileStatusPending_def FileStatusReady_def FileStatusDeleted_def
  UploadModeSingle_def UploadModeMultipart_def

subsection \<open>Metadata, parts, listing\<close>

record FileMetadata =
  ID :: string
  OwnerID :: string
  Bucket :: string
  ObjectKey :: string
  OriginalName :: string
  ContentType :: string
  SizeBytes :: int64
  ChecksumSHA256 :: string
  Status :: FileStatus
  UploadMode :: UploadMode_t
  UploadID :: string
  PartSize :: int64
  CreatedAt :: time
  UpdatedAt :: time

record UploadPart =
  PartNumber :: int32
  ETag :: string
  UploadedAt :: time

record CompletedPart =
  CompletedNumber :: int32
  CompletedETag :: string

record ListFilter =
  FilterOwnerID :: string
  PageSize :: int32
  PageToken :: string

record ListResult =
  Files :: "FileMetadata list"
  NextPageToken :: string

definition TotalParts :: "FileMetadata \<Rightarrow> int32" where
  "TotalParts f =
     (if sint (PartSize f) \<le> 0 \<or> sint (SizeBytes f) \<le> 0 then 0
      else to_int32 (quot64 (SizeBytes f + PartSize f - 1) (PartSize f)))"

definition IsMultipart :: "FileMetadata \<Rightarrow> bool" where
  "IsMultipart f \<longleftrightarrow> UploadMode f = UploadModeMultipart"

definition IsOwnedBy :: "FileMetadata \<Rightarrow> string \<Rightarrow> bool" where
  "IsOwnedBy f ownerID \<longleftrightarrow> OwnerID f = ownerID"

definition CanDownload :: "FileMetadata \<Rightarrow> bool" where
  "CanDownload f \<longleftrightarrow> Status f = FileStatusReady"

subsection \<open>The number of parts\<close>

text \<open>Where neither the sum nor the conversion overflows, the result is the ceiling quotient.\<close>

definition parts_fit :: "FileMetadata \<Rightarrow> bool" where
  "parts_fit f \<longleftrightarrow> 0 < sint (SizeBytes f) \<and> 0 < sint (PartSize f) \<and>
     sint (SizeBytes f) + sint (PartSize f) \<le> 2 ^ 63 \<and>
     sint (SizeBytes f) \<le> sint (PartSize f) * (2 ^ 31 - 1)"

text \<open>The conversion keeps the low 32 bits of the quotient.\<close>

lemma TotalParts_word:
  assumes s: "0 < sint (SizeBytes f)" and p: "0 < sint (PartSize f)"
    and sum: "sint (SizeBytes f) + sint (PartSize f) \<le> 2 ^ 63"
  shows "TotalParts f = word_of_int ((sint (SizeBytes f) + sint (PartSize f) - 1) div sint (PartSize f))"
proof -
  let ?s = "sint (SizeBytes f)" and ?p = "sint (PartSize f)"
  have m1: "SizeBytes f + PartSize f - 1 = SizeBytes f + (PartSize f - 1)" by simp
  have e1: "sint (PartSize f - 1) = ?p - 1"
    using p sint64_range(2) [of "PartSize f"] sint64_sub [of "PartSize f" 1] by simp
  have e: "sint (SizeBytes f + PartSize f - 1) = ?s + ?p - 1"
    unfolding m1 using s p sum e1 sint64_add [of "SizeBytes f" "PartSize f - 1"] by simp
  have "sint (quot64 (SizeBytes f + PartSize f - 1) (PartSize f)) = (?s + ?p - 1) div ?p"
    using s p by (subst sint_quot64) (simp_all add: e)
  then show ?thesis using s p by (simp add: TotalParts_def to_int32_def)
qed

lemma TotalParts_ceiling:
  assumes "parts_fit f"
  shows "sint (TotalParts f) =
    (sint (SizeBytes f) + sint (PartSize f) - 1) div sint (PartSize f)"
proof -
  let ?s = "sint (SizeBytes f)" and ?p = "sint (PartSize f)"
  from assms have s: "0 < ?s" and p: "0 < ?p" and sum: "?s + ?p \<le> 2 ^ 63"
    and b: "?s \<le> ?p * (2 ^ 31 - 1)" by (auto simp: parts_fit_def)
  have "((?s + ?p - 1) div ?p - 1) * ?p < ?p * (2 ^ 31 - 1)"
    using ceil_quot_bounds(2) [OF p s] b by simp
  then have "(?s + ?p - 1) div ?p - 1 < 2 ^ 31 - 1"
    using p by (simp add: mult.commute [of _ ?p])
  moreover have "1 \<le> (?s + ?p - 1) div ?p" by (rule ceil_quot_bounds(1) [OF p s])
  ultimately show ?thesis
    unfolding TotalParts_word [OF s p sum] by (intro sint32_word_of_int) simp_all
qed

lemma TotalParts_pos: "parts_fit f \<Longrightarrow> 1 \<le> sint (TotalParts f)"
  using ceil_quot_bounds(1) [of "sint (PartSize f)" "sint (SizeBytes f)"]
  by (simp add: TotalParts_ceiling parts_fit_def)

end
