(* ===== verification/Validation.thy ===== *)
theory Validation
  imports Domain_Model
begin

text \<open>
  \<open>src/internal/validation/validation.go\<close>. Each check returns the error it reports, or
  \<open>None\<close>. The patterns are written as the source has them; the equivalences below say in
  plain terms what they accept.
\<close>

definition lower_letters :: string where "lower_letters = ''abcdefghijklmnopqrstuvwxyz''"
definition upper_letters :: string where "upper_letters = ''ABCDEFGHIJKLMNOPQRSTUVWXYZ''"
definition digit_chars :: string where "digit_chars = ''0123456789''"

definition alnum :: string where
  "alnum = lower_letters @ upper_letters @ digit_chars"

definition ownerIDRE :: regex where
  "ownerIDRE = Rep 1 128 (Class (alnum @ ''_-''))"

definition mime_tail :: string where
  "mime_tail = alnum @ ''!#$&^_.+-''"

definition contentTypeRE :: regex where
  "contentTypeRE =
     Seq (Class alnum) (Seq (Rep 0 126 (Class mime_tail)) (Seq (Class ''/'')
       (Seq (Class alnum) (Rep 0 126 (Class mime_tail)))))"

definition checksumRE :: regex where
  "checksumRE = Rep 64 64 (Class ''abcdef0123456789'')"

definition OwnerID_check :: "string \<Rightarrow> err option" where
  "OwnerID_check ownerID =
     (if \<not> MatchString ownerIDRE ownerID
      then Some (Wrapf [] ErrInvalidInput '': invalid owner_id format'')
      else if Contains ownerID ''..''
      then Some (Wrapf [] ErrInvalidInput '': invalid owner_id'')
      else None)"

definition ContentType_check :: "string \<Rightarrow> err option" where
  "ContentType_check contentType =
     (if \<not> MatchString contentTypeRE contentType
      then Some (Wrapf [] ErrInvalidInput '': invalid content_type'')
      else None)"

definition ChecksumSHA256_check :: "string \<Rightarrow> err option" where
  "ChecksumSHA256_check checksum =
     (if checksum = [] then None
      else if \<not> MatchString checksumRE (ToLower checksum)
      then Some (Wrapf [] ErrInvalidInput '': checksum_sha256 must be 64 hex chars'')
      else None)"

definition FileSize_check :: "int64 \<Rightarrow> int64 \<Rightarrow> err option" where
  "FileSize_check sizeBytes maxSize =
     (if sint sizeBytes \<le> 0 then Some ErrInvalidInput
      else if 0 < sint maxSize \<and> sint maxSize < sint sizeBytes
      then Some (Wrapf [] ErrInvalidInput '': file exceeds max size'')
      else None)"

definition CreateUploadInput ::
  "string \<Rightarrow> string \<Rightarrow> string \<Rightarrow> int64 \<Rightarrow> int64 \<Rightarrow> err option" where
  "CreateUploadInput ownerID originalName contentType sizeBytes maxSize =
     (if originalName = [] \<or> contentType = [] then Some ErrInvalidInput
      else case OwnerID_check ownerID of
        Some e \<Rightarrow> Some e
      | None \<Rightarrow>
          (case ContentType_check contentType of
             Some e \<Rightarrow> Some e
           | None \<Rightarrow> FileSize_check sizeBytes maxSize))"

lemmas [go_defs] = OwnerID_check_def ContentType_check_def ChecksumSHA256_check_def
  FileSize_check_def CreateUploadInput_def

subsection \<open>What the checks accept\<close>

lemma no_dots: "set s \<subseteq> set (alnum @ ''_-'') \<Longrightarrow> \<not> Contains s ''..''"
proof (induction s)
  case Nil
  then show ?case by simp
next
  case (Cons c s)
  then have "c \<noteq> CHR ''.''"
    by (auto simp: alnum_def lower_letters_def upper_letters_def digit_chars_def)
  with Cons show ?case by (auto simp: HasPrefix_Cons)
qed

lemma OwnerID_check_None:
  "OwnerID_check o' = None \<longleftrightarrow> 1 \<le> length o' \<and> length o' \<le> 128 \<and> set o' \<subseteq> set (alnum @ ''_-'')"
  using no_dots [of o']
  by (auto simp: OwnerID_check_def ownerIDRE_def MatchString_Rep_Class
      simp del: set_append)

lemma OwnerID_plain:
  assumes "OwnerID_check o' = None"
  shows "plain_elem o'"
proof -
  from assms have "o' \<noteq> []" and s: "set o' \<subseteq> set (alnum @ ''_-'')"
    unfolding OwnerID_check_None by auto
  have "CHR ''.'' \<notin> set (alnum @ ''_-'')" "CHR ''/'' \<notin> set (alnum @ ''_-'')"
    by (simp_all add: alnum_def lower_letters_def upper_letters_def digit_chars_def)
  then have "CHR ''.'' \<notin> set o'" "CHR ''/'' \<notin> set o'" using s by blast+
  with \<open>o' \<noteq> []\<close> show ?thesis by (auto simp: plain_elem_def)
qed

lemma validation_root:
  "OwnerID_check o' = Some e \<Longrightarrow> root_err e = ErrInvalidInput"
  "ContentType_check c = Some e \<Longrightarrow> root_err e = ErrInvalidInput"
  "ChecksumSHA256_check h = Some e \<Longrightarrow> root_err e = ErrInvalidInput"
  "FileSize_check n m = Some e \<Longrightarrow> root_err e = ErrInvalidInput"
  by (auto simp: go_defs split: if_splits)

lemma CreateUploadInput_root:
  "CreateUploadInput o' n c s m = Some e \<Longrightarrow> root_err e = ErrInvalidInput"
  by (auto simp: CreateUploadInput_def dest: validation_root split: if_splits option.splits)

definition mime_token :: "string \<Rightarrow> bool" where
  "mime_token s \<longleftrightarrow> s \<noteq> [] \<and> hd s \<in> set alnum \<and> length s \<le> 127 \<and> set (tl s) \<subseteq> set mime_tail"

lemma lang_token:
  "conc (lang (Class alnum)) (lang (Rep 0 126 (Class mime_tail))) = {s. mime_token s}"
proof (intro set_eqI iffI)
  fix s assume "s \<in> {s. mime_token s}"
  then obtain c t where "s = [c] @ t" "[c] \<in> lang (Class alnum)" "t \<in> lang (Rep 0 126 (Class mime_tail))"
    unfolding lang_Rep_Class by (cases s) (auto simp: mime_token_def)
  then show "s \<in> conc (lang (Class alnum)) (lang (Rep 0 126 (Class mime_tail)))" by (metis concI)
qed (auto simp: conc_def lang_Rep_Class mime_token_def simp del: lang.simps(3))

lemma conc_assoc: "conc (conc A B) C = conc A (conc B C)"
  unfolding conc_def by (auto, metis append_assoc, metis append_assoc)

lemma ContentType_check_None:
  "ContentType_check ct = None \<longleftrightarrow> (\<exists>a b. ct = a @ ''/'' @ b \<and> mime_token a \<and> mime_token b)"
proof -
  have "lang contentTypeRE = conc {s. mime_token s} (conc (lang (Class ''/'')) {s. mime_token s})"
    unfolding contentTypeRE_def lang.simps(2) lang_token [symmetric] conc_assoc ..
  then show ?thesis by (auto simp: ContentType_check_def MatchString_lang conc_def)
qed

lemma ChecksumSHA256_check_None:
  "ChecksumSHA256_check h = None \<longleftrightarrow> h = [] \<or> length h = 64 \<and> set (ToLower h) \<subseteq> set ''abcdef0123456789''"
  by (auto simp: ChecksumSHA256_check_def checksumRE_def MatchString_Rep_Class ToLower_def)

subsection \<open>Property\<close>

text \<open>
  C23. What the input checks accept, in plain terms. A file can be created exactly when its name is
  not empty, its owner is 1 to 128 letters, digits, underscores and hyphens, its content type is
  two tokens of at most 127 characters around a slash, and its size is positive and within the
  limit, if there is one. A checksum is accepted when it is empty or 64 hexadecimal digits.
\<close>
theorem accepted_inputs:
  "(CreateUploadInput ownerID originalName contentType sizeBytes maxSize = None \<longleftrightarrow>
      originalName \<noteq> [] \<and>
      (1 \<le> length ownerID \<and> length ownerID \<le> 128 \<and> set ownerID \<subseteq> set (alnum @ ''_-'')) \<and>
      (\<exists>a b. contentType = a @ ''/'' @ b \<and> mime_token a \<and> mime_token b) \<and>
      0 < sint sizeBytes \<and> (sint maxSize \<le> 0 \<or> sint sizeBytes \<le> sint maxSize)) \<and>
   (ChecksumSHA256_check checksum = None \<longleftrightarrow>
      checksum = [] \<or> length checksum = 64 \<and> set (ToLower checksum) \<subseteq> set ''abcdef0123456789'')"
proof (rule conjI)
  have "ContentType_check [] \<noteq> None" by (simp add: ContentType_check_None)
  then show "CreateUploadInput ownerID originalName contentType sizeBytes maxSize = None \<longleftrightarrow>
      originalName \<noteq> [] \<and>
      (1 \<le> length ownerID \<and> length ownerID \<le> 128 \<and> set ownerID \<subseteq> set (alnum @ ''_-'')) \<and>
      (\<exists>a b. contentType = a @ ''/'' @ b \<and> mime_token a \<and> mime_token b) \<and>
      0 < sint sizeBytes \<and> (sint maxSize \<le> 0 \<or> sint sizeBytes \<le> sint maxSize)"
    unfolding OwnerID_check_None [symmetric] ContentType_check_None [symmetric]
    by (auto simp: CreateUploadInput_def FileSize_check_def split: option.split)
qed (rule ChecksumSHA256_check_None)

end
