(* ===== verification/Postgres_Sql.thy ===== *)
theory Postgres_Sql
  imports Validation
begin

text \<open>
  The two tables of \<open>src/internal/repository/postgres/migrations\<close> and the meaning of every
  SQL statement that \<open>src/internal/repository/postgres/file.go\<close> sends. A table is the list of
  its rows, a statement a function from the tables to its result and the new tables. What the
  engine does to a value is a parameter: \<open>pgUUID\<close> reads a text as a \<open>UUID\<close> column does and
  returns its canonical text (or rejects it), \<open>pgTime\<close> is the resolution at which a
  \<open>TIMESTAMPTZ\<close> column keeps an instant, and \<open>pgRefuses done script\<close> is the error with
  which it refuses a script of schema definitions after the scripts \<open>done\<close>, if it does.
\<close>

record pg_engine =
  pgUUID :: "string \<Rightarrow> string option"
  pgTime :: "time \<Rightarrow> time"
  pgRefuses :: "string list \<Rightarrow> string \<Rightarrow> string option"

record part_row =
  pr_file_id :: string
  pr_part :: UploadPart

text \<open>\<open>scripts\<close> lists the migration scripts executed so far, oldest first.\<close>

record pgdb =
  files :: "FileMetadata list"
  upload_parts :: "part_row list"
  scripts :: "string list"

subsection \<open>Constraints of the schema\<close>

text \<open>A \<open>TEXT\<close> value holds any byte but zero.\<close>

definition text_ok :: "string \<Rightarrow> bool" where
  "text_ok s \<longleftrightarrow> CHR 0x00 \<notin> set s"

definition file_row_ok :: "FileMetadata \<Rightarrow> bool" where
  "file_row_ok r \<longleftrightarrow>
     text_ok (OwnerID r) \<and> text_ok (Bucket r) \<and> text_ok (ObjectKey r) \<and>
     text_ok (OriginalName r) \<and> text_ok (ContentType r) \<and> text_ok (ChecksumSHA256 r) \<and>
     text_ok (UploadID r) \<and> 0 \<le> sint (SizeBytes r) \<and>
     Status r \<in> {FileStatusPending, FileStatusReady, FileStatusDeleted} \<and>
     UploadMode r \<in> {UploadModeSingle, UploadModeMultipart}"

definition part_row_ok :: "part_row \<Rightarrow> bool" where
  "part_row_ok p \<longleftrightarrow> 0 < sint (PartNumber (pr_part p)) \<and> text_ok (ETag (pr_part p))"

subsection \<open>Statements on table files\<close>

definition sql_insert_file :: "pg_engine \<Rightarrow> FileMetadata \<Rightarrow> pgdb \<Rightarrow> (err + nat) \<times> pgdb" where
  "sql_insert_file P f d =
     (case pgUUID P (ID f) of
        None \<Rightarrow> (Inl (External ''invalid_text_representation''), d)
      | Some u \<Rightarrow>
          (let r = f\<lparr>ID := u, CreatedAt := pgTime P (CreatedAt f), UpdatedAt := pgTime P (UpdatedAt f)\<rparr>
           in if \<not> file_row_ok r then (Inl (External ''check_violation''), d)
              else if \<exists>x \<in> set (files d). ID x = u \<or> ObjectKey x = ObjectKey r
              then (Inl (External ''unique_violation''), d)
              else (Inr 1, d\<lparr>files := files d @ [r]\<rparr>)))"

definition sql_select_file ::
  "pg_engine \<Rightarrow> string \<Rightarrow> pgdb \<Rightarrow> (err + FileMetadata list) \<times> pgdb" where
  "sql_select_file P i d =
     (case pgUUID P i of
        None \<Rightarrow> (Inl (External ''invalid_text_representation''), d)
      | Some u \<Rightarrow> (Inr (filter (\<lambda>r. ID r = u) (files d)), d))"

text \<open>The assignments of the \<open>UPDATE\<close> that confirms an upload.\<close>

definition confirm_row :: "pg_engine \<Rightarrow> string \<Rightarrow> time \<Rightarrow> FileMetadata \<Rightarrow> FileMetadata" where
  "confirm_row P checksum t r =
     r\<lparr>Status := FileStatusReady, ChecksumSHA256 := checksum, UpdatedAt := pgTime P t,
       UploadID := [], UploadMode := UploadModeSingle, PartSize := 0\<rparr>"

definition sql_confirm ::
  "pg_engine \<Rightarrow> string \<Rightarrow> string \<Rightarrow> time \<Rightarrow> pgdb \<Rightarrow> (err + FileMetadata list) \<times> pgdb" where
  "sql_confirm P i checksum t d =
     (case pgUUID P i of
        None \<Rightarrow> (Inl (External ''invalid_text_representation''), d)
      | Some u \<Rightarrow>
          if \<not> text_ok checksum then (Inl (External ''invalid_byte_sequence''), d)
          else
            (let hit = (\<lambda>r. ID r = u \<and> Status r = FileStatusPending);
                 upd = confirm_row P checksum t
             in (Inr (map upd (filter hit (files d))),
                 d\<lparr>files := map (\<lambda>r. if hit r then upd r else r) (files d)\<rparr>)))"

definition delete_row :: "pg_engine \<Rightarrow> time \<Rightarrow> FileMetadata \<Rightarrow> FileMetadata" where
  "delete_row P t r = r\<lparr>Status := FileStatusDeleted, UpdatedAt := pgTime P t\<rparr>"

definition sql_soft_delete ::
  "pg_engine \<Rightarrow> string \<Rightarrow> time \<Rightarrow> pgdb \<Rightarrow> (err + nat) \<times> pgdb" where
  "sql_soft_delete P i t d =
     (case pgUUID P i of
        None \<Rightarrow> (Inl (External ''invalid_text_representation''), d)
      | Some u \<Rightarrow>
          (let hit = (\<lambda>r. ID r = u \<and> Status r \<noteq> FileStatusDeleted)
           in (Inr (length (filter hit (files d))),
               d\<lparr>files := map (\<lambda>r. if hit r then delete_row P t r else r) (files d)\<rparr>)))"

text \<open>
  The page query. \<open>UUID\<close> values are compared byte by byte, which is the order of their
  canonical texts: hyphens stand at fixed positions and digits precede letters.
\<close>

definition page_key :: "FileMetadata \<Rightarrow> time \<times> string" where
  "page_key r = (CreatedAt r, ID r)"

definition page_rows ::
  "pg_engine \<Rightarrow> string \<Rightarrow> time option \<Rightarrow> string \<Rightarrow> pgdb \<Rightarrow> FileMetadata list" where
  "page_rows P owner cursorTime cursorID d =
     rev (sort_key page_key
       (filter (\<lambda>r. OwnerID r = owner \<and> Status r \<noteq> FileStatusDeleted \<and>
            (case cursorTime of None \<Rightarrow> True | Some t \<Rightarrow> page_key r < (pgTime P t, cursorID)))
          (files d)))"

definition sql_select_page ::
  "pg_engine \<Rightarrow> string \<Rightarrow> time option \<Rightarrow> string \<Rightarrow> int32 \<Rightarrow> pgdb \<Rightarrow>
     (err + FileMetadata list) \<times> pgdb" where
  "sql_select_page P owner cursorTime cursorID limit d =
     (if \<not> text_ok owner then (Inl (External ''invalid_byte_sequence''), d)
      else if sint limit < 0 then (Inl (External ''invalid_row_count_in_limit_clause''), d)
      else (Inr (take (nat (sint limit)) (page_rows P owner cursorTime cursorID d)), d))"

subsection \<open>Statements on table upload\_parts\<close>

definition part_hit :: "string \<Rightarrow> int32 \<Rightarrow> part_row \<Rightarrow> bool" where
  "part_hit u n p \<longleftrightarrow> pr_file_id p = u \<and> PartNumber (pr_part p) = n"

definition sql_upsert_part ::
  "pg_engine \<Rightarrow> string \<Rightarrow> UploadPart \<Rightarrow> pgdb \<Rightarrow> (err + nat) \<times> pgdb" where
  "sql_upsert_part P fileID part d =
     (case pgUUID P fileID of
        None \<Rightarrow> (Inl (External ''invalid_text_representation''), d)
      | Some u \<Rightarrow>
          (let p = \<lparr>pr_file_id = u, pr_part = part\<lparr>UploadedAt := pgTime P (UploadedAt part)\<rparr>\<rparr>
           in if \<not> part_row_ok p then (Inl (External ''check_violation''), d)
              else if \<exists>q \<in> set (upload_parts d). part_hit u (PartNumber part) q
              then (Inr 1, d\<lparr>upload_parts :=
                      map (\<lambda>q. if part_hit u (PartNumber part) q then p else q) (upload_parts d)\<rparr>)
              else if \<not> (\<exists>r \<in> set (files d). ID r = u)
              then (Inl (External ''foreign_key_violation''), d)
              else (Inr 1, d\<lparr>upload_parts := upload_parts d @ [p]\<rparr>)))"

definition parts_of :: "pgdb \<Rightarrow> string \<Rightarrow> UploadPart list" where
  "parts_of d u =
     sort_key (\<lambda>p. sint (PartNumber p))
       (map pr_part (filter (\<lambda>p. pr_file_id p = u) (upload_parts d)))"

definition sql_select_parts ::
  "pg_engine \<Rightarrow> string \<Rightarrow> pgdb \<Rightarrow> (err + UploadPart list) \<times> pgdb" where
  "sql_select_parts P fileID d =
     (case pgUUID P fileID of
        None \<Rightarrow> (Inl (External ''invalid_text_representation''), d)
      | Some u \<Rightarrow> (Inr (parts_of d u), d))"

definition sql_delete_parts :: "pg_engine \<Rightarrow> string \<Rightarrow> pgdb \<Rightarrow> (err + nat) \<times> pgdb" where
  "sql_delete_parts P fileID d =
     (case pgUUID P fileID of
        None \<Rightarrow> (Inl (External ''invalid_text_representation''), d)
      | Some u \<Rightarrow>
          (Inr (length (filter (\<lambda>p. pr_file_id p = u) (upload_parts d))),
           d\<lparr>upload_parts := filter (\<lambda>p. pr_file_id p \<noteq> u) (upload_parts d)\<rparr>))"

lemmas [sql_defs] = sql_insert_file_def sql_select_file_def sql_confirm_def sql_soft_delete_def
  sql_select_page_def sql_upsert_part_def sql_select_parts_def sql_delete_parts_def

subsection \<open>One row of table files\<close>

definition get_row :: "pgdb \<Rightarrow> string \<Rightarrow> FileMetadata option" where
  "get_row d u = find (\<lambda>r. ID r = u) (files d)"

lemma row_update_ID [simp]:
  "ID (confirm_row P c t r) = ID r" "ID (delete_row P t r) = ID r"
  by (simp_all add: confirm_row_def delete_row_def)

lemma row_update_ObjectKey [simp]:
  "ObjectKey (confirm_row P c t r) = ObjectKey r" "ObjectKey (delete_row P t r) = ObjectKey r"
  by (simp_all add: confirm_row_def delete_row_def)

text \<open>The well-formed states: what the schema's keys and checks guarantee.\<close>

definition db_wf :: "pg_engine \<Rightarrow> pgdb \<Rightarrow> bool" where
  "db_wf P d \<longleftrightarrow>
     distinct (map ID (files d)) \<and> distinct (map ObjectKey (files d)) \<and>
     (\<forall>r \<in> set (files d). file_row_ok r \<and> pgUUID P (ID r) = Some (ID r) \<and>
        pgTime P (CreatedAt r) = CreatedAt r \<and> pgTime P (UpdatedAt r) = UpdatedAt r) \<and>
     distinct (map (\<lambda>p. (pr_file_id p, PartNumber (pr_part p))) (upload_parts d)) \<and>
     (\<forall>p \<in> set (upload_parts d). part_row_ok p \<and> pr_file_id p \<in> ID ` set (files d) \<and>
        pgTime P (UploadedAt (pr_part p)) = UploadedAt (pr_part p))"

text \<open>
  What is relied on of the engine: reading back a canonical text gives the same text, and an
  instant that was stored once is stored unchanged.
\<close>

definition engine_ok :: "pg_engine \<Rightarrow> bool" where
  "engine_ok P \<longleftrightarrow> (\<forall>s u. pgUUID P s = Some u \<longrightarrow> pgUUID P u = Some u) \<and>
     (\<forall>t. pgTime P (pgTime P t) = pgTime P t)"

end
