(* ===== verification/Postgres_Facts.thy ===== *)
theory Postgres_Facts
  imports Postgres_Sql
begin

text \<open>
  What the statements of \<open>Postgres_Sql\<close> do to the tables: they keep the schema's invariant,
  a row only moves forward in its life cycle, and what the answer of a statement says of the
  rows before and after it.
\<close>

subsection \<open>Lookups after an update\<close>

lemma get_row_map:
  assumes "\<And>r. ID (g r) = ID r"
  shows "get_row (d\<lparr>files := map g (files d)\<rparr>) u = map_option g (get_row d u)"
  unfolding get_row_def using assms by (simp add: find_map_same)

lemma get_row_append:
  "get_row (d\<lparr>files := files d @ [r]\<rparr>) u =
     (case get_row d u of None \<Rightarrow> if ID r = u then Some r else None | Some x \<Rightarrow> Some x)"
  by (auto simp: get_row_def find_append split: option.split)

lemma get_row_parts [simp]:
  "get_row (d\<lparr>upload_parts := ps\<rparr>) u = get_row d u" "get_row (d\<lparr>scripts := ss\<rparr>) u = get_row d u"
  by (simp_all add: get_row_def)

lemma get_row_ID: "get_row d u = Some r \<Longrightarrow> ID r = u \<and> r \<in> set (files d)"
  unfolding get_row_def by (drule find_Some_mem) simp

lemma get_row_None_iff: "get_row d u = None \<longleftrightarrow> (\<forall>r \<in> set (files d). ID r \<noteq> u)"
  by (auto simp: get_row_def find_None_iff)

lemma get_row_mem:
  assumes "db_wf P d" and "r \<in> set (files d)"
  shows "get_row d (ID r) = Some r"
  using assms find_eq_Some_distinct [of ID "files d" r] by (simp add: get_row_def db_wf_def)

lemma filter_ID_distinct:
  "distinct (map ID rs) \<Longrightarrow>
   filter (\<lambda>r. ID r = u \<and> Q r) rs =
     (case find (\<lambda>r. ID r = u) rs of None \<Rightarrow> [] | Some r \<Rightarrow> if Q r then [r] else [])"
proof (induction rs)
  case Nil
  then show ?case by simp
next
  case (Cons x rs)
  show ?case
  proof (cases "ID x = u")
    case True
    with Cons.prems have "filter (\<lambda>r. ID r = u \<and> Q r) rs = []"
      by (auto simp: filter_empty_conv image_iff)
    with True show ?thesis by simp
  qed (use Cons in simp)
qed

lemma rows_with_ID:
  assumes "db_wf P d"
  shows "filter (\<lambda>r. ID r = u \<and> Q r) (files d) =
     (case get_row d u of None \<Rightarrow> [] | Some r \<Rightarrow> if Q r then [r] else [])"
  using assms filter_ID_distinct [of "files d" u Q] by (simp add: get_row_def db_wf_def)

lemma get_row_canonical:
  "db_wf P d \<Longrightarrow> get_row d u = Some r \<Longrightarrow> pgUUID P u = Some u"
  by (auto simp: db_wf_def dest!: get_row_ID)

subsection \<open>Every statement keeps the schema's invariant\<close>

lemma db_wf_map_files:
  assumes "db_wf P d" and "\<And>r. ID (g r) = ID r" and "\<And>r. ObjectKey (g r) = ObjectKey r"
    and "\<And>r. r \<in> set (files d) \<Longrightarrow> file_row_ok r \<Longrightarrow> file_row_ok (g r)"
    and "\<And>r. pgTime P (CreatedAt r) = CreatedAt r \<Longrightarrow> pgTime P (UpdatedAt r) = UpdatedAt r \<Longrightarrow>
           pgTime P (CreatedAt (g r)) = CreatedAt (g r) \<and> pgTime P (UpdatedAt (g r)) = UpdatedAt (g r)"
  shows "db_wf P (d\<lparr>files := map g (files d)\<rparr>)"
proof -
  have "map ID (map g (files d)) = map ID (files d)"
    "map ObjectKey (map g (files d)) = map ObjectKey (files d)"
    using assms(2,3) by simp_all
  moreover have "ID ` set (map g (files d)) = ID ` set (files d)"
    using assms(2) by (simp add: image_image)
  ultimately show ?thesis
    using assms unfolding db_wf_def by (simp del: map_map)
qed

lemma db_wf_insert:
  assumes "engine_ok P" and "db_wf P d"
  shows "db_wf P (snd (sql_insert_file P f d))"
proof (cases "pgUUID P (ID f)")
  case None
  with assms show ?thesis by (simp add: sql_insert_file_def)
next
  case (Some u)
  then have "pgUUID P u = Some u" using assms(1) by (simp add: engine_ok_def)
  then show ?thesis
    using assms Some unfolding sql_insert_file_def
    by (auto simp: Let_def db_wf_def engine_ok_def)
qed

lemma db_wf_confirm:
  assumes "engine_ok P" and "db_wf P d"
  shows "db_wf P (snd (sql_confirm P i c t d))"
  using assms unfolding sql_confirm_def
  by (auto simp: Let_def engine_ok_def confirm_row_def file_row_ok_def text_ok_def
      split: option.split intro!: db_wf_map_files)

lemma db_wf_soft_delete:
  assumes "engine_ok P" and "db_wf P d"
  shows "db_wf P (snd (sql_soft_delete P i t d))"
  using assms unfolding sql_soft_delete_def
  by (auto simp: Let_def engine_ok_def delete_row_def file_row_ok_def text_ok_def
      split: option.split intro!: db_wf_map_files)

lemma db_wf_upsert_part:
  assumes "engine_ok P" and "db_wf P d"
  shows "db_wf P (snd (sql_upsert_part P i part d))"
proof (cases "pgUUID P i")
  case None
  with assms show ?thesis by (simp add: sql_upsert_part_def)
next
  case (Some u)
  let ?p = "\<lparr>pr_file_id = u, pr_part = part\<lparr>UploadedAt := pgTime P (UploadedAt part)\<rparr>\<rparr>"
  let ?hit = "part_hit u (PartNumber part)"
  let ?key = "\<lambda>p. (pr_file_id p, PartNumber (pr_part p))"
  have keys: "map ?key (map (\<lambda>q. if ?hit q then ?p else q) qs) = map ?key qs" for qs
    by (induction qs) (auto simp: part_hit_def)
  have fk: "u \<in> ID ` set (files d)" if "q \<in> set (upload_parts d)" "?hit q" for q
    using that assms(2) by (auto simp: db_wf_def part_hit_def)
  have t: "pgTime P (UploadedAt (pr_part ?p)) = UploadedAt (pr_part ?p)"
    using assms(1) by (simp add: engine_ok_def)
  consider "\<not> part_row_ok ?p" | "part_row_ok ?p" "\<exists>q \<in> set (upload_parts d). ?hit q"
    | "part_row_ok ?p" "\<not> (\<exists>q \<in> set (upload_parts d). ?hit q)" by blast
  then show ?thesis
  proof cases
    case 2
    then have "snd (sql_upsert_part P i part d) =
        d\<lparr>upload_parts := map (\<lambda>q. if ?hit q then ?p else q) (upload_parts d)\<rparr>"
      using Some by (simp add: sql_upsert_part_def Let_def)
    then show ?thesis
      using assms(2) 2(1) fk t unfolding db_wf_def by (auto simp del: map_map simp: keys)
  next
    case 3
    then show ?thesis
      using Some assms(2) t
      by (auto simp: sql_upsert_part_def Let_def db_wf_def part_hit_def)
  qed (use Some assms in \<open>simp add: sql_upsert_part_def Let_def\<close>)
qed

lemma db_wf_delete_parts:
  "db_wf P d \<Longrightarrow> db_wf P (snd (sql_delete_parts P i d))"
  by (auto simp: sql_delete_parts_def db_wf_def split: option.split
      intro!: distinct_map_filter)

lemma snd_queries [simp]:
  "snd (sql_select_file P i d) = d" "snd (sql_select_page P o' ct ci n d) = d"
  "snd (sql_select_parts P i d) = d"
  by (auto simp: sql_defs split: option.split)

lemmas db_wf_intros = db_wf_insert db_wf_confirm db_wf_soft_delete db_wf_upsert_part
  db_wf_delete_parts

subsection \<open>The life cycle of a row\<close>

text \<open>
  The rank of a status; a step of a row keeps its identity and its immutable columns, moves
  the rank up, and never changes the checksum of a file that is ready.
\<close>

definition status_rank :: "FileStatus \<Rightarrow> nat" where
  "status_rank s = (if s = FileStatusPending then 0 else if s = FileStatusReady then 1 else 2)"

definition same_file :: "FileMetadata \<Rightarrow> FileMetadata \<Rightarrow> bool" where
  "same_file r r' \<longleftrightarrow> ID r' = ID r \<and> OwnerID r' = OwnerID r \<and> Bucket r' = Bucket r \<and>
     ObjectKey r' = ObjectKey r \<and> OriginalName r' = OriginalName r \<and>
     ContentType r' = ContentType r \<and> SizeBytes r' = SizeBytes r \<and> CreatedAt r' = CreatedAt r"

definition row_le :: "FileMetadata \<Rightarrow> FileMetadata \<Rightarrow> bool" where
  "row_le r r' \<longleftrightarrow> r' = r \<or>
     same_file r r' \<and> status_rank (Status r) < status_rank (Status r') \<and>
     (Status r = FileStatusReady \<longrightarrow> ChecksumSHA256 r' = ChecksumSHA256 r)"

definition db_le :: "pgdb \<Rightarrow> pgdb \<Rightarrow> bool" where
  "db_le d d' \<longleftrightarrow> (\<forall>u r. get_row d u = Some r \<longrightarrow> (\<exists>r'. get_row d' u = Some r' \<and> row_le r r'))"

lemma row_le_refl [simp]: "row_le r r" by (simp add: row_le_def)

lemma row_le_trans: "row_le a b \<Longrightarrow> row_le b c \<Longrightarrow> row_le a c"
  by (auto simp: row_le_def same_file_def status_rank_def split: if_splits)

lemma row_le_owner: "row_le r r' \<Longrightarrow> OwnerID r' = OwnerID r"
  by (auto simp: row_le_def same_file_def)

lemma row_le_deleted: "row_le r r' \<Longrightarrow> Status r = FileStatusDeleted \<Longrightarrow> r' = r"
  by (auto simp: row_le_def status_rank_def split: if_splits)

lemma db_le_refl [simp]: "db_le d d" by (simp add: db_le_def)

lemma db_le_trans: "db_le a b \<Longrightarrow> db_le b c \<Longrightarrow> db_le a c"
  unfolding db_le_def by (meson row_le_trans)

lemma db_le_map:
  assumes "\<And>r. ID (g r) = ID r" and "\<And>r. row_le r (g r)"
  shows "db_le d (d\<lparr>files := map g (files d)\<rparr>)"
  unfolding db_le_def using assms by (simp add: get_row_map)

lemma row_le_confirm: "Status r = FileStatusPending \<Longrightarrow> row_le r (confirm_row P c t r)"
  by (auto simp: row_le_def same_file_def confirm_row_def status_rank_def)

lemma row_le_delete:
  "Status r \<noteq> FileStatusDeleted \<Longrightarrow> file_row_ok r \<Longrightarrow> row_le r (delete_row P t r)"
  by (auto simp: row_le_def same_file_def delete_row_def status_rank_def file_row_ok_def)

lemma db_le_insert: "db_le d (snd (sql_insert_file P f d))"
  by (auto simp: sql_insert_file_def db_le_def Let_def get_row_append split: option.split)

lemma db_le_confirm: "db_le d (snd (sql_confirm P i c t d))"
  by (auto simp: sql_confirm_def Let_def split: option.split intro!: db_le_map row_le_confirm)

lemma db_le_parts [simp]:
  "db_le d (snd (sql_upsert_part P i part d))" "db_le d (snd (sql_delete_parts P i d))"
  by (auto simp: sql_upsert_part_def sql_delete_parts_def db_le_def Let_def split: option.split)

lemma db_le_soft_delete:
  assumes "db_wf P d"
  shows "db_le d (snd (sql_soft_delete P i t d))"
proof -
  have "row_le r (if ID r = u \<and> Status r \<noteq> FileStatusDeleted then delete_row P t r else r)"
    if "get_row d v = Some r" for r u v
    using that assms by (auto simp: db_wf_def dest!: get_row_ID intro!: row_le_delete)
  then show ?thesis
    by (auto simp: sql_soft_delete_def db_le_def Let_def get_row_map split: option.split)
qed

lemmas db_le_intros = db_le_refl db_le_insert db_le_confirm db_le_parts db_le_soft_delete

subsection \<open>What a successful statement returns\<close>

lemma sql_select_file_Inr:
  assumes "db_wf P d" and "sql_select_file P i d = (Inr rows, d')"
  shows "\<exists>u. pgUUID P i = Some u \<and> rows = (case get_row d u of None \<Rightarrow> [] | Some r \<Rightarrow> [r])"
proof -
  from assms(2) obtain u where u: "pgUUID P i = Some u" "rows = filter (\<lambda>r. ID r = u) (files d)"
    by (auto simp: sql_select_file_def split: option.splits)
  moreover have "filter (\<lambda>r. ID r = u) (files d) = (case get_row d u of None \<Rightarrow> [] | Some r \<Rightarrow> [r])"
    using rows_with_ID [OF assms(1), of u "\<lambda>_. True"] by (simp cong: option.case_cong)
  ultimately show ?thesis by blast
qed

lemma sql_insert_file_Inr:
  assumes "sql_insert_file P f d = (Inr n, d')" and "pgUUID P (ID f) = Some u"
  shows "get_row d u = None \<and> get_row d' u =
    Some (f\<lparr>ID := u, CreatedAt := pgTime P (CreatedAt f), UpdatedAt := pgTime P (UpdatedAt f)\<rparr>)"
proof -
  let ?r = "f\<lparr>ID := u, CreatedAt := pgTime P (CreatedAt f), UpdatedAt := pgTime P (UpdatedAt f)\<rparr>"
  from assms have d': "d' = d\<lparr>files := files d @ [?r]\<rparr>" and n: "\<forall>x \<in> set (files d). ID x \<noteq> u"
    by (auto simp: sql_insert_file_def Let_def split: if_splits)
  from n have "get_row d u = None" by (simp add: get_row_None_iff)
  then show ?thesis unfolding d' by (simp add: get_row_append)
qed

definition confirmed_row :: "pg_engine \<Rightarrow> string \<Rightarrow> time \<Rightarrow> string \<Rightarrow> FileMetadata \<Rightarrow> FileMetadata" where
  "confirmed_row P c t u r =
     (if ID r = u \<and> Status r = FileStatusPending then confirm_row P c t r else r)"

lemma sql_confirm_Inr:
  assumes "db_wf P d" and "sql_confirm P i c t d = (Inr rows, d')"
  shows "\<exists>u. pgUUID P i = Some u \<and>
    rows = (case get_row d u of None \<Rightarrow> []
            | Some r \<Rightarrow> if Status r = FileStatusPending then [confirm_row P c t r] else []) \<and>
    (\<forall>v. get_row d' v = map_option (confirmed_row P c t u) (get_row d v))"
proof -
  from assms(2) obtain u where u: "pgUUID P i = Some u"
    and rows: "rows = map (confirm_row P c t) (filter (\<lambda>r. ID r = u \<and> Status r = FileStatusPending) (files d))"
    and d': "d' = d\<lparr>files := map (confirmed_row P c t u) (files d)\<rparr>"
    by (auto simp: sql_confirm_def Let_def confirmed_row_def [abs_def] split: option.splits if_splits)
  have "get_row d' v = map_option (confirmed_row P c t u) (get_row d v)" for v
    unfolding d' by (rule get_row_map) (simp add: confirmed_row_def)
  moreover have "rows = (case get_row d u of None \<Rightarrow> []
      | Some r \<Rightarrow> if Status r = FileStatusPending then [confirm_row P c t r] else [])"
    unfolding rows rows_with_ID [OF assms(1)] by (simp split: option.split)
  ultimately show ?thesis using u by blast
qed

definition deleted_row :: "pg_engine \<Rightarrow> time \<Rightarrow> string \<Rightarrow> FileMetadata \<Rightarrow> FileMetadata" where
  "deleted_row P t u r =
     (if ID r = u \<and> Status r \<noteq> FileStatusDeleted then delete_row P t r else r)"

lemma sql_soft_delete_Inr:
  assumes "db_wf P d" and "sql_soft_delete P i t d = (Inr n, d')"
  shows "\<exists>u. pgUUID P i = Some u \<and>
    n = (case get_row d u of None \<Rightarrow> 0
         | Some r \<Rightarrow> if Status r \<noteq> FileStatusDeleted then 1 else 0) \<and>
    (\<forall>v. get_row d' v = map_option (deleted_row P t u) (get_row d v))"
proof -
  from assms(2) obtain u where u: "pgUUID P i = Some u"
    and n: "n = length (filter (\<lambda>r. ID r = u \<and> Status r \<noteq> FileStatusDeleted) (files d))"
    and d': "d' = d\<lparr>files := map (deleted_row P t u) (files d)\<rparr>"
    by (auto simp: sql_soft_delete_def Let_def deleted_row_def [abs_def] split: option.splits)
  have "get_row d' v = map_option (deleted_row P t u) (get_row d v)" for v
    unfolding d' by (rule get_row_map) (simp add: deleted_row_def)
  moreover have "n = (case get_row d u of None \<Rightarrow> 0
      | Some r \<Rightarrow> if Status r \<noteq> FileStatusDeleted then 1 else 0)"
    unfolding n rows_with_ID [OF assms(1)] by (simp split: option.split)
  ultimately show ?thesis using u by blast
qed

end
