(* ===== verification/Effects.thy ===== *)
theory Effects
  imports Postgres_Facts
begin

text \<open>
  The world in which the service runs, the programs that act on it, and their execution.

  A Go function that talks to a server is a program: it returns, panics, or makes one atomic
  step on the shared world and goes on with the rest. One step is one statement, command or
  request to one server, so two requests that run in two goroutines can interleave between any
  two of them. What the servers, the clock and the generator of identifiers answer is not under
  \<open>src\<close>: it is the parameter \<open>env\<close>, which may answer differently at every tick.
\<close>

subsection \<open>Servers\<close>

text \<open>
  A call to a server works, fails before it had an effect, or has its effect and still reports
  an error (a connection lost before the answer arrived).
\<close>

datatype fault = NoFault | FaultBefore string | FaultAfter string

text \<open>The values of \<open>encoding/json\<close>; a \<open>time.Time\<close> is the RFC 3339 text of its instant.\<close>

datatype json = JStr string | JNum int | JTime time | JObj "(string \<times> json) list"

record kafka_msg =
  MsgKey :: string
  MsgValue :: json
  MsgTime :: time

datatype minio_req =
    PresignedPutObject string string duration
  | PresignedGetObject string string duration
  | PresignReq string string string duration "(string \<times> string) list"
  | RemoveObjectReq string string
  | NewMultipartUpload string string string
  | CompleteMultipartReq string string string "(int \<times> string) list"
  | AbortMultipartReq string string string
  | BucketExists string
  | MakeBucket string

text \<open>
  What the process asks of its libraries and of the operating system while it starts, runs and
  stops: the construction and the closing of clients, the two servers, and which channel of a
  \<open>select\<close> is ready first.
\<close>

datatype sys_call =
    PgxParseConfig string
  | PgxNewPool string
  | PgxPing
  | PgxClose
  | MinioNew string string string bool
  | RedisNewClient string string int
  | RedisPing
  | KafkaNewWriter "string list" string
  | KafkaClose
  | LoadX509KeyPair string string
  | GrpcNewServer bool
  | RegisterReflection
  | SetServing bool
  | MetricsListen string
  | NetListen string
  | GrpcServe
  | SelectDone
  | GracefulStop
  | SelectStopped duration
  | GrpcStop
  | MetricsShutdown
  | HttpGet string

datatype log_entry =
    AuditLog string "(string \<times> string) list"
  | AppLog string "(string \<times> string) list"
  | RequestLog string string int
  | PanicLog string string
  | RequestCount string string
  | RequestLatency string duration

text \<open>A \<open>float64\<close> is its bit pattern; nothing here computes with it.\<close>

type_synonym float64 = "64 word"

record env =
  pg :: pg_engine
  pgFault :: "nat \<Rightarrow> fault"
  redisFault :: "nat \<Rightarrow> fault"
  redisGone :: "nat \<Rightarrow> bool"
  kafkaFault :: "nat \<Rightarrow> fault"
  minioReply :: "nat \<Rightarrow> minio_req \<Rightarrow> string + string"
  sysReply :: "nat \<Rightarrow> sys_call \<Rightarrow> string + string"
  clock :: "nat \<Rightarrow> time"
  uuids :: "nat \<Rightarrow> string"
  uuidParse :: "string \<Rightarrow> string option"
  jwtParse :: "nat \<Rightarrow> string \<Rightarrow> (string \<Rightarrow> err + string) \<Rightarrow> string \<Rightarrow> string \<Rightarrow> (string \<times> string) option"
  rateAllow :: "float64 \<Rightarrow> int \<Rightarrow> nat list \<Rightarrow> nat \<Rightarrow> bool"
  goTurn :: "nat \<Rightarrow> bool"

text \<open>
  \<open>redisGone n\<close>: at tick \<open>n\<close> the key asked for has expired or was evicted. \<open>minioReply\<close>
  gives the error text, or the URL, upload identifier or boolean that the request returns.
  \<open>sysReply\<close> does so for the calls of the process.
  \<open>uuidParse\<close> is \<open>uuid.Parse\<close>, which returns the canonical text of what it accepts. A
  Redis entry is stored with its time to live; when it goes is up to \<open>redisGone\<close>.
  \<open>jwtParse n token keyFor issuer audience\<close> is \<open>jwt.ParseWithClaims\<close> at tick \<open>n\<close>: the
  claims \<open>owner_id\<close> and \<open>sub\<close> of a valid token, where \<open>keyFor\<close> gives the key for
  the signing method that the token names. \<open>rateAllow rate burst asked n\<close> is
  \<open>rate.Limiter.Allow\<close> for a limiter that was asked at the ticks \<open>asked\<close> before.
  \<open>goTurn n\<close>: at tick \<open>n\<close> the scheduler lets the goroutine go on that the process has
  started, and not the code that started it.
\<close>

text \<open>\<open>trace\<close> lists the calls of the process, each with whether it succeeded.\<close>

record world =
  db :: pgdb
  redis :: "string \<Rightarrow> (json \<times> duration) option"
  kafka :: "kafka_msg list"
  minio :: "minio_req list"
  logs :: "log_entry list"
  trace :: "(sys_call \<times> bool) list"
  limits :: "string \<Rightarrow> nat list option"
  tick :: nat

subsection \<open>Programs\<close>

datatype 'a prog =
    Return 'a
  | Panic string
  | Step "env \<Rightarrow> world \<Rightarrow> 'a prog \<times> world"

datatype 'a outcome = Value 'a | Panicked string

primrec bindP :: "'a prog \<Rightarrow> ('a \<Rightarrow> 'b prog) \<Rightarrow> 'b prog" where
  "bindP (Return x) k = k x"
| "bindP (Panic s) k = Panic s"
| "bindP (Step f) k = Step (\<lambda>E w. map_prod (\<lambda>p. bindP p k) id (f E w))"

text \<open>
  \<open>tryE m k\<close>: \<open>x, err := m; if err != nil { return err }\<close>, then \<open>k x\<close>;
  \<open>guardE e p\<close>: \<open>if err := e; err != nil { return err }\<close>, then \<open>p\<close>;
  \<open>discard m p\<close>: \<open>_ = m\<close>, then \<open>p\<close>.
\<close>

definition tryE :: "('e + 'a) prog \<Rightarrow> ('a \<Rightarrow> ('e + 'b) prog) \<Rightarrow> ('e + 'b) prog" where
  "tryE m k = bindP m (\<lambda>r. case r of Inl e \<Rightarrow> Return (Inl e) | Inr x \<Rightarrow> k x)"

text \<open>An index or a slice expression; out of range it panics.\<close>

definition boundedP :: "'a option \<Rightarrow> ('a \<Rightarrow> 'b prog) \<Rightarrow> 'b prog" where
  "boundedP x k = (case x of None \<Rightarrow> Panic ''index out of range'' | Some y \<Rightarrow> k y)"

definition guardE :: "'e option \<Rightarrow> ('e + 'b) prog \<Rightarrow> ('e + 'b) prog" where
  "guardE e p = (case e of Some x \<Rightarrow> Return (Inl x) | None \<Rightarrow> p)"

definition discard :: "'a prog \<Rightarrow> 'b prog \<Rightarrow> 'b prog" where
  "discard m p = bindP m (\<lambda>_. p)"

text \<open>\<open>defer func() { if r := recover(); ... }()\<close> around a call.\<close>

primrec recover :: "'a prog \<Rightarrow> (string \<Rightarrow> 'a prog) \<Rightarrow> 'a prog" where
  "recover (Return x) h = Return x"
| "recover (Panic s) h = h s"
| "recover (Step f) h = Step (\<lambda>E w. map_prod (\<lambda>p. recover p h) id (f E w))"

text \<open>
  \<open>goP p q\<close> is \<open>go p\<close> followed by \<open>q\<close>: the steps of the goroutine come between those
  of \<open>q\<close> as the scheduler wants, and when \<open>q\<close> returns, the result is given back with what
  the goroutine still has to do. A panic of either ends both.
\<close>

primrec weaveP :: "unit prog \<Rightarrow> (env \<Rightarrow> world \<Rightarrow> ('a prog \<Rightarrow> ('a \<times> unit prog) prog) \<times> world) \<Rightarrow>
    'a prog \<Rightarrow> ('a \<times> unit prog) prog" where
  "weaveP p F (Return x) = Return (x, p)"
| "weaveP p F (Panic s) = Panic s"
| "weaveP p F (Step g) = Step (\<lambda>E w. if goTurn E (tick w)
     then (case F E w of (h, v) \<Rightarrow> (h (Step g), v))
     else map_prod (\<lambda>q. weaveP p F q) id (g E w))"

primrec goP :: "unit prog \<Rightarrow> 'a prog \<Rightarrow> ('a \<times> unit prog) prog" where
  "goP (Return u) = (\<lambda>q. bindP q (\<lambda>x. Return (x, Return u)))"
| "goP (Panic s) = (\<lambda>q. Panic s)"
| "goP (Step f) = weaveP (Step f) (\<lambda>E w. map_prod (\<lambda>p. goP p) id (f E w))"

text \<open>The execution of a program on its own.\<close>

primrec run :: "'a prog \<Rightarrow> env \<Rightarrow> world \<Rightarrow> 'a outcome \<times> world" where
  "run (Return x) = (\<lambda>E w. (Value x, w))"
| "run (Panic s) = (\<lambda>E w. (Panicked s, w))"
| "run (Step f) = (\<lambda>E w. case map_prod (\<lambda>p. run p) id (f E w) of (g, w') \<Rightarrow> g E w')"

definition result :: "'a prog \<Rightarrow> env \<Rightarrow> world \<Rightarrow> 'a outcome" where
  "result p E w = fst (run p E w)"

definition after :: "'a prog \<Rightarrow> env \<Rightarrow> world \<Rightarrow> world" where
  "after p E w = snd (run p E w)"

subsection \<open>Atomic steps\<close>

text \<open>A pure function of a third-party package.\<close>

definition ask :: "(env \<Rightarrow> 'a) \<Rightarrow> 'a prog" where
  "ask f = Step (\<lambda>E w. (Return (f E), w))"

definition atomic :: "(env \<Rightarrow> world \<Rightarrow> 'a \<times> world) \<Rightarrow> 'a prog" where
  "atomic act = Step (\<lambda>E w. map_prod Return (\<lambda>v. v\<lparr>tick := Suc (tick w)\<rparr>) (act E w))"

definition faulty :: "fault \<Rightarrow> (err + 'a) \<Rightarrow> (err + 'a)" where
  "faulty f r = (case f of NoFault \<Rightarrow> r | FaultBefore s \<Rightarrow> Inl (External s)
     | FaultAfter s \<Rightarrow> Inl (External s))"

definition takes_effect :: "fault \<Rightarrow> bool" where
  "takes_effect f \<longleftrightarrow> (case f of FaultBefore _ \<Rightarrow> False | _ \<Rightarrow> True)"

lemma takes_effect_simps [simp]:
  "takes_effect NoFault" "takes_effect (FaultAfter s)" "\<not> takes_effect (FaultBefore s)"
  by (simp_all add: takes_effect_def)

text \<open>One statement sent through the pool: it commits on its own.\<close>

definition sql_act ::
  "(pg_engine \<Rightarrow> pgdb \<Rightarrow> (err + 'a) \<times> pgdb) \<Rightarrow> env \<Rightarrow> world \<Rightarrow> (err + 'a) \<times> world" where
  "sql_act st E w =
     (let f = pgFault E (tick w); (r, d) = st (pg E) (db w)
      in (faulty f r, if takes_effect f then w\<lparr>db := d\<rparr> else w))"

definition sql :: "(pg_engine \<Rightarrow> pgdb \<Rightarrow> (err + 'a) \<times> pgdb) \<Rightarrow> (err + 'a) prog" where
  "sql st = atomic (sql_act st)"

definition redis_get :: "string \<Rightarrow> (err + json option) prog" where
  "redis_get key = atomic (\<lambda>E w.
     (faulty (redisFault E (tick w)) (Inr (if redisGone E (tick w) then None else map_option fst (redis w key))), w))"

definition redis_write :: "string \<Rightarrow> (json \<times> duration) option \<Rightarrow> (err + unit) prog" where
  "redis_write key v = atomic (\<lambda>E w.
     (faulty (redisFault E (tick w)) (Inr ()),
      if takes_effect (redisFault E (tick w)) then w\<lparr>redis := (redis w)(key := v)\<rparr> else w))"

definition kafka_write :: "kafka_msg \<Rightarrow> (err + unit) prog" where
  "kafka_write m = atomic (\<lambda>E w.
     (faulty (kafkaFault E (tick w)) (Inr ()),
      if takes_effect (kafkaFault E (tick w)) then w\<lparr>kafka := kafka w @ [m]\<rparr> else w))"

definition minio_call :: "minio_req \<Rightarrow> (err + string) prog" where
  "minio_call q = atomic (\<lambda>E w.
     (case minioReply E (tick w) q of Inl s \<Rightarrow> Inl (External s) | Inr s \<Rightarrow> Inr s,
      w\<lparr>minio := minio w @ [q]\<rparr>))"

definition sys :: "sys_call \<Rightarrow> (err + string) prog" where
  "sys q = atomic (\<lambda>E w.
     (case sysReply E (tick w) q of Inl s \<Rightarrow> Inl (External s) | Inr s \<Rightarrow> Inr s,
      w\<lparr>trace := trace w @ [(q, \<not> isl (sysReply E (tick w) q))]\<rparr>))"

definition time_Now :: "time prog" where
  "time_Now = atomic (\<lambda>E w. (clock E (tick w), w))"

definition uuid_NewString :: "string prog" where
  "uuid_NewString = atomic (\<lambda>E w. (uuids E (tick w), w))"

definition emit :: "log_entry \<Rightarrow> unit prog" where
  "emit l = atomic (\<lambda>E w. ((), w\<lparr>logs := logs w @ [l]\<rparr>))"

lemmas [step_defs] = sql_def redis_get_def redis_write_def kafka_write_def minio_call_def
  sys_def time_Now_def uuid_NewString_def emit_def

subsection \<open>Induction and laws\<close>

lemma prog_induct [case_names Return Panic Step]:
  assumes "\<And>x. P (Return x)" and "\<And>s. P (Panic s)"
    and "\<And>f. (\<And>E w. P (fst (f E w))) \<Longrightarrow> P (Step f)"
  shows "P p"
proof (induction p rule: prog.induct)
  case (Step f)
  have "P (fst (f E w))" for E w
    by (rule Step [of "f E" "f E w" "fst (f E w)"]) (auto simp: prod_set_defs)
  then show ?case by (rule assms(3))
qed (rule assms(1,2))+

lemma bind_Return_right [simp]: "bindP p Return = p"
  by (induction p rule: prog_induct) (auto simp: map_prod_def split_beta fun_eq_iff)

lemma bind_assoc: "bindP (bindP p k) h = bindP p (\<lambda>x. bindP (k x) h)"
  by (induction p rule: prog_induct) (auto simp: map_prod_def split_beta fun_eq_iff)

lemma run_Step: "run (Step f) E w = run (fst (f E w)) E (snd (f E w))"
  by (simp add: map_prod_def split_beta)

lemma run_bind:
  "run (bindP p k) E w =
     (case run p E w of (Value x, w') \<Rightarrow> run (k x) E w' | (Panicked s, w') \<Rightarrow> (Panicked s, w'))"
  by (induction p arbitrary: w rule: prog_induct) (simp_all add: map_prod_def split_beta)

lemma run_recover:
  "run (recover p h) E w =
     (case run p E w of (Value x, w') \<Rightarrow> (Value x, w') | (Panicked s, w') \<Rightarrow> run (h s) E w')"
  by (induction p arbitrary: w rule: prog_induct) (simp_all add: map_prod_def split_beta)

lemma run_atomic:
  "run (atomic act) E w = (Value (fst (act E w)), (snd (act E w))\<lparr>tick := Suc (tick w)\<rparr>)"
  by (simp add: atomic_def map_prod_def split_beta)

lemma run_ask: "run (ask f) E w = (Value (f E), w)"
  by (simp add: ask_def)

lemma run_atomic_bind:
  "run (bindP (atomic act) k) E w =
     run (k (fst (act E w))) E ((snd (act E w))\<lparr>tick := Suc (tick w)\<rparr>)"
  by (simp add: run_bind run_atomic)

lemma run_tryE:
  "run (tryE m k) E w =
     (case run m E w of
        (Value (Inl e), w') \<Rightarrow> (Value (Inl e), w')
      | (Value (Inr x), w') \<Rightarrow> run (k x) E w'
      | (Panicked s, w') \<Rightarrow> (Panicked s, w'))"
  by (auto simp: tryE_def run_bind split: prod.split outcome.split sum.split)

lemma run_discard:
  "run (discard m p) E w =
     (case run m E w of (Value x, w') \<Rightarrow> run p E w' | (Panicked s, w') \<Rightarrow> (Panicked s, w'))"
  by (simp add: discard_def run_bind)

lemma run_guardE:
  "run (guardE e p) E w = (case e of Some x \<Rightarrow> (Value (Inl x), w) | None \<Rightarrow> run p E w)"
  by (simp add: guardE_def split: option.split)

lemmas [run_simps] = run_bind run_recover run_atomic run_ask run_tryE run_discard run_guardE

end
