(* ===== verification/Concurrency.thy ===== *)
theory Concurrency
  imports Effects
begin

text \<open>
  Requests run in goroutines of their own over one shared world. A configuration is the list of
  the programs still to run and the world; a step runs one atomic step of one of them. The
  locale \<open>interference\<close> holds the proof rules for one program beside others, its extension
  \<open>rely_guarantee\<close> the theorem that carries them over to every interleaving.
\<close>

subsection \<open>Interleaved execution\<close>

inductive sched :: "env \<Rightarrow> 'a prog list \<times> world \<Rightarrow> 'a prog list \<times> world \<Rightarrow> bool" for E where
  turn: "i < length ps \<Longrightarrow> ps ! i = Step f \<Longrightarrow>
    sched E (ps, w) (ps[i := fst (f E w)], snd (f E w))"

inductive_cases sched_cases: "sched E (ps, w) (qs, v)"

text \<open>\<open>interleaved E c c'\<close>: some schedule leads from \<open>c\<close> to \<open>c'\<close>.\<close>

definition interleaved :: "env \<Rightarrow> 'a prog list \<times> world \<Rightarrow> 'a prog list \<times> world \<Rightarrow> bool" where
  "interleaved E = (sched E)\<^sup>*\<^sup>*"

text \<open>Running a single program to its end is one of the schedules.\<close>

lemma sched_single: "sched E ([Step f], w) ([fst (f E w)], snd (f E w))"
  using sched.turn [of 0 "[Step f]" f E w] by simp

lemma run_interleaved:
  "\<exists>q. interleaved E ([p], w) ([q], snd (run p E w)) \<and>
     (case fst (run p E w) of Value x \<Rightarrow> q = Return x | Panicked s \<Rightarrow> q = Panic s)"
proof (induction p arbitrary: w rule: prog_induct)
  case (Step f)
  obtain q where q: "interleaved E ([fst (f E w)], snd (f E w)) ([q], snd (run (Step f) E w))"
    and r: "case fst (run (Step f) E w) of Value x \<Rightarrow> q = Return x | Panicked s \<Rightarrow> q = Panic s"
    using Step.IH [of E w "snd (f E w)"] unfolding run_Step by blast
  have "interleaved E ([Step f], w) ([q], snd (run (Step f) E w))"
    using q sched_single [of E f w] unfolding interleaved_def
    by (meson converse_rtranclp_into_rtranclp)
  with r show ?case by blast
qed (auto simp: interleaved_def)

subsection \<open>A program under interference\<close>

text \<open>
  \<open>rg p E R G Q w\<close>: started in \<open>w\<close>, while others change the world within \<open>R\<close> between
  its steps, every step of \<open>p\<close> is within \<open>G\<close>, and if \<open>p\<close> returns \<open>x\<close> then \<open>Q x\<close>
  holds from then on.
\<close>

primrec rg :: "'a prog \<Rightarrow> env \<Rightarrow> (world \<Rightarrow> world \<Rightarrow> bool) \<Rightarrow> (world \<Rightarrow> world \<Rightarrow> bool) \<Rightarrow>
    ('a \<Rightarrow> world \<Rightarrow> bool) \<Rightarrow> world \<Rightarrow> bool" where
  "rg (Return x) = (\<lambda>E R G Q w. \<forall>v. R w v \<longrightarrow> Q x v)"
| "rg (Panic s) = (\<lambda>E R G Q w. True)"
| "rg (Step f) = (\<lambda>E R G Q w. \<forall>v. R w v \<longrightarrow>
     (case map_prod (\<lambda>p. rg p) id (f E v) of (g, v') \<Rightarrow> G v v' \<and> g E R G Q v'))"

lemma rg_Step:
  "rg (Step f) E R G Q w \<longleftrightarrow>
     (\<forall>v. R w v \<longrightarrow> G v (snd (f E v)) \<and> rg (fst (f E v)) E R G Q (snd (f E v)))"
  by (simp add: map_prod_def split_beta)

declare rg.simps(3) [simp del]

text \<open>
  \<open>returns p P\<close>: whatever the world and the servers do between the steps of \<open>p\<close>, a
  value that it returns satisfies \<open>P\<close>.
\<close>

primrec returns :: "'a prog \<Rightarrow> ('a \<Rightarrow> bool) \<Rightarrow> bool" where
  "returns (Return x) = (\<lambda>P. P x)"
| "returns (Panic s) = (\<lambda>P. True)"
| "returns (Step f) = (\<lambda>P. \<forall>E w. fst (map_prod (\<lambda>p. returns p) id (f E w)) P)"

lemma returns_Step [simp]: "returns (Step f) P \<longleftrightarrow> (\<forall>E w. returns (fst (f E w)) P)"
  by (simp add: map_prod_def split_beta)

declare returns.simps(3) [simp del]

lemma returns_bind: "returns p (\<lambda>x. returns (k x) Q) \<Longrightarrow> returns (bindP p k) Q"
  by (induction p rule: prog_induct) (simp_all add: map_prod_def split_beta)

lemma returns_True [simp]: "returns p (\<lambda>_. True)"
  by (induction p rule: prog_induct) simp_all

lemma returns_mono: "returns p P \<Longrightarrow> (\<And>x. P x \<Longrightarrow> Q x) \<Longrightarrow> returns p Q"
  by (induction p rule: prog_induct) simp_all

lemma returns_tryE:
  assumes "returns m (\<lambda>r. case r of Inl e \<Rightarrow> Q (Inl e) | Inr x \<Rightarrow> returns (k x) Q)"
  shows "returns (tryE m k) Q"
  unfolding tryE_def
  by (rule returns_bind, rule returns_mono [OF assms]) (simp split: sum.splits)

lemma returns_discard: "returns p Q \<Longrightarrow> returns (discard m p) Q"
  unfolding discard_def by (rule returns_bind, rule returns_mono [OF returns_True]) simp

lemma returns_guardE:
  "(\<And>x. e = Some x \<Longrightarrow> Q (Inl x)) \<Longrightarrow> (e = None \<Longrightarrow> returns p Q) \<Longrightarrow> returns (guardE e p) Q"
  by (cases e) (simp_all add: guardE_def)

lemma returns_boundedP: "(\<And>y. x = Some y \<Longrightarrow> returns (k y) Q) \<Longrightarrow> returns (boundedP x k) Q"
  by (simp add: boundedP_def split: option.split)

lemma returns_atomic: "(\<And>E w. Q (fst (act E w))) \<Longrightarrow> returns (atomic act) Q"
  by (simp add: atomic_def map_prod_def split_beta)

lemma returns_sql:
  assumes "\<And>e. Q (Inl e)" and "\<And>P d x. fst (st P d) = Inr x \<Longrightarrow> Q (Inr x)"
  shows "returns (sql st) Q"
proof -
  have "Q (fst (st P d))" for P d using assms by (cases "fst (st P d)") simp_all
  then show ?thesis
    unfolding sql_def using assms(1)
    by (auto intro!: returns_atomic simp: sql_act_def faulty_def split_beta Let_def split: fault.split)
qed

lemma returns_any: "(\<And>x. Q x) \<Longrightarrow> returns p Q"
  by (rule returns_mono [OF returns_True])

lemma returns_bind_any: "(\<And>x. returns (k x) Q) \<Longrightarrow> returns (bindP p k) Q"
  by (rule returns_bind, rule returns_any)

lemma returns_tryE_any:
  "(\<And>e. Q (Inl e)) \<Longrightarrow> (\<And>x. returns (k x) Q) \<Longrightarrow> returns (tryE m k) Q"
  by (rule returns_tryE, rule returns_any) (simp split: sum.split)

lemmas returns_intros = returns_guardE returns_bind_any returns_tryE_any returns_discard

lemma returns_run: "returns p Q \<Longrightarrow> fst (run p E w) = Value x \<Longrightarrow> Q x"
  by (induction p arbitrary: w rule: prog_induct) (auto simp: map_prod_def split_beta)

text \<open>The rules for a program that runs beside others.\<close>

locale interference =
  fixes E :: env and R :: "world \<Rightarrow> world \<Rightarrow> bool" and G :: "world \<Rightarrow> world \<Rightarrow> bool"
  assumes R_refl: "R w w"
    and R_trans: "R u v \<Longrightarrow> R v w \<Longrightarrow> R u w"
begin

lemma rg_stable: "rg p E R G Q w \<Longrightarrow> R w v \<Longrightarrow> rg p E R G Q v"
  by (cases p) (auto simp: rg_Step intro: R_trans)

lemma rg_Return: "(\<And>v. R w v \<Longrightarrow> Q x v) \<Longrightarrow> rg (Return x) E R G Q w"
  by simp

lemma rg_bind:
  "rg p E R G (\<lambda>x v. rg (k x) E R G Q v) w \<Longrightarrow> rg (bindP p k) E R G Q w"
proof (induction p arbitrary: w rule: prog_induct)
  case (Return x)
  then show ?case using R_refl by simp
next
  case (Panic s)
  then show ?case by simp
next
  case (Step f)
  from Step.prems show ?case
    by (auto simp: rg_Step map_prod_def split_beta intro: Step.IH)
qed

lemma rg_conseq:
  "rg p E R G Q w \<Longrightarrow> (\<And>x v. Q x v \<Longrightarrow> Q' x v) \<Longrightarrow> rg p E R G Q' w"
  by (induction p arbitrary: w rule: prog_induct) (auto simp: rg_Step)

lemma rg_tryE:
  assumes "rg m E R G (\<lambda>r v. case r of Inl e \<Rightarrow> \<forall>u. R v u \<longrightarrow> Q (Inl e) u
      | Inr x \<Rightarrow> rg (k x) E R G Q v) w"
  shows "rg (tryE m k) E R G Q w"
  unfolding tryE_def
  by (rule rg_bind, rule rg_conseq [OF assms]) (auto split: sum.splits)

lemma rg_discard:
  "rg m E R G (\<lambda>_ v. rg p E R G Q v) w \<Longrightarrow> rg (discard m p) E R G Q w"
  unfolding discard_def by (rule rg_bind)

lemma rg_guardE:
  "(\<And>x v. e = Some x \<Longrightarrow> R w v \<Longrightarrow> Q (Inl x) v) \<Longrightarrow> (e = None \<Longrightarrow> rg p E R G Q w) \<Longrightarrow>
   rg (guardE e p) E R G Q w"
  by (cases e) (auto simp: guardE_def)

lemma rg_boundedP: "(\<And>y. x = Some y \<Longrightarrow> rg (k y) E R G Q w) \<Longrightarrow> rg (boundedP x k) E R G Q w"
  by (simp add: boundedP_def split: option.split)

lemma rg_atomic:
  assumes "\<And>v. R w v \<Longrightarrow> G v ((snd (act E v))\<lparr>tick := Suc (tick v)\<rparr>)"
    and "\<And>v u. R w v \<Longrightarrow> R ((snd (act E v))\<lparr>tick := Suc (tick v)\<rparr>) u \<Longrightarrow> Q (fst (act E v)) u"
  shows "rg (atomic act) E R G Q w"
  using assms by (simp add: atomic_def rg_Step map_prod_def split_beta)

lemma rg_ask:
  assumes "\<And>v. G v v" and "\<And>v. R w v \<Longrightarrow> Q (f E) v"
  shows "rg (ask f) E R G Q w"
  using assms by (simp add: ask_def rg_Step) (meson R_trans)

lemma rg_recover:
  assumes "rg p E R G Q w" and "\<And>s v. rg (h s) E R G Q v"
  shows "rg (recover p h) E R G Q w"
  using assms(1)
proof (induction p arbitrary: w rule: prog_induct)
  case (Step f)
  then show ?case by (auto simp: rg_Step map_prod_def split_beta)
qed (simp_all add: assms(2))

lemma rg_conj_returns:
  assumes "rg p E R G Q w" and "returns p P"
  shows "rg p E R G (\<lambda>x v. Q x v \<and> P x) w"
  using assms
proof (induction p arbitrary: w rule: prog_induct)
  case (Step f)
  then show ?case by (auto simp: rg_Step)
qed simp_all

end

text \<open>Programs that all run beside each other: what one guarantees, the others may rely on.\<close>

locale rely_guarantee = interference +
  assumes G_within_R: "G v w \<Longrightarrow> R v w"
begin

text \<open>A run without interference.\<close>

lemma rg_run:
  assumes "rg p E R G Q w"
  shows "R w (snd (run p E w)) \<and> (\<forall>x. fst (run p E w) = Value x \<longrightarrow> Q x (snd (run p E w)))"
  using assms
proof (induction p arbitrary: w rule: prog_induct)
  case (Step f)
  then have "G w (snd (f E w))" and "rg (fst (f E w)) E R G Q (snd (f E w))"
    using R_refl by (auto simp: rg_Step)
  with Step.IH show ?case
    using R_trans [OF G_within_R [OF \<open>G w (snd (f E w))\<close>]] by (simp add: map_prod_def split_beta)
qed (simp_all add: R_refl)

text \<open>
  Every interleaving of programs that keep their guarantee keeps it at every step, and leaves
  each of them with what it still has to establish.
\<close>

lemma sched_rg:
  assumes "sched E (ps, w) (qs, v)" and "\<forall>k < length ps. rg (ps ! k) E R G (Q k) w"
  shows "G w v \<and> length qs = length ps \<and> (\<forall>k < length qs. rg (qs ! k) E R G (Q k) v)"
proof -
  from assms(1) obtain i f where i: "i < length ps" "ps ! i = Step f"
    and qs: "qs = ps[i := fst (f E w)]" and v: "v = snd (f E w)"
    by (auto elim: sched_cases)
  have "rg (Step f) E R G (Q i) w" using assms(2) i by metis
  then have g: "G w v" and s: "rg (fst (f E w)) E R G (Q i) v"
    using R_refl by (auto simp: rg_Step v)
  have "R w v" using g by (rule G_within_R)
  then have "rg (qs ! k) E R G (Q k) v" if "k < length qs" for k
    using that assms(2) s unfolding qs by (cases "k = i") (auto intro: rg_stable)
  then show ?thesis using g by (simp add: qs)
qed

lemma interleaved_rg:
  assumes "interleaved E (ps, w) (qs, v)" and "\<forall>k < length ps. rg (ps ! k) E R G (Q k) w"
  shows "G\<^sup>*\<^sup>* w v \<and> length qs = length ps \<and> (\<forall>k < length qs. rg (qs ! k) E R G (Q k) v)"
  using assms(1) unfolding interleaved_def
proof (induction "(qs, v)" arbitrary: qs v rule: rtranclp_induct)
  case base
  then show ?case using assms(2) by simp
next
  case (step y)
  obtain ps' w' where y: "y = (ps', w')" by (cases y)
  note IH = step.hyps(3) [OF y]
  then have "G w' v \<and> length qs = length ps' \<and> (\<forall>k < length qs. rg (qs ! k) E R G (Q k) v)"
    using step.hyps(2) unfolding y by (intro sched_rg) simp_all
  with IH show ?case by (auto intro: rtranclp.rtrancl_into_rtrancl)
qed

text \<open>What a program that has returned in the meantime was to establish holds.\<close>

lemma interleaved_result:
  assumes "interleaved E (ps, w) (qs, v)" and "\<forall>k < length ps. rg (ps ! k) E R G (Q k) w"
    and "k < length ps" and "qs ! k = Return x"
  shows "Q k x v"
proof -
  have "rg (Return x) E R G (Q k) v" using interleaved_rg [OF assms(1,2)] assms(3,4) by metis
  then show ?thesis using R_refl by simp
qed

lemma interleaved_R:
  assumes "interleaved E (ps, w) (qs, v)" and "\<forall>k < length ps. rg (ps ! k) E R G (Q k) w"
  shows "R w v"
proof -
  have "G\<^sup>*\<^sup>* w v" using interleaved_rg [OF assms] by blast
  then show ?thesis
    by (induction rule: rtranclp_induct) (auto intro: R_refl R_trans G_within_R)
qed

end

end
