(* ===== verification/Repository.thy ===== *)
theory Repository
  imports Effects
begin

text \<open>
  \<open>src/internal/repository/postgres/file.go\<close>: the methods of \<open>Repository\<close>, each one
  statement of \<open>Postgres_Sql\<close> with the code around it.
\<close>

text \<open>\<open>QueryRow(...).Scan(...)\<close>: the first row, the query's error, or \<open>ErrNoRows\<close>.\<close>

definition QueryRow_Scan :: "err + 'a list \<Rightarrow> err + 'a" where
  "QueryRow_Scan r =
     (case r of Inl e \<Rightarrow> Inl e | Inr rows \<Rightarrow> (case rows of [] \<Rightarrow> Inl PgxErrNoRows | x # _ \<Rightarrow> Inr x))"

definition scanFile :: "err + FileMetadata \<Rightarrow> err + FileMetadata" where
  "scanFile row =
     (case row of Inl e \<Rightarrow> if e = PgxErrNoRows then Inl ErrNotFound else Inl e | Inr f \<Rightarrow> Inr f)"

definition Create :: "FileMetadata \<Rightarrow> (err + unit) prog" where
  "Create file = bindP (sql (\<lambda>P. sql_insert_file P file)) (\<lambda>r. Return (map_sum id (\<lambda>_. ()) r))"

definition GetByID :: "string \<Rightarrow> (err + FileMetadata) prog" where
  "GetByID i = bindP (sql (\<lambda>P. sql_select_file P i)) (\<lambda>r. Return (scanFile (QueryRow_Scan r)))"

definition Confirm :: "string \<Rightarrow> string \<Rightarrow> (err + FileMetadata) prog" where
  "Confirm i checksum =
     bindP time_Now (\<lambda>now.
     bindP (sql (\<lambda>P. sql_confirm P i checksum now)) (\<lambda>r.
     Return (case scanFile (QueryRow_Scan r) of
        Inl e \<Rightarrow> if e = PgxErrNoRows then Inl ErrNotFound else Inl e
      | Inr file \<Rightarrow> Inr file)))"

definition SaveUploadPart :: "string \<Rightarrow> UploadPart \<Rightarrow> (err + unit) prog" where
  "SaveUploadPart fileID part =
     bindP (sql (\<lambda>P. sql_upsert_part P fileID part)) (\<lambda>r. Return (map_sum id (\<lambda>_. ()) r))"

definition Repo_ListUploadParts :: "string \<Rightarrow> (err + UploadPart list) prog" where
  "Repo_ListUploadParts fileID = sql (\<lambda>P. sql_select_parts P fileID)"

definition DeleteUploadParts :: "string \<Rightarrow> (err + unit) prog" where
  "DeleteUploadParts fileID =
     bindP (sql (\<lambda>P. sql_delete_parts P fileID)) (\<lambda>r. Return (map_sum id (\<lambda>_. ()) r))"

definition SoftDelete :: "string \<Rightarrow> (err + unit) prog" where
  "SoftDelete i =
     bindP time_Now (\<lambda>now.
     tryE (sql (\<lambda>P. sql_soft_delete P i now)) (\<lambda>rowsAffected.
     Return (if rowsAffected = 0 then Inl ErrNotFound else Inr ())))"

subsection \<open>Page tokens\<close>

definition UnixNano :: "time \<Rightarrow> int" where
  "UnixNano t = sint (word_of_int t :: int64)"

definition encodePageToken :: "time \<Rightarrow> string \<Rightarrow> string" where
  "encodePageToken t i = int_to_string (UnixNano t) @ ''|'' @ i"

definition decodePageToken :: "(string \<Rightarrow> string option) \<Rightarrow> string \<Rightarrow> (time \<times> string) option" where
  "decodePageToken parse token =
     (case Sscanf_d_bar_s token of
        None \<Rightarrow> None
      | Some (ns, idStr) \<Rightarrow>
          (case parse idStr of None \<Rightarrow> None | Some i \<Rightarrow> Some (ns, i)))"

definition uuid_Nil :: string where
  "uuid_Nil = ''00000000-0000-0000-0000-000000000000''"

subsection \<open>Listing\<close>

definition clampPageSize :: "int32 \<Rightarrow> int32" where
  "clampPageSize n = (if sint n \<le> 0 \<or> 100 < sint n then 20 else n)"

text \<open>
  The cursor of a request: none for the empty token, else what the token decodes to. A decoded
  time that is Go's zero time would be sent as \<open>NULL\<close>.
\<close>

definition page_cursor ::
  "(string \<Rightarrow> string option) \<Rightarrow> string \<Rightarrow> err + (time option \<times> string)" where
  "page_cursor parse token =
     (if token = [] then Inr (None, uuid_Nil)
      else case decodePageToken parse token of
        None \<Rightarrow> Inl (Wrapf [] ErrInvalidInput '': invalid page token'')
      | Some (t, i) \<Rightarrow> Inr (if t = zero_time then None else Some t, i))"

text \<open>
  What is returned of the rows: one row more than the page size asks for another page.
  \<open>None\<close> is the panic of an index out of range.
\<close>

definition page_result :: "int32 \<Rightarrow> FileMetadata list \<Rightarrow> ListResult option" where
  "page_result pageSize rows =
     (if sint pageSize < int (length rows)
      then (case slice_at rows (sint (pageSize - 1)) of
              None \<Rightarrow> None
            | Some lastFile \<Rightarrow>
                map_option (\<lambda>fs. \<lparr>Files = fs, NextPageToken = encodePageToken (CreatedAt lastFile) (ID lastFile)\<rparr>)
                  (slice_to rows (sint pageSize)))
      else Some \<lparr>Files = rows, NextPageToken = []\<rparr>)"

lemma page_result_eq:
  assumes "1 \<le> sint n"
  shows "page_result n rows = Some (let m = nat (sint n) in
    if m < length rows
    then \<lparr>Files = take m rows, NextPageToken = encodePageToken (CreatedAt (rows ! (m - 1))) (ID (rows ! (m - 1)))\<rparr>
    else \<lparr>Files = rows, NextPageToken = []\<rparr>)"
proof -
  have "sint (n - 1) = sint n - 1"
    using assms sint32_range(2) [of n] sint32_word_of_int [of "sint n - 1"] by (simp flip: wi_hom_sub)
  moreover have "sint n < int (length rows) \<longleftrightarrow> nat (sint n) < length rows" using assms by linarith
  moreover have "nat (sint n - 1) = nat (sint n) - 1" by simp
  ultimately show ?thesis using assms by (auto simp: page_result_def slice_at_def slice_to_def Let_def)
qed

lemma clampPageSize_range: "1 \<le> sint (clampPageSize n) \<and> sint (clampPageSize n) \<le> 100"
  by (simp add: clampPageSize_def)

definition Repo_List :: "ListFilter \<Rightarrow> (err + ListResult) prog" where
  "Repo_List filt =
     (let pageSize = clampPageSize (PageSize filt)
      in tryE (ask (\<lambda>E. page_cursor (uuidParse E) (PageToken filt))) (\<lambda>(cursorTime, cursorID).
         tryE (sql (\<lambda>P. sql_select_page P (FilterOwnerID filt) cursorTime cursorID (pageSize + 1)))
           (\<lambda>rows. boundedP (page_result pageSize rows) (\<lambda>page. Return (Inr page)))))"

end
