(* ===== verification/Redis_Cache.thy ===== *)
theory Redis_Cache
  imports Effects "HOL-Library.Monad_Syntax"
begin

text \<open>
  \<open>src/internal/cache/redis/cache.go\<close>: metadata cached as JSON under \<open>file:\<close> and the
  identifier. The JSON object has the field names of the Go struct, which carries no tags.
  Strings are taken to be valid UTF-8, as the decoder of the requests guarantees; only then is
  the JSON text of a string faithful.
\<close>

record Cache =
  ttl :: duration

subsection \<open>The JSON form of the metadata\<close>

text \<open>A \<open>time.Time\<close> is marshalled only if its year is in the range 0 to 9999.\<close>

definition json_time_ok :: "time \<Rightarrow> bool" where
  "json_time_ok t \<longleftrightarrow> - 62167219200000000000 \<le> t \<and> t < 253402300800000000000"

definition json_Marshal_file :: "FileMetadata \<Rightarrow> err + json" where
  "json_Marshal_file f =
     (if \<not> json_time_ok (CreatedAt f) \<or> \<not> json_time_ok (UpdatedAt f)
      then Inl (External ''json: year outside of range [0,9999]'')
      else Inr (JObj
        [(''ID'', JStr (ID f)), (''OwnerID'', JStr (OwnerID f)), (''Bucket'', JStr (Bucket f)),
         (''ObjectKey'', JStr (ObjectKey f)), (''OriginalName'', JStr (OriginalName f)),
         (''ContentType'', JStr (ContentType f)), (''SizeBytes'', JNum (sint (SizeBytes f))),
         (''ChecksumSHA256'', JStr (ChecksumSHA256 f)), (''Status'', JStr (Status f)),
         (''UploadMode'', JStr (UploadMode f)), (''UploadID'', JStr (UploadID f)),
         (''PartSize'', JNum (sint (PartSize f))), (''CreatedAt'', JTime (CreatedAt f)),
         (''UpdatedAt'', JTime (UpdatedAt f))]))"

text \<open>A missing field keeps its zero value, a value of another kind is an error.\<close>

definition json_string :: "(string \<times> json) list \<Rightarrow> string \<Rightarrow> string option" where
  "json_string kvs k =
     (case map_of kvs k of None \<Rightarrow> Some []
      | Some v \<Rightarrow> (case v of JStr s \<Rightarrow> Some s | _ \<Rightarrow> None))"

definition json_int64 :: "(string \<times> json) list \<Rightarrow> string \<Rightarrow> int64 option" where
  "json_int64 kvs k =
     (case map_of kvs k of None \<Rightarrow> Some 0
      | Some v \<Rightarrow> (case v of
           JNum n \<Rightarrow> if - (2 ^ 63) \<le> n \<and> n < 2 ^ 63 then Some (word_of_int n) else None
         | _ \<Rightarrow> None))"

definition json_time :: "(string \<times> json) list \<Rightarrow> string \<Rightarrow> time option" where
  "json_time kvs k =
     (case map_of kvs k of None \<Rightarrow> Some zero_time
      | Some v \<Rightarrow> (case v of JTime t \<Rightarrow> Some t | _ \<Rightarrow> None))"

definition json_Unmarshal_file :: "json \<Rightarrow> FileMetadata option" where
  "json_Unmarshal_file j =
     (case j of
        JObj kvs \<Rightarrow> do {
          i \<leftarrow> json_string kvs ''ID''; ow \<leftarrow> json_string kvs ''OwnerID'';
          b \<leftarrow> json_string kvs ''Bucket''; key \<leftarrow> json_string kvs ''ObjectKey'';
          nm \<leftarrow> json_string kvs ''OriginalName''; ct \<leftarrow> json_string kvs ''ContentType'';
          sz \<leftarrow> json_int64 kvs ''SizeBytes''; ch \<leftarrow> json_string kvs ''ChecksumSHA256'';
          st \<leftarrow> json_string kvs ''Status''; um \<leftarrow> json_string kvs ''UploadMode'';
          ui \<leftarrow> json_string kvs ''UploadID''; ps \<leftarrow> json_int64 kvs ''PartSize'';
          ca \<leftarrow> json_time kvs ''CreatedAt''; ua \<leftarrow> json_time kvs ''UpdatedAt'';
          Some \<lparr>ID = i, OwnerID = ow, Bucket = b, ObjectKey = key, OriginalName = nm,
            ContentType = ct, SizeBytes = sz, ChecksumSHA256 = ch, Status = st, UploadMode = um,
            UploadID = ui, PartSize = ps, CreatedAt = ca, UpdatedAt = ua\<rparr>
        }
      | _ \<Rightarrow> None)"

subsection \<open>Operations\<close>

definition fileKey :: "string \<Rightarrow> string" where
  "fileKey i = ''file:'' @ i"

definition Cache_GetFile :: "Cache \<Rightarrow> string \<Rightarrow> (err + FileMetadata option) prog" where
  "Cache_GetFile c i =
     bindP (redis_get (fileKey i)) (\<lambda>r.
     Return (case r of
        Inl e \<Rightarrow> Inl (Wrapf ''redis get: '' e [])
      | Inr None \<Rightarrow> Inr None
      | Inr (Some data) \<Rightarrow>
          (case json_Unmarshal_file data of
             None \<Rightarrow> Inl (Wrapf ''unmarshal cache: '' (External ''json'') [])
           | Some file \<Rightarrow> Inr (Some file))))"

definition SetFile :: "Cache \<Rightarrow> FileMetadata \<Rightarrow> (err + unit) prog" where
  "SetFile c file =
     (case json_Marshal_file file of
        Inl e \<Rightarrow> Return (Inl (Wrapf ''marshal cache: '' e []))
      | Inr data \<Rightarrow> redis_write (fileKey (ID file)) (Some (data, ttl c)))"

definition InvalidateFile :: "Cache \<Rightarrow> string \<Rightarrow> (err + unit) prog" where
  "InvalidateFile c i = redis_write (fileKey i) None"

subsection \<open>The cached form gives the metadata back\<close>

lemma json_roundtrip: "json_Marshal_file f = Inr j \<Longrightarrow> json_Unmarshal_file j = Some f"
  using sint64_range [of "SizeBytes f"] sint64_range [of "PartSize f"]
  by (cases f) (auto simp: json_Marshal_file_def json_Unmarshal_file_def json_string_def
      json_int64_def json_time_def split: if_splits)

lemma fileKey_inject [simp]: "fileKey i = fileKey j \<longleftrightarrow> i = j"
  by (simp add: fileKey_def)

text \<open>The entry that a write stores, as \<open>GetFile\<close> reads it back.\<close>

definition cached :: "world \<Rightarrow> string \<Rightarrow> FileMetadata option" where
  "cached w i = Option.bind (redis w (fileKey i)) (\<lambda>(j, _). json_Unmarshal_file j)"

end
