(* ===== verification/Event_Publisher.thy ===== *)
theory Event_Publisher
  imports Redis_Cache
begin

text \<open>
  \<open>src/internal/events/kafka/publisher.go\<close> and \<open>src/internal/service/events.go\<close>: domain
  events written to the Kafka topic, keyed by the file.
\<close>

definition EventFileCreated :: string where "EventFileCreated = ''file.created''"
definition EventFileReady :: string where "EventFileReady = ''file.ready''"
definition EventFileDeleted :: string where "EventFileDeleted = ''file.deleted''"

record FileEvent =
  EventType :: string
  EventFileID :: string
  EventOwnerID :: string
  EventObjectKey :: string
  Timestamp :: time

definition json_Marshal_event :: "FileEvent \<Rightarrow> err + json" where
  "json_Marshal_event e =
     (if \<not> json_time_ok (Timestamp e) then Inl (External ''json: year outside of range [0,9999]'')
      else Inr (JObj
        [(''type'', JStr (EventType e)), (''file_id'', JStr (EventFileID e)),
         (''owner_id'', JStr (EventOwnerID e)), (''object_key'', JStr (EventObjectKey e)),
         (''timestamp'', JTime (Timestamp e))]))"

definition Publish :: "FileEvent \<Rightarrow> (err + unit) prog" where
  "Publish event =
     bindP (if Timestamp event = zero_time
            then bindP time_Now (\<lambda>now. Return (event\<lparr>Timestamp := now\<rparr>)) else Return event) (\<lambda>ev.
     case json_Marshal_event ev of
        Inl e \<Rightarrow> Return (Inl (Wrapf ''marshal event: '' e []))
      | Inr payload \<Rightarrow>
          bindP (kafka_write \<lparr>MsgKey = EventFileID ev, MsgValue = payload, MsgTime = Timestamp ev\<rparr>) (\<lambda>r.
          Return (case r of Inl e \<Rightarrow> Inl (Wrapf ''write kafka message: '' e []) | Inr _ \<Rightarrow> Inr ())))"

definition file_event :: "string \<Rightarrow> FileMetadata \<Rightarrow> FileEvent" where
  "file_event ty file = \<lparr>EventType = ty, EventFileID = ID file, EventOwnerID = OwnerID file,
     EventObjectKey = ObjectKey file, Timestamp = zero_time\<rparr>"

definition PublishFileCreated :: "FileMetadata \<Rightarrow> (err + unit) prog" where
  "PublishFileCreated file = Publish (file_event EventFileCreated file)"

definition PublishFileReady :: "FileMetadata \<Rightarrow> (err + unit) prog" where
  "PublishFileReady file = Publish (file_event EventFileReady file)"

definition PublishFileDeleted :: "FileMetadata \<Rightarrow> (err + unit) prog" where
  "PublishFileDeleted file = Publish (file_event EventFileDeleted file)"

end
