(* ===== verification/Object_Storage.thy ===== *)
theory Object_Storage
  imports Effects
begin

text \<open>
  \<open>src/internal/storage/minio/client.go\<close>, the adapter of \<open>src/internal/service/adapters.go\<close>
  and the closures with which \<open>src/internal/app/app.go\<close> fills it. A URL is its text.
\<close>

record Client =
  bucket :: string
  presignTTL :: duration

subsection \<open>The client\<close>

definition wrap_err :: "string \<Rightarrow> err + 'a \<Rightarrow> err + 'a" where
  "wrap_err msg r = (case r of Inl e \<Rightarrow> Inl (Wrapf msg e []) | Inr x \<Rightarrow> Inr x)"

text \<open>
  The query parameters that the source builds for a single upload are not passed on, so the
  content type does not reach the request.
\<close>

definition Client_PresignUpload :: "Client \<Rightarrow> string \<Rightarrow> string \<Rightarrow> (err + (string \<times> duration)) prog" where
  "Client_PresignUpload c objectKey contentType =
     bindP (minio_call (PresignedPutObject (bucket c) objectKey (presignTTL c))) (\<lambda>r.
     Return (map_sum id (\<lambda>u. (u, presignTTL c)) (wrap_err ''presign upload: '' r)))"

definition Client_PresignDownload :: "Client \<Rightarrow> string \<Rightarrow> (err + (string \<times> duration)) prog" where
  "Client_PresignDownload c objectKey =
     bindP (minio_call (PresignedGetObject (bucket c) objectKey (presignTTL c))) (\<lambda>r.
     Return (map_sum id (\<lambda>u. (u, presignTTL c)) (wrap_err ''presign download: '' r)))"

definition Client_RemoveObject :: "Client \<Rightarrow> string \<Rightarrow> (err + unit) prog" where
  "Client_RemoveObject c objectKey =
     bindP (minio_call (RemoveObjectReq (bucket c) objectKey)) (\<lambda>r.
     Return (map_sum id (\<lambda>_. ()) r))"

definition Client_CreateMultipartUpload :: "Client \<Rightarrow> string \<Rightarrow> string \<Rightarrow> (err + string) prog" where
  "Client_CreateMultipartUpload c objectKey contentType =
     bindP (minio_call (NewMultipartUpload (bucket c) objectKey contentType)) (\<lambda>r.
     Return (wrap_err ''create multipart upload: '' r))"

definition Client_PresignUploadPart ::
  "Client \<Rightarrow> string \<Rightarrow> string \<Rightarrow> int32 \<Rightarrow> (err + (string \<times> duration)) prog" where
  "Client_PresignUploadPart c objectKey uploadID partNumber =
     bindP (minio_call (PresignReq ''PUT'' (bucket c) objectKey (presignTTL c)
        [(''uploadId'', uploadID), (''partNumber'', int_to_string (sint partNumber))])) (\<lambda>r.
     Return (map_sum id (\<lambda>u. (u, presignTTL c)) (wrap_err ''presign upload part: '' r)))"

definition Client_CompleteMultipartUpload ::
  "Client \<Rightarrow> string \<Rightarrow> string \<Rightarrow> CompletedPart list \<Rightarrow> (err + unit) prog" where
  "Client_CompleteMultipartUpload c objectKey uploadID parts =
     bindP (minio_call (CompleteMultipartReq (bucket c) objectKey uploadID
        (map (\<lambda>p. (sint (CompletedNumber p), CompletedETag p)) parts))) (\<lambda>r.
     Return (map_sum id (\<lambda>_. ()) (wrap_err ''complete multipart upload: '' r)))"

definition Client_AbortMultipartUpload :: "Client \<Rightarrow> string \<Rightarrow> string \<Rightarrow> (err + unit) prog" where
  "Client_AbortMultipartUpload c objectKey uploadID =
     bindP (minio_call (AbortMultipartReq (bucket c) objectKey uploadID)) (\<lambda>r.
     Return (map_sum id (\<lambda>_. ()) (wrap_err ''abort multipart upload: '' r)))"

text \<open>\<open>EnsureBucket\<close>: the answer of \<open>BucketExists\<close> is the text of a boolean.\<close>

definition EnsureBucket :: "Client \<Rightarrow> (err + unit) prog" where
  "EnsureBucket c =
     bindP (minio_call (BucketExists (bucket c))) (\<lambda>r.
     case r of
       Inl e \<Rightarrow> Return (Inl (Wrapf ''check bucket: '' e []))
     | Inr ex \<Rightarrow>
         if ex = ''true'' then Return (Inr ())
         else bindP (minio_call (MakeBucket (bucket c))) (\<lambda>q.
              Return (map_sum id (\<lambda>_. ()) (wrap_err ''create bucket: '' q))))"

subsection \<open>The adapter\<close>

record StorageAdapter =
  bucketFn :: string
  presignUpload :: "string \<Rightarrow> string \<Rightarrow> (err + (string \<times> duration)) prog"
  presignDown :: "string \<Rightarrow> (err + (string \<times> duration)) prog"
  remove :: "string \<Rightarrow> (err + unit) prog"
  createMultipart :: "string \<Rightarrow> string \<Rightarrow> (err + string) prog"
  presignUploadPart :: "string \<Rightarrow> string \<Rightarrow> int32 \<Rightarrow> (err + (string \<times> duration)) prog"
  completeMultipart :: "string \<Rightarrow> string \<Rightarrow> CompletedPart list \<Rightarrow> (err + unit) prog"
  abortMultipart :: "string \<Rightarrow> string \<Rightarrow> (err + unit) prog"

definition NewStorageAdapter ::
  "string \<Rightarrow> (string \<Rightarrow> string \<Rightarrow> (err + (string \<times> duration)) prog) \<Rightarrow>
   (string \<Rightarrow> (err + (string \<times> duration)) prog) \<Rightarrow> (string \<Rightarrow> (err + unit) prog) \<Rightarrow>
   (string \<Rightarrow> string \<Rightarrow> (err + string) prog) \<Rightarrow>
   (string \<Rightarrow> string \<Rightarrow> int32 \<Rightarrow> (err + (string \<times> duration)) prog) \<Rightarrow>
   (string \<Rightarrow> string \<Rightarrow> CompletedPart list \<Rightarrow> (err + unit) prog) \<Rightarrow>
   (string \<Rightarrow> string \<Rightarrow> (err + unit) prog) \<Rightarrow> StorageAdapter" where
  "NewStorageAdapter bf pu pd rm cm pp cp ab =
     \<lparr>bucketFn = bf, presignUpload = pu, presignDown = pd, remove = rm, createMultipart = cm,
      presignUploadPart = pp, completeMultipart = cp, abortMultipart = ab\<rparr>"

text \<open>The methods call the functions that the adapter holds.\<close>

definition Adapter_Bucket :: "StorageAdapter \<Rightarrow> string" where
  "Adapter_Bucket a = bucketFn a"

definition Adapter_PresignUpload :: "StorageAdapter \<Rightarrow> string \<Rightarrow> string \<Rightarrow> (err + (string \<times> duration)) prog" where
  "Adapter_PresignUpload a objectKey contentType = presignUpload a objectKey contentType"

definition Adapter_PresignDownload :: "StorageAdapter \<Rightarrow> string \<Rightarrow> (err + (string \<times> duration)) prog" where
  "Adapter_PresignDownload a objectKey = presignDown a objectKey"

definition Adapter_RemoveObject :: "StorageAdapter \<Rightarrow> string \<Rightarrow> (err + unit) prog" where
  "Adapter_RemoveObject a objectKey = remove a objectKey"

definition Adapter_CreateMultipartUpload :: "StorageAdapter \<Rightarrow> string \<Rightarrow> string \<Rightarrow> (err + string) prog" where
  "Adapter_CreateMultipartUpload a objectKey contentType = createMultipart a objectKey contentType"

definition Adapter_PresignUploadPart :: "StorageAdapter \<Rightarrow> string \<Rightarrow> string \<Rightarrow> int32 \<Rightarrow> (err + (string \<times> duration)) prog" where
  "Adapter_PresignUploadPart a objectKey uploadID partNumber = presignUploadPart a objectKey uploadID partNumber"

definition Adapter_CompleteMultipartUpload :: "StorageAdapter \<Rightarrow> string \<Rightarrow> string \<Rightarrow> CompletedPart list \<Rightarrow> (err + unit) prog" where
  "Adapter_CompleteMultipartUpload a objectKey uploadID parts = completeMultipart a objectKey uploadID parts"

definition Adapter_AbortMultipartUpload :: "StorageAdapter \<Rightarrow> string \<Rightarrow> string \<Rightarrow> (err + unit) prog" where
  "Adapter_AbortMultipartUpload a objectKey uploadID = abortMultipart a objectKey uploadID"

text \<open>The closures of \<open>app.New\<close> return the client's answer, with the URL as text.\<close>

definition url_closure :: "(err + (string \<times> duration)) prog \<Rightarrow> (err + (string \<times> duration)) prog" where
  "url_closure m = tryE m (\<lambda>(u, t). Return (Inr (u, t)))"

definition app_storage :: "Client \<Rightarrow> StorageAdapter" where
  "app_storage c = NewStorageAdapter (bucket c)
     (\<lambda>k ct. url_closure (Client_PresignUpload c k ct))
     (\<lambda>k. url_closure (Client_PresignDownload c k))
     (Client_RemoveObject c)
     (Client_CreateMultipartUpload c)
     (\<lambda>k u n. url_closure (Client_PresignUploadPart c k u n))
     (Client_CompleteMultipartUpload c)
     (Client_AbortMultipartUpload c)"

lemmas adapter_defs = app_storage_def NewStorageAdapter_def Adapter_Bucket_def Adapter_PresignUpload_def Adapter_PresignDownload_def Adapter_RemoveObject_def
  Adapter_CreateMultipartUpload_def Adapter_PresignUploadPart_def Adapter_CompleteMultipartUpload_def Adapter_AbortMultipartUpload_def

end
