(* ===== verification/File_Service.thy ===== *)
theory File_Service
  imports Repository Event_Publisher Object_Storage
begin

text \<open>
  \<open>src/internal/service/file_service.go\<close>: single uploads, reading, listing, download and
  deletion. A method of \<open>FileService\<close> is a program that returns an error or its result.
\<close>

record FileService =
  storage :: StorageAdapter
  cache :: Cache
  multipartPartSize :: int64
  maxFileSizeBytes :: int64

definition NewFileService :: "StorageAdapter \<Rightarrow> Cache \<Rightarrow> int64 \<Rightarrow> int64 \<Rightarrow> FileService" where
  "NewFileService st ch partSize maxSize =
     \<lparr>storage = st, cache = ch, multipartPartSize = partSize, maxFileSizeBytes = maxSize\<rparr>"

text \<open>The service as \<open>app.New\<close> builds it.\<close>

definition app_service :: "Client \<Rightarrow> Cache \<Rightarrow> int64 \<Rightarrow> int64 \<Rightarrow> FileService" where
  "app_service c ch partSize maxSize = NewFileService (app_storage c) ch partSize maxSize"

record CreateUploadResult =
  Metadata :: FileMetadata
  UploadURL :: string
  ExpiresIn :: duration

record DownloadURLResult =
  DownloadURL :: string
  DownloadExpiresIn :: duration

subsection \<open>Helpers\<close>

definition validateCreateInput ::
  "string \<Rightarrow> string \<Rightarrow> string \<Rightarrow> int64 \<Rightarrow> int64 \<Rightarrow> err option" where
  "validateCreateInput ownerID originalName contentType sizeBytes maxSize =
     CreateUploadInput ownerID originalName contentType sizeBytes maxSize"

definition sanitizeFilename :: "string \<Rightarrow> string" where
  "sanitizeFilename name =
     (let a = ReplaceAll (CHR 0x5C) (CHR ''_'') name;
          b = ReplaceAll (CHR ''/'') (CHR ''_'') a;
          c = TrimSpace b
      in if c = [] then ''file'' else c)"

definition objectKeyFor :: "string \<Rightarrow> string \<Rightarrow> string \<Rightarrow> string" where
  "objectKeyFor ownerID i originalName = path_Join [ownerID, i, sanitizeFilename originalName]"

subsection \<open>CreateUpload\<close>

definition new_single ::
  "FileService \<Rightarrow> string \<Rightarrow> string \<Rightarrow> string \<Rightarrow> int64 \<Rightarrow> string \<Rightarrow> time \<Rightarrow> FileMetadata" where
  "new_single s ownerID originalName contentType sizeBytes i now =
     \<lparr>ID = i, OwnerID = ownerID, Bucket = Adapter_Bucket (storage s),
      ObjectKey = objectKeyFor ownerID i originalName, OriginalName = originalName,
      ContentType = contentType, SizeBytes = sizeBytes, ChecksumSHA256 = [],
      Status = FileStatusPending, UploadMode = UploadModeSingle, UploadID = [], PartSize = 0,
      CreatedAt = now, UpdatedAt = now\<rparr>"

definition CreateUpload ::
  "FileService \<Rightarrow> string \<Rightarrow> string \<Rightarrow> string \<Rightarrow> int64 \<Rightarrow> (err + CreateUploadResult) prog" where
  "CreateUpload s ownerID originalName contentType sizeBytes =
     guardE (validateCreateInput ownerID originalName contentType sizeBytes (maxFileSizeBytes s)) (
     bindP time_Now (\<lambda>now.
     bindP uuid_NewString (\<lambda>i.
     let file = new_single s ownerID originalName contentType sizeBytes i now in
     tryE (Adapter_PresignUpload (storage s) (ObjectKey file) contentType) (\<lambda>(uploadURL, expiresIn).
     tryE (Create file) (\<lambda>_.
     discard (SetFile (cache s) file) (
     discard (PublishFileCreated file) (
     Return (Inr \<lparr>Metadata = file, UploadURL = uploadURL, ExpiresIn = expiresIn\<rparr>))))))))"

subsection \<open>ConfirmUpload\<close>

definition ConfirmUpload :: "FileService \<Rightarrow> string \<Rightarrow> string \<Rightarrow> string \<Rightarrow> (err + FileMetadata) prog" where
  "ConfirmUpload s i ownerID checksum =
     (if i = [] \<or> ownerID = [] then Return (Inl ErrInvalidInput)
      else
        guardE (ChecksumSHA256_check checksum) (
        tryE (GetByID i) (\<lambda>existing.
        if \<not> IsOwnedBy existing ownerID then Return (Inl ErrAccessDenied)
        else if Status existing = FileStatusReady then Return (Inl ErrAlreadyExists)
        else if Status existing = FileStatusDeleted then Return (Inl ErrNotFound)
        else
          tryE (Confirm i checksum) (\<lambda>file.
          discard (SetFile (cache s) file) (
          discard (PublishFileReady file) (
          Return (Inr file)))))))"

subsection \<open>GetFile, ListFiles, GetDownloadURL\<close>

text \<open>The part of \<open>GetFile\<close> after a miss in the cache.\<close>

definition GetFile_repo :: "FileService \<Rightarrow> string \<Rightarrow> string \<Rightarrow> (err + FileMetadata) prog" where
  "GetFile_repo s i ownerID =
     tryE (GetByID i) (\<lambda>file.
     if \<not> IsOwnedBy file ownerID then Return (Inl ErrAccessDenied)
     else if Status file = FileStatusDeleted then Return (Inl ErrNotFound)
     else discard (SetFile (cache s) file) (Return (Inr file)))"

definition GetFile :: "FileService \<Rightarrow> string \<Rightarrow> string \<Rightarrow> (err + FileMetadata) prog" where
  "GetFile s i ownerID =
     (if i = [] \<or> ownerID = [] then Return (Inl ErrInvalidInput)
      else
        bindP (Cache_GetFile (cache s) i) (\<lambda>r.
        case r of
          Inl e \<Rightarrow> GetFile_repo s i ownerID
        | Inr None \<Rightarrow> GetFile_repo s i ownerID
        | Inr (Some hit) \<Rightarrow>
            if \<not> IsOwnedBy hit ownerID then Return (Inl ErrAccessDenied)
            else if Status hit \<noteq> FileStatusDeleted then Return (Inr hit)
            else GetFile_repo s i ownerID))"

definition ListFiles :: "FileService \<Rightarrow> ListFilter \<Rightarrow> (err + ListResult) prog" where
  "ListFiles s filt = guardE (OwnerID_check (FilterOwnerID filt)) (Repo_List filt)"

definition GetDownloadURL :: "FileService \<Rightarrow> string \<Rightarrow> string \<Rightarrow> (err + DownloadURLResult) prog" where
  "GetDownloadURL s i ownerID =
     tryE (GetFile s i ownerID) (\<lambda>file.
     if \<not> CanDownload file then Return (Inl (Wrapf [] ErrInvalidInput '': file is not ready''))
     else
       tryE (Adapter_PresignDownload (storage s) (ObjectKey file)) (\<lambda>(url, expiresIn).
       Return (Inr \<lparr>DownloadURL = url, DownloadExpiresIn = expiresIn\<rparr>)))"

subsection \<open>DeleteFile\<close>

definition DeleteFile :: "FileService \<Rightarrow> string \<Rightarrow> string \<Rightarrow> (err + unit) prog" where
  "DeleteFile s i ownerID =
     tryE (GetFile s i ownerID) (\<lambda>file.
     tryE (SoftDelete i) (\<lambda>_.
     discard (if IsMultipart file \<and> UploadID file \<noteq> [] \<and> Status file = FileStatusPending
              then discard (Adapter_AbortMultipartUpload (storage s) (ObjectKey file) (UploadID file))
                           (DeleteUploadParts i)
              else Adapter_RemoveObject (storage s) (ObjectKey file)) (
     discard (InvalidateFile (cache s) i) (
     bindP time_Now (\<lambda>now.
     discard (PublishFileDeleted (file\<lparr>Status := FileStatusDeleted, UpdatedAt := now\<rparr>)) (
     Return (Inr ())))))))"

lemma app_service_simps [simp]:
  "storage (app_service c ch ps ms) = app_storage c" "cache (app_service c ch ps ms) = ch"
  "multipartPartSize (app_service c ch ps ms) = ps" "maxFileSizeBytes (app_service c ch ps ms) = ms"
  by (simp_all add: app_service_def NewFileService_def)

end
