(* ===== verification/Multipart_Service.thy ===== *)
theory Multipart_Service
  imports File_Service
begin

text \<open>
  \<open>src/internal/service/multipart_service.go\<close>: uploads in parts, from the creation of the
  upload to its completion or abortion.
\<close>

record CreateMultipartUploadResult =
  MpMetadata :: FileMetadata
  MpUploadID :: string
  MpPartSize :: int64
  MpTotalParts :: int32

record PartUploadURLResult =
  PartURL :: string
  PartExpiresIn :: duration
  UrlPartNumber :: int32
  UrlPartSize :: int64

record ListUploadPartsResult =
  LpUploadID :: string
  LpPartSize :: int64
  LpTotalParts :: int32
  LpParts :: "UploadPart list"

subsection \<open>Helpers\<close>

definition getPendingMultipart :: "FileService \<Rightarrow> string \<Rightarrow> string \<Rightarrow> (err + FileMetadata) prog" where
  "getPendingMultipart s i ownerID =
     (if i = [] \<or> ownerID = [] then Return (Inl ErrInvalidInput)
      else
        tryE (GetByID i) (\<lambda>file.
        if \<not> IsOwnedBy file ownerID then Return (Inl ErrAccessDenied)
        else if Status file \<noteq> FileStatusPending then Return (Inl ErrNotFound)
        else if \<not> IsMultipart file \<or> UploadID file = []
        then Return (Inl (Wrapf [] ErrInvalidInput '': not a multipart upload''))
        else Return (Inr file)))"

definition validatePartNumber :: "int32 \<Rightarrow> int32 \<Rightarrow> err option" where
  "validatePartNumber partNumber totalParts =
     (if sint partNumber < 1 \<or> sint totalParts < sint partNumber
      then Some (Wrapf [] ErrInvalidInput
             ('': part_number must be between 1 and '' @ int_to_string (sint totalParts)))
      else None)"

text \<open>\<open>None\<close> is the panic of a remainder by zero.\<close>

definition partSizeForNumber :: "FileMetadata \<Rightarrow> int32 \<Rightarrow> int64 option" where
  "partSizeForNumber file partNumber =
     (if sint partNumber < sint (TotalParts file) then Some (PartSize file)
      else if PartSize file = 0 then None
      else (let remainder = rem64 (SizeBytes file) (PartSize file)
            in if remainder = 0 then Some (PartSize file) else Some remainder))"

definition normalizeETag :: "string \<Rightarrow> string" where
  "normalizeETag etag = Trim (TrimSpace etag) (CHR 0x22)"

subsection \<open>CreateMultipartUpload\<close>

definition new_multipart ::
  "FileService \<Rightarrow> string \<Rightarrow> string \<Rightarrow> string \<Rightarrow> int64 \<Rightarrow> string \<Rightarrow> time \<Rightarrow> string \<Rightarrow> FileMetadata" where
  "new_multipart s ownerID originalName contentType sizeBytes i now uploadID =
     \<lparr>ID = i, OwnerID = ownerID, Bucket = Adapter_Bucket (storage s),
      ObjectKey = objectKeyFor ownerID i originalName, OriginalName = originalName,
      ContentType = contentType, SizeBytes = sizeBytes, ChecksumSHA256 = [],
      Status = FileStatusPending, UploadMode = UploadModeMultipart, UploadID = uploadID,
      PartSize = multipartPartSize s, CreatedAt = now, UpdatedAt = now\<rparr>"

definition CreateMultipartUpload ::
  "FileService \<Rightarrow> string \<Rightarrow> string \<Rightarrow> string \<Rightarrow> int64 \<Rightarrow> (err + CreateMultipartUploadResult) prog" where
  "CreateMultipartUpload s ownerID originalName contentType sizeBytes =
     guardE (validateCreateInput ownerID originalName contentType sizeBytes (maxFileSizeBytes s)) (
     if sint sizeBytes \<le> sint (multipartPartSize s)
     then Return (Inl (Wrapf [] ErrInvalidInput '': use CreateUpload for files <= part size''))
     else
       bindP time_Now (\<lambda>now.
       bindP uuid_NewString (\<lambda>i.
       let objectKey = objectKeyFor ownerID i originalName in
       tryE (Adapter_CreateMultipartUpload (storage s) objectKey contentType) (\<lambda>uploadID.
       let file = new_multipart s ownerID originalName contentType sizeBytes i now uploadID in
       bindP (Create file) (\<lambda>r.
       case r of
         Inl e \<Rightarrow> discard (Adapter_AbortMultipartUpload (storage s) objectKey uploadID) (Return (Inl e))
       | Inr _ \<Rightarrow>
           discard (SetFile (cache s) file) (
           discard (PublishFileCreated file) (
           Return (Inr \<lparr>MpMetadata = file, MpUploadID = uploadID,
             MpPartSize = multipartPartSize s, MpTotalParts = TotalParts file\<rparr>))))))))"

subsection \<open>The parts of an upload\<close>

definition GetPartUploadURL ::
  "FileService \<Rightarrow> string \<Rightarrow> string \<Rightarrow> int32 \<Rightarrow> (err + PartUploadURLResult) prog" where
  "GetPartUploadURL s i ownerID partNumber =
     tryE (getPendingMultipart s i ownerID) (\<lambda>file.
     guardE (validatePartNumber partNumber (TotalParts file)) (
     tryE (Adapter_PresignUploadPart (storage s) (ObjectKey file) (UploadID file) partNumber)
       (\<lambda>(url, expiresIn).
     case partSizeForNumber file partNumber of
       None \<Rightarrow> Panic ''integer divide by zero''
     | Some partSize \<Rightarrow>
         Return (Inr \<lparr>PartURL = url, PartExpiresIn = expiresIn, UrlPartNumber = partNumber,
           UrlPartSize = partSize\<rparr>))))"

definition ReportPartUploaded ::
  "FileService \<Rightarrow> string \<Rightarrow> string \<Rightarrow> int32 \<Rightarrow> string \<Rightarrow> (err + UploadPart) prog" where
  "ReportPartUploaded s i ownerID partNumber rawETag =
     tryE (getPendingMultipart s i ownerID) (\<lambda>file.
     guardE (validatePartNumber partNumber (TotalParts file)) (
     let etag = normalizeETag rawETag in
     if etag = [] then Return (Inl ErrInvalidInput)
     else
       bindP time_Now (\<lambda>now.
       let part = \<lparr>PartNumber = partNumber, ETag = etag, UploadedAt = now\<rparr> in
       tryE (SaveUploadPart (ID file) part) (\<lambda>_.
       Return (Inr part)))))"

definition ListUploadParts :: "FileService \<Rightarrow> string \<Rightarrow> string \<Rightarrow> (err + ListUploadPartsResult) prog" where
  "ListUploadParts s i ownerID =
     tryE (getPendingMultipart s i ownerID) (\<lambda>file.
     tryE (Repo_ListUploadParts (ID file)) (\<lambda>parts.
     Return (Inr \<lparr>LpUploadID = UploadID file, LpPartSize = PartSize file,
       LpTotalParts = TotalParts file, LpParts = parts\<rparr>)))"

subsection \<open>Completion and abortion\<close>

text \<open>The loop over the recorded parts, with the part numbers seen so far.\<close>

fun collect_parts :: "int32 \<Rightarrow> int32 set \<Rightarrow> UploadPart list \<Rightarrow> err + CompletedPart list" where
  "collect_parts totalParts seen [] = Inr []"
| "collect_parts totalParts seen (p # ps) =
     (case validatePartNumber (PartNumber p) totalParts of
        Some e \<Rightarrow> Inl e
      | None \<Rightarrow>
          if PartNumber p \<in> seen
          then Inl (Wrapf [] ErrInvalidInput ('': duplicate part '' @ int_to_string (sint (PartNumber p))))
          else (case collect_parts totalParts (insert (PartNumber p) seen) ps of
                  Inl e \<Rightarrow> Inl e
                | Inr cs \<Rightarrow> Inr (\<lparr>CompletedNumber = PartNumber p, CompletedETag = ETag p\<rparr> # cs)))"

definition CompleteMultipartUpload ::
  "FileService \<Rightarrow> string \<Rightarrow> string \<Rightarrow> string \<Rightarrow> (err + FileMetadata) prog" where
  "CompleteMultipartUpload s i ownerID checksum =
     (if i = [] \<or> ownerID = [] then Return (Inl ErrInvalidInput)
      else
        guardE (ChecksumSHA256_check checksum) (
        tryE (getPendingMultipart s i ownerID) (\<lambda>file.
        tryE (Repo_ListUploadParts (ID file)) (\<lambda>parts.
        let totalParts = TotalParts file in
        if (word_of_int (int (length parts)) :: int32) \<noteq> totalParts
        then Return (Inl (Wrapf [] ErrInvalidInput ('': expected '' @ int_to_string (sint totalParts)
               @ '' parts, got '' @ int_to_string (int (length parts)))))
        else
          (case collect_parts totalParts {} parts of
             Inl e \<Rightarrow> Return (Inl e)
           | Inr completed \<Rightarrow>
               tryE (Adapter_CompleteMultipartUpload (storage s) (ObjectKey file) (UploadID file) completed) (\<lambda>_.
               tryE (Confirm i checksum) (\<lambda>confirmed.
               discard (DeleteUploadParts i) (
               discard (SetFile (cache s) confirmed) (
               discard (PublishFileReady confirmed) (
               Return (Inr confirmed)))))))))))"

definition AbortMultipartUpload :: "FileService \<Rightarrow> string \<Rightarrow> string \<Rightarrow> (err + unit) prog" where
  "AbortMultipartUpload s i ownerID =
     tryE (getPendingMultipart s i ownerID) (\<lambda>file.
     discard (Adapter_AbortMultipartUpload (storage s) (ObjectKey file) (UploadID file)) (
     discard (DeleteUploadParts (ID file)) (
     tryE (SoftDelete i) (\<lambda>_.
     discard (InvalidateFile (cache s) i) (
     bindP time_Now (\<lambda>now.
     discard (PublishFileDeleted (file\<lparr>Status := FileStatusDeleted, UpdatedAt := now\<rparr>)) (
     Return (Inr ()))))))))"

end
