(* ===== verification/Isolation.thy ===== *)
theory Isolation
  imports Concurrency Multipart_Service
begin

text \<open>
  Tenant isolation. Requests made for a set of owners, interleaved in any way and with any
  failures of the servers, never change a row or a recorded part of a file of another owner, and
  every file only moves forward in its life cycle. The proof is by rely and guarantee: each
  operation of the service keeps the guarantee while all others stay within the rely.
\<close>

subsection \<open>The invariant, the rely and the guarantee\<close>

text \<open>
  Of the environment: the engine reads back what it stored, and \<open>uuid.NewString\<close> returns
  the canonical text of an identifier.
\<close>

definition env_ok :: "env \<Rightarrow> bool" where
  "env_ok E \<longleftrightarrow> engine_ok (pg E) \<and> (\<forall>n. uuids E n \<noteq> [] \<and> pgUUID (pg E) (uuids E n) = Some (uuids E n))"

text \<open>A file that a row with the same identifier, owner and object key stands for.\<close>

definition backed :: "world \<Rightarrow> FileMetadata \<Rightarrow> bool" where
  "backed w f \<longleftrightarrow> (\<exists>r. get_row (db w) (ID f) = Some r \<and> OwnerID r = OwnerID f \<and>
     ObjectKey r = ObjectKey f)"

definition cache_sound :: "world \<Rightarrow> bool" where
  "cache_sound w \<longleftrightarrow> (\<forall>i f. cached w i = Some f \<longrightarrow> ID f = i \<and> backed w f)"

definition svc_inv :: "env \<Rightarrow> world \<Rightarrow> bool" where
  "svc_inv E w \<longleftrightarrow> db_wf (pg E) (db w) \<and> cache_sound w"

definition svc_R :: "env \<Rightarrow> world \<Rightarrow> world \<Rightarrow> bool" where
  "svc_R E w v \<longleftrightarrow> (svc_inv E w \<longrightarrow> svc_inv E v \<and> db_le (db w) (db v))"

definition foreign_kept :: "string set \<Rightarrow> pgdb \<Rightarrow> pgdb \<Rightarrow> bool" where
  "foreign_kept S d d' \<longleftrightarrow> (\<forall>u r. get_row d u = Some r \<longrightarrow> OwnerID r \<notin> S \<longrightarrow>
     get_row d' u = Some r \<and> parts_of d' u = parts_of d u)"

definition svc_G :: "env \<Rightarrow> string set \<Rightarrow> world \<Rightarrow> world \<Rightarrow> bool" where
  "svc_G E S w v \<longleftrightarrow> svc_R E w v \<and> (svc_inv E w \<longrightarrow> foreign_kept S (db w) (db v))"

lemma foreign_kept_refl [simp]: "foreign_kept S d d" by (simp add: foreign_kept_def)

lemma foreign_kept_trans: "foreign_kept S a b \<Longrightarrow> foreign_kept S b c \<Longrightarrow> foreign_kept S a c"
  by (simp add: foreign_kept_def)

interpretation svc: rely_guarantee E "svc_R E" "svc_G E S" for E S
  by unfold_locales (auto simp: svc_R_def svc_G_def intro: db_le_trans)

lemma svc_R_inv: "svc_R E w v \<Longrightarrow> svc_inv E w \<Longrightarrow> svc_inv E v"
  by (simp add: svc_R_def)

lemma svc_R_le: "svc_R E w v \<Longrightarrow> svc_inv E w \<Longrightarrow> db_le (db w) (db v)"
  by (simp add: svc_R_def)

subsection \<open>What a request knows stays true\<close>

lemma row_le_backed: "row_le r r' \<Longrightarrow> OwnerID r' = OwnerID r \<and> ObjectKey r' = ObjectKey r"
  by (auto simp: row_le_def same_file_def)

lemma backed_mono:
  assumes "db_le (db w) (db v)" and "backed w f"
  shows "backed v f"
proof -
  from assms(2) obtain r where r: "get_row (db w) (ID f) = Some r" "OwnerID r = OwnerID f"
    "ObjectKey r = ObjectKey f" by (auto simp: backed_def)
  with assms(1) obtain r' where "get_row (db v) (ID f) = Some r'" "row_le r r'"
    by (auto simp: db_le_def)
  with r row_le_backed [of r r'] show ?thesis by (simp add: backed_def)
qed

text \<open>The row is \<open>f\<close>, or has moved on from it in its life cycle.\<close>

definition settled :: "world \<Rightarrow> FileMetadata \<Rightarrow> bool" where
  "settled w f \<longleftrightarrow> (\<exists>r. get_row (db w) (ID f) = Some r \<and> row_le f r)"

lemma settled_mono: "db_le (db w) (db v) \<Longrightarrow> settled w f \<Longrightarrow> settled v f"
  unfolding settled_def db_le_def by (meson row_le_trans)

lemma settled_backed: "settled w f \<Longrightarrow> backed w f"
  using row_le_backed by (auto simp: settled_def backed_def)

text \<open>The identifier of a request, if it is one, names a file of \<open>ow\<close>.\<close>

definition owns :: "env \<Rightarrow> world \<Rightarrow> string \<Rightarrow> string \<Rightarrow> bool" where
  "owns E w i ow \<longleftrightarrow> (\<forall>u. pgUUID (pg E) i = Some u \<longrightarrow>
     (\<exists>r. get_row (db w) u = Some r \<and> OwnerID r = ow))"

lemma owns_mono: "db_le (db w) (db v) \<Longrightarrow> owns E w i ow \<Longrightarrow> owns E v i ow"
  unfolding owns_def db_le_def by (metis row_le_owner)

lemma backed_owns: "backed w f \<Longrightarrow> pgUUID (pg E) i = Some (ID f) \<Longrightarrow> owns E w i (OwnerID f)"
  by (auto simp: backed_def owns_def)

lemma backed_canonical: "svc_inv E w \<Longrightarrow> backed w f \<Longrightarrow> pgUUID (pg E) (ID f) = Some (ID f)"
  by (auto simp: svc_inv_def backed_def dest: get_row_canonical)

lemma cache_sound_le:
  "cache_sound w \<Longrightarrow> redis v = redis w \<Longrightarrow> db_le (db w) (db v) \<Longrightarrow> cache_sound v"
  unfolding cache_sound_def cached_def using backed_mono by metis

subsection \<open>Statements of a tenant\<close>

lemma foreign_kept_insert: "foreign_kept S d (snd (sql_insert_file P f d))"
  by (auto simp: foreign_kept_def sql_insert_file_def Let_def get_row_append parts_of_def
      split: option.split)

lemma foreign_kept_map:
  assumes "\<And>r. ID (g r) = ID r"
    and "\<And>u r. get_row d u = Some r \<Longrightarrow> OwnerID r \<notin> S \<Longrightarrow> g r = r"
  shows "foreign_kept S d (d\<lparr>files := map g (files d)\<rparr>)"
  using assms by (simp add: foreign_kept_def get_row_map parts_of_def)

lemma foreign_not_named:
  assumes "owns E w i ow" and "ow \<in> S" and "get_row (db w) u = Some r" and "OwnerID r \<notin> S"
  shows "pgUUID (pg E) i \<noteq> Some (ID r)"
  using assms get_row_ID [OF assms(3)] by (auto simp: owns_def)

lemma foreign_kept_confirm:
  assumes "owns E w i ow" and "ow \<in> S" and "d = db w"
  shows "foreign_kept S d (snd (sql_confirm (pg E) i c t d))"
  unfolding assms(3)
  by (auto simp: sql_confirm_def Let_def split: option.split intro!: foreign_kept_map
      dest: foreign_not_named [OF assms(1,2)])

lemma foreign_kept_soft_delete:
  assumes "owns E w i ow" and "ow \<in> S" and "d = db w"
  shows "foreign_kept S d (snd (sql_soft_delete (pg E) i t d))"
  unfolding assms(3)
  by (auto simp: sql_soft_delete_def Let_def split: option.split intro!: foreign_kept_map
      dest: foreign_not_named [OF assms(1,2)])

lemma foreign_kept_parts:
  assumes "\<And>u. u \<noteq> own \<Longrightarrow> filter (\<lambda>p. pr_file_id p = u) ps = filter (\<lambda>p. pr_file_id p = u) (upload_parts d)"
    and "\<And>r. get_row d own = Some r \<Longrightarrow> OwnerID r \<in> S"
  shows "foreign_kept S d (d\<lparr>upload_parts := ps\<rparr>)"
proof -
  have "parts_of (d\<lparr>upload_parts := ps\<rparr>) u = parts_of d u"
    if "get_row d u = Some r" "OwnerID r \<notin> S" for u r
    using assms(1) [of u] assms(2) [of r] that by (cases "u = own") (simp_all add: parts_of_def)
  then show ?thesis by (simp add: foreign_kept_def)
qed

lemma foreign_kept_delete_parts:
  assumes "owns E w i ow" and "ow \<in> S" and "d = db w"
  shows "foreign_kept S d (snd (sql_delete_parts (pg E) i d))"
proof (cases "pgUUID (pg E) i")
  case (Some u)
  have "foreign_kept S d (d\<lparr>upload_parts := filter (\<lambda>p. pr_file_id p \<noteq> u) (upload_parts d)\<rparr>)"
    using assms Some by (intro foreign_kept_parts [of u]) (auto simp: owns_def intro!: filter_cong)
  with Some show ?thesis by (simp add: sql_delete_parts_def)
qed (simp add: sql_delete_parts_def)

lemma filter_map_hit:
  "(\<And>q. h q \<Longrightarrow> \<not> Q q) \<Longrightarrow> \<not> Q p \<Longrightarrow> filter Q (map (\<lambda>q. if h q then p else q) qs) = filter Q qs"
  by (induction qs) auto

lemma foreign_kept_upsert:
  assumes "owns E w i ow" and "ow \<in> S" and "d = db w"
  shows "foreign_kept S d (snd (sql_upsert_part (pg E) i part d))"
proof (cases "pgUUID (pg E) i")
  case (Some u)
  have own: "\<And>r. get_row d u = Some r \<Longrightarrow> OwnerID r \<in> S"
    using assms Some by (auto simp: owns_def)
  show ?thesis
    using Some unfolding sql_upsert_part_def
    by (auto simp: Let_def part_hit_def intro!: foreign_kept_parts [of u] own filter_map_hit)
qed (simp add: sql_upsert_part_def)

end
