(* ===== verification/Isolation_Rules.thy ===== *)
theory Isolation_Rules
  imports Isolation
begin

text \<open>
  The rules with which the operations of the service are shown to keep the guarantee: one for
  each kind of step, and one for each method of the repository, the cache, the publisher and the
  object storage.
\<close>

abbreviation svc_rg ::
  "env \<Rightarrow> string set \<Rightarrow> 'a prog \<Rightarrow> ('a \<Rightarrow> world \<Rightarrow> bool) \<Rightarrow> world \<Rightarrow> bool" where
  "svc_rg E S p Q w \<equiv> rg p E (svc_R E) (svc_G E S) Q w"

subsection \<open>Single steps\<close>

lemma svc_quiet:
  assumes "db v' = db v" and "redis v' = redis v"
  shows "svc_G E S v v'"
  using assms cache_sound_le [of v v'] by (simp add: svc_G_def svc_R_def svc_inv_def)

lemma svc_G_R: "svc_G E S v v' \<Longrightarrow> svc_R E v v'"
  by (simp add: svc_G_def)

lemma rg_quiet:
  assumes "\<And>v. db (snd (act E v)) = db v \<and> redis (snd (act E v)) = redis v"
    and "\<And>x v. svc_R E w v \<Longrightarrow> Q x v"
  shows "svc_rg E S (atomic act) Q w"
proof (rule svc.rg_atomic)
  fix v
  let ?v' = "(snd (act E v))\<lparr>tick := Suc (tick v)\<rparr>"
  show g: "svc_G E S v ?v'" using assms(1) [of v] by (intro svc_quiet) simp_all
  fix u
  assume "svc_R E w v" and "svc_R E ?v' u"
  then show "Q (fst (act E v)) u"
    using assms(2) svc_G_R [OF g] svc.R_trans by blast
qed

lemma rg_steps:
  assumes "\<And>x v. svc_R E w v \<Longrightarrow> Q x v"
  shows "svc_rg E S (kafka_write m) Q w"
  unfolding kafka_write_def by (rule rg_quiet) (use assms in auto)

lemma rg_minio_call:
  assumes "\<And>x v. svc_R E w v \<Longrightarrow> Q x v"
  shows "svc_rg E S (minio_call q) Q w"
  unfolding minio_call_def by (rule rg_quiet) (use assms in auto)

lemma rg_emit:
  assumes "\<And>x v. svc_R E w v \<Longrightarrow> Q x v"
  shows "svc_rg E S (emit l) Q w"
  unfolding emit_def by (rule rg_quiet) (use assms in auto)

lemma rg_time_Now:
  assumes "\<And>x v. svc_R E w v \<Longrightarrow> Q x v"
  shows "svc_rg E S time_Now Q w"
  unfolding time_Now_def by (rule rg_quiet) (use assms in auto)

lemma rg_uuid_NewString:
  assumes "\<And>n v. svc_R E w v \<Longrightarrow> Q (uuids E n) v"
  shows "svc_rg E S uuid_NewString Q w"
  unfolding uuid_NewString_def
proof (rule svc.rg_atomic)
  fix v u
  show g: "svc_G E S v ((snd (uuids E (tick v), v))\<lparr>tick := Suc (tick v)\<rparr>)"
    by (rule svc_quiet) simp_all
  assume wv: "svc_R E w v" and vu: "svc_R E ((snd (uuids E (tick v), v))\<lparr>tick := Suc (tick v)\<rparr>) u"
  have "svc_R E w u" by (rule svc.R_trans [OF wv svc.R_trans [OF svc_G_R [OF g] vu]])
  then show "Q (fst (uuids E (tick v), v)) u" by (simp add: assms)
qed

text \<open>A statement: what it does to the tables, and what its result tells.\<close>

lemma svc_G_sql:
  assumes "db_wf (pg E) d'" and "db_le (db v) d'" and "foreign_kept S (db v) d'"
    and "db v' = d'" and "redis v' = redis v"
  shows "svc_G E S v v'"
  using assms cache_sound_le [of v v'] by (auto simp: svc_G_def svc_R_def svc_inv_def)

lemma rg_sql:
  assumes inv: "svc_inv E w"
    and ok: "\<And>v. svc_R E w v \<Longrightarrow> svc_inv E v \<Longrightarrow> db_wf (pg E) (snd (st (pg E) (db v))) \<and>
      db_le (db v) (snd (st (pg E) (db v))) \<and> foreign_kept S (db v) (snd (st (pg E) (db v)))"
    and err: "\<And>e v. svc_R E w v \<Longrightarrow> Q (Inl e) v"
    and res: "\<And>x v v' u. svc_R E w v \<Longrightarrow> svc_inv E v \<Longrightarrow> st (pg E) (db v) = (Inr x, db v') \<Longrightarrow>
      redis v' = redis v \<Longrightarrow> svc_R E v' u \<Longrightarrow> svc_inv E v' \<Longrightarrow> svc_R E w u \<Longrightarrow> Q (Inr x) u"
  shows "svc_rg E S (sql st) Q w"
  unfolding sql_def
proof (rule svc.rg_atomic)
  fix v assume wv: "svc_R E w v"
  let ?v' = "(snd (sql_act st E v))\<lparr>tick := Suc (tick v)\<rparr>"
  have iv: "svc_inv E v" using wv inv by (rule svc_R_inv)
  have same: "redis ?v' = redis v" by (simp add: sql_act_def split_beta Let_def)
  show g: "svc_G E S v ?v'"
  proof (cases "takes_effect (pgFault E (tick v))")
    case True
    then show ?thesis
      using ok [OF wv iv] by (intro svc_G_sql [OF _ _ _ _ same]) (auto simp: sql_act_def split_beta Let_def)
  next
    case False
    then show ?thesis by (intro svc_quiet [OF _ same]) (simp add: sql_act_def split_beta Let_def)
  qed
  have iv': "svc_inv E ?v'" using g iv by (auto dest: svc_G_R svc_R_inv)
  fix u assume vu: "svc_R E ?v' u"
  have wu: "svc_R E w u" using wv svc_G_R [OF g] vu svc.R_trans by blast
  show "Q (fst (sql_act st E v)) u"
  proof (cases "pgFault E (tick v) = NoFault \<and> (\<exists>x. fst (st (pg E) (db v)) = Inr x)")
    case True
    then obtain x where x: "fst (st (pg E) (db v)) = Inr x" and nf: "pgFault E (tick v) = NoFault" by blast
    then have "st (pg E) (db v) = (Inr x, db ?v')" "fst (sql_act st E v) = Inr x"
      by (auto simp: sql_act_def split_beta Let_def faulty_def prod_eq_iff)
    then show ?thesis using res [OF wv iv _ same vu iv' wu] by simp
  next
    case False
    then obtain e where "fst (sql_act st E v) = Inl e"
      by (cases "fst (st (pg E) (db v))"; cases "pgFault E (tick v)")
        (auto simp: sql_act_def split_beta Let_def faulty_def)
    then show ?thesis using err [OF wu] by simp
  qed
qed

subsection \<open>The cache\<close>

lemma cached_write:
  "cached (w\<lparr>redis := (redis w)(fileKey i := v), tick := n\<rparr>) j =
     (if i = j then Option.bind v (\<lambda>(x, _). json_Unmarshal_file x) else cached w j)"
  by (simp add: cached_def)

lemma rg_redis_write:
  assumes "svc_inv E w"
    and "\<And>v. svc_R E w v \<Longrightarrow> svc_inv E v \<Longrightarrow> cache_sound (v\<lparr>redis := (redis v)(key := x)\<rparr>)"
    and "\<And>r v. svc_R E w v \<Longrightarrow> Q r v"
  shows "svc_rg E S (redis_write key x) Q w"
  unfolding redis_write_def
proof (rule svc.rg_atomic)
  fix v assume wv: "svc_R E w v"
  let ?act = "\<lambda>E w. (faulty (redisFault E (tick w)) (Inr ()),
      if takes_effect (redisFault E (tick w)) then w\<lparr>redis := (redis w)(key := x)\<rparr> else w)"
  let ?v' = "(snd (?act E v))\<lparr>tick := Suc (tick v)\<rparr>"
  have iv: "svc_inv E v" using wv assms(1) by (rule svc_R_inv)
  have "cache_sound (u\<lparr>tick := n\<rparr>) \<longleftrightarrow> cache_sound u" for u n
    by (simp add: cache_sound_def cached_def backed_def)
  then show g: "svc_G E S v ?v'"
    using assms(2) [OF wv iv] iv by (simp add: svc_G_def svc_R_def svc_inv_def)
  fix u assume "svc_R E ?v' u"
  then show "Q (fst (?act E v)) u"
    using wv svc_G_R [OF g] svc.R_trans assms(3) by blast
qed

lemma rg_SetFile:
  assumes "svc_inv E w" and "backed w f" and "\<And>r v. svc_R E w v \<Longrightarrow> Q r v"
  shows "svc_rg E S (SetFile c f) Q w"
proof (cases "json_Marshal_file f")
  case (Inl e)
  then show ?thesis using assms(3) by (simp add: SetFile_def)
next
  case (Inr j)
  then have j: "json_Unmarshal_file j = Some f" by (rule json_roundtrip)
  have b: "backed (v\<lparr>redis := x\<rparr>) = backed v" for v x
    by (simp add: backed_def fun_eq_iff)
  have "svc_rg E S (redis_write (fileKey (ID f)) (Some (j, ttl c))) Q w"
  proof (rule rg_redis_write [OF assms(1) _ assms(3)])
    fix v assume "svc_R E w v" and "svc_inv E v"
    then have "backed v f" and "cache_sound v"
      using assms(1,2) by (auto intro: backed_mono dest: svc_R_le simp: svc_inv_def)
    then show "cache_sound (v\<lparr>redis := (redis v)(fileKey (ID f) := Some (j, ttl c))\<rparr>)"
      by (auto simp: cache_sound_def cached_def b j split: if_splits)
  qed
  then show ?thesis by (simp add: SetFile_def Inr)
qed

lemma rg_InvalidateFile:
  assumes "svc_inv E w" and "\<And>r v. svc_R E w v \<Longrightarrow> Q r v"
  shows "svc_rg E S (InvalidateFile c i) Q w"
  unfolding InvalidateFile_def
  by (rule rg_redis_write [OF assms(1) _ assms(2)])
    (auto simp: svc_inv_def cache_sound_def cached_def backed_def split: if_splits)

lemma rg_Cache_GetFile:
  assumes inv: "svc_inv E w"
    and miss: "\<And>e v. svc_R E w v \<Longrightarrow> Q (Inl e) v" "\<And>v. svc_R E w v \<Longrightarrow> Q (Inr None) v"
    and hit: "\<And>f v. svc_R E w v \<Longrightarrow> backed v f \<Longrightarrow> ID f = i \<Longrightarrow> Q (Inr (Some f)) v"
  shows "svc_rg E S (Cache_GetFile c i) Q w"
  unfolding Cache_GetFile_def redis_get_def
proof (rule svc.rg_bind, rule svc.rg_atomic)
  let ?act = "\<lambda>E w. (faulty (redisFault E (tick w))
      (Inr (if redisGone E (tick w) then None else map_option fst (redis w (fileKey i)))), w :: world)"
  fix v assume wv: "svc_R E w v"
  show g: "svc_G E S v ((snd (?act E v))\<lparr>tick := Suc (tick v)\<rparr>)" by (rule svc_quiet) simp_all
  have iv: "svc_inv E v" using wv inv by (rule svc_R_inv)
  fix u assume "svc_R E ((snd (?act E v))\<lparr>tick := Suc (tick v)\<rparr>) u"
  then have vu: "svc_R E v u" by (rule svc.R_trans [OF svc_G_R [OF g]])
  have wt: "svc_R E w t" if "svc_R E u t" for t
    by (rule svc.R_trans [OF wv svc.R_trans [OF vu that]])
  have hit': "Q (Inr (Some f)) t" if "cached v i = Some f" "svc_R E u t" for f t
  proof -
    have "backed v f" and "ID f = i" using that(1) iv by (auto simp: svc_inv_def cache_sound_def)
    moreover have "svc_R E v t" by (rule svc.R_trans [OF vu that(2)])
    ultimately show ?thesis
      using hit [OF wt [OF that(2)]] backed_mono [OF svc_R_le [OF _ iv]] by blast
  qed
  show "svc_rg E S (Return (case fst (?act E v) of
        Inl e \<Rightarrow> Inl (Wrapf ''redis get: '' e [])
      | Inr None \<Rightarrow> Inr None
      | Inr (Some data) \<Rightarrow> (case json_Unmarshal_file data of
             None \<Rightarrow> Inl (Wrapf ''unmarshal cache: '' (External ''json'') [])
           | Some file \<Rightarrow> Inr (Some file)))) Q u"
    using miss [OF wt] hit'
    by (auto simp: cached_def faulty_def split: option.splits fault.splits if_splits)
qed

end
