(* ===== verification/Isolation_Ops.thy ===== *)
theory Isolation_Ops
  imports Isolation_Rules
begin

text \<open>
  Every operation of the service, started for an owner of the set, keeps the guarantee.
\<close>

lemma svc_backed: "svc_R E w v \<Longrightarrow> svc_inv E w \<Longrightarrow> backed w f \<Longrightarrow> backed v f"
  by (rule backed_mono [OF svc_R_le])

lemma svc_settled: "svc_R E w v \<Longrightarrow> svc_inv E w \<Longrightarrow> settled w f \<Longrightarrow> settled v f"
  using settled_mono svc_R_le by blast

lemma svc_owns: "svc_R E w v \<Longrightarrow> svc_inv E w \<Longrightarrow> owns E w i ow \<Longrightarrow> owns E v i ow"
  by (rule owns_mono [OF svc_R_le])

lemma svc_db_wf: "svc_inv E w \<Longrightarrow> db_wf (pg E) (db w)"
  by (simp add: svc_inv_def)

subsection \<open>Methods of the repository\<close>

lemma rg_GetByID:
  assumes inv: "svc_inv E w"
    and err: "\<And>e v. svc_R E w v \<Longrightarrow> Q (Inl e) v"
    and ok: "\<And>f v. svc_R E w v \<Longrightarrow> backed v f \<Longrightarrow> pgUUID (pg E) i = Some (ID f) \<Longrightarrow> Q (Inr f) v"
  shows "svc_rg E S (GetByID i) Q w"
  unfolding GetByID_def
proof (rule svc.rg_bind, rule rg_sql [OF inv])
  fix v assume "svc_R E w v" "svc_inv E v"
  then show "db_wf (pg E) (snd (sql_select_file (pg E) i (db v))) \<and>
      db_le (db v) (snd (sql_select_file (pg E) i (db v))) \<and>
      foreign_kept S (db v) (snd (sql_select_file (pg E) i (db v)))"
    by (simp add: svc_db_wf)
next
  fix e v assume wv: "svc_R E w v"
  show "svc_rg E S (Return (scanFile (QueryRow_Scan (Inl e)))) Q v"
    using err svc.R_trans [OF wv] by (simp add: scanFile_def QueryRow_Scan_def)
next
  fix rows v v' u
  assume iv: "svc_inv E v" and st: "sql_select_file (pg E) i (db v) = (Inr rows, db v')"
    and vu: "svc_R E v' u" and iv': "svc_inv E v'" and wu: "svc_R E w u"
  have dbv: "db v' = db v" using st by (metis snd_conv snd_queries(1))
  obtain i' where i': "pgUUID (pg E) i = Some i'"
    and rows': "rows = (case get_row (db v) i' of None \<Rightarrow> [] | Some r \<Rightarrow> [r])"
    using sql_select_file_Inr [OF svc_db_wf [OF iv] st] by blast
  show "svc_rg E S (Return (scanFile (QueryRow_Scan (Inr rows)))) Q u"
  proof (cases "get_row (db v) i'")
    case None
    then show ?thesis
      using err svc.R_trans [OF wu] by (simp add: rows' scanFile_def QueryRow_Scan_def)
  next
    case (Some r)
    then have "backed v' r" and "ID r = i'" by (auto simp: backed_def dbv dest: get_row_ID)
    then show ?thesis
      using ok svc.R_trans [OF wu] svc_backed [OF svc.R_trans [OF vu] iv'] i'
      by (simp add: rows' Some scanFile_def QueryRow_Scan_def)
  qed
qed

lemma rg_Create:
  assumes env: "env_ok E" and inv: "svc_inv E w" and canon: "pgUUID (pg E) (ID f) = Some (ID f)"
    and err: "\<And>e v. svc_R E w v \<Longrightarrow> Q (Inl e) v"
    and ok: "\<And>v. svc_R E w v \<Longrightarrow> backed v f \<Longrightarrow> Q (Inr ()) v"
  shows "svc_rg E S (Create f) Q w"
  unfolding Create_def
proof (rule svc.rg_bind, rule rg_sql [OF inv])
  fix v assume "svc_R E w v" "svc_inv E v"
  then show "db_wf (pg E) (snd (sql_insert_file (pg E) f (db v))) \<and>
      db_le (db v) (snd (sql_insert_file (pg E) f (db v))) \<and>
      foreign_kept S (db v) (snd (sql_insert_file (pg E) f (db v)))"
    using env by (simp add: db_wf_insert db_le_insert foreign_kept_insert svc_db_wf env_ok_def)
next
  fix e v assume wv: "svc_R E w v"
  show "svc_rg E S (Return (map_sum id (\<lambda>_. ()) (Inl e))) Q v"
    using err svc.R_trans [OF wv] by simp
next
  fix n v v' u
  assume st: "sql_insert_file (pg E) f (db v) = (Inr n, db v')"
    and vu: "svc_R E v' u" and iv': "svc_inv E v'" and wu: "svc_R E w u"
  have "backed v' f"
    using sql_insert_file_Inr [OF st canon] by (simp add: backed_def)
  then show "svc_rg E S (Return (map_sum id (\<lambda>_. ()) (Inr n))) Q u"
    using ok svc.R_trans [OF wu] svc_backed [OF svc.R_trans [OF vu] iv'] by simp
qed

lemma rg_Confirm:
  assumes env: "env_ok E" and inv: "svc_inv E w" and own: "owns E w i ow" "ow \<in> S"
    and err: "\<And>e v. svc_R E w v \<Longrightarrow> Q (Inl e) v"
    and ok: "\<And>f v. svc_R E w v \<Longrightarrow> settled v f \<Longrightarrow> OwnerID f = ow \<Longrightarrow> Status f = FileStatusReady \<Longrightarrow>
      ChecksumSHA256 f = c \<Longrightarrow> Q (Inr f) v"
  shows "svc_rg E S (Confirm i c) Q w"
  unfolding Confirm_def
proof (rule svc.rg_bind, rule rg_time_Now, rule svc.rg_bind)
  fix now w1 assume w1: "svc_R E w w1"
  have inv1: "svc_inv E w1" and own1: "owns E w1 i ow"
    using svc_R_inv [OF w1 inv] svc_owns [OF w1 inv own(1)] by auto
  let ?k = "\<lambda>r. Return (case scanFile (QueryRow_Scan r) of
        Inl e \<Rightarrow> if e = PgxErrNoRows then Inl ErrNotFound else Inl e | Inr file \<Rightarrow> Inr file)"
  have err1: "svc_rg E S (Return (Inl e)) Q v" if "svc_R E w1 v" for e v
    using err svc.R_trans [OF svc.R_trans [OF w1 that]] by simp
  show "svc_rg E S (sql (\<lambda>P. sql_confirm P i c now)) (\<lambda>r. svc_rg E S (?k r) Q) w1"
  proof (rule rg_sql [OF inv1])
    fix v assume w1v: "svc_R E w1 v" and iv: "svc_inv E v"
    then show "db_wf (pg E) (snd (sql_confirm (pg E) i c now (db v))) \<and>
        db_le (db v) (snd (sql_confirm (pg E) i c now (db v))) \<and>
        foreign_kept S (db v) (snd (sql_confirm (pg E) i c now (db v)))"
      using env svc_owns [OF w1v inv1 own1] own(2)
      by (auto simp: db_wf_confirm db_le_confirm svc_db_wf env_ok_def intro: foreign_kept_confirm)
  next
    fix e v assume "svc_R E w1 v"
    then show "svc_rg E S (?k (Inl e)) Q v"
      using err1 by (simp add: scanFile_def QueryRow_Scan_def)
  next
    fix rows v v' u
    assume w1v: "svc_R E w1 v" and iv: "svc_inv E v" and st: "sql_confirm (pg E) i c now (db v) = (Inr rows, db v')"
      and vu: "svc_R E v' u" and iv': "svc_inv E v'" and w1u: "svc_R E w1 u"
    obtain u' where u': "pgUUID (pg E) i = Some u'"
      and rows: "rows = (case get_row (db v) u' of None \<Rightarrow> []
        | Some r \<Rightarrow> if Status r = FileStatusPending then [confirm_row (pg E) c now r] else [])"
      and upd: "\<forall>x. get_row (db v') x = map_option (confirmed_row (pg E) c now u') (get_row (db v) x)"
      using sql_confirm_Inr [OF svc_db_wf [OF iv] st] by blast
    show "svc_rg E S (?k (Inr rows)) Q u"
    proof (cases rows)
      case Nil
      then show ?thesis using err1 [OF w1u] by (simp add: scanFile_def QueryRow_Scan_def)
    next
      case (Cons f fs)
      then obtain r where r: "get_row (db v) u' = Some r" "f = confirm_row (pg E) c now r"
        "Status r = FileStatusPending" using rows by (auto split: option.splits if_splits)
      moreover have "OwnerID r = ow"
        using svc_owns [OF w1v inv1 own1] u' r(1) by (simp add: owns_def)
      ultimately have f: "OwnerID f = ow" "Status f = FileStatusReady" "ChecksumSHA256 f = c"
        by (simp_all add: confirm_row_def)
      from r have "get_row (db v') (ID f) = Some f"
        using upd get_row_ID [of "db v" u' r] by (simp add: confirmed_row_def)
      then have "settled v' f" by (simp add: settled_def)
      then show ?thesis
        using Cons ok f svc.R_trans [OF svc.R_trans [OF w1 w1u]] svc_settled [OF svc.R_trans [OF vu] iv']
        by (simp add: scanFile_def QueryRow_Scan_def)
    qed
  qed
qed

lemma rg_sql_any:
  assumes "svc_inv E w"
    and "\<And>v. svc_R E w v \<Longrightarrow> svc_inv E v \<Longrightarrow> db_wf (pg E) (snd (st (pg E) (db v))) \<and>
      db_le (db v) (snd (st (pg E) (db v))) \<and> foreign_kept S (db v) (snd (st (pg E) (db v)))"
    and "\<And>r v. svc_R E w v \<Longrightarrow> Q r v"
  shows "svc_rg E S (sql st) Q w"
  by (rule rg_sql [OF assms(1)]) (use assms(2,3) in blast)+

lemma rg_SoftDelete:
  assumes env: "env_ok E" and inv: "svc_inv E w" and own: "owns E w i ow" "ow \<in> S"
    and any: "\<And>r v. svc_R E w v \<Longrightarrow> Q r v"
  shows "svc_rg E S (SoftDelete i) Q w"
  unfolding SoftDelete_def
proof (rule svc.rg_bind, rule rg_time_Now, rule svc.rg_tryE)
  fix now w1 assume w1: "svc_R E w w1"
  have inv1: "svc_inv E w1" and own1: "owns E w1 i ow"
    using svc_R_inv [OF w1 inv] svc_owns [OF w1 inv own(1)] by auto
  show "svc_rg E S (sql (\<lambda>P. sql_soft_delete P i now)) (\<lambda>r v. case r of
      Inl e \<Rightarrow> \<forall>u. svc_R E v u \<longrightarrow> Q (Inl e) u
    | Inr n \<Rightarrow> svc_rg E S (Return (if n = 0 then Inl ErrNotFound else Inr ())) Q v) w1"
  proof (rule rg_sql_any [OF inv1])
    fix v assume w1v: "svc_R E w1 v" and iv: "svc_inv E v"
    then show "db_wf (pg E) (snd (sql_soft_delete (pg E) i now (db v))) \<and>
        db_le (db v) (snd (sql_soft_delete (pg E) i now (db v))) \<and>
        foreign_kept S (db v) (snd (sql_soft_delete (pg E) i now (db v)))"
      using env svc_owns [OF w1v inv1 own1] own(2)
      by (auto simp: svc_db_wf env_ok_def
          intro: db_wf_soft_delete db_le_soft_delete foreign_kept_soft_delete)
  next
    fix r :: "err + nat" and v assume "svc_R E w1 v"
    then show "case r of Inl e \<Rightarrow> \<forall>u. svc_R E v u \<longrightarrow> Q (Inl e) u
        | Inr n \<Rightarrow> svc_rg E S (Return (if n = 0 then Inl ErrNotFound else Inr ())) Q v"
      using any svc.R_trans [OF svc.R_trans [OF w1]] by (auto split: sum.split)
  qed
qed

lemma rg_SaveUploadPart:
  assumes env: "env_ok E" and inv: "svc_inv E w" and own: "owns E w i ow" "ow \<in> S"
    and any: "\<And>r v. svc_R E w v \<Longrightarrow> Q r v"
  shows "svc_rg E S (SaveUploadPart i part) Q w"
  unfolding SaveUploadPart_def
proof (rule svc.rg_bind, rule rg_sql_any [OF inv])
  fix v assume wv: "svc_R E w v" and iv: "svc_inv E v"
  then show "db_wf (pg E) (snd (sql_upsert_part (pg E) i part (db v))) \<and>
      db_le (db v) (snd (sql_upsert_part (pg E) i part (db v))) \<and>
      foreign_kept S (db v) (snd (sql_upsert_part (pg E) i part (db v)))"
    using env svc_owns [OF wv inv own(1)] own(2)
    by (auto simp: svc_db_wf env_ok_def intro: db_wf_upsert_part foreign_kept_upsert)
qed (use any svc.R_trans in auto)

lemma rg_DeleteUploadParts:
  assumes inv: "svc_inv E w" and own: "owns E w i ow" "ow \<in> S"
    and any: "\<And>r v. svc_R E w v \<Longrightarrow> Q r v"
  shows "svc_rg E S (DeleteUploadParts i) Q w"
  unfolding DeleteUploadParts_def
proof (rule svc.rg_bind, rule rg_sql_any [OF inv])
  fix v assume wv: "svc_R E w v" and iv: "svc_inv E v"
  then show "db_wf (pg E) (snd (sql_delete_parts (pg E) i (db v))) \<and>
      db_le (db v) (snd (sql_delete_parts (pg E) i (db v))) \<and>
      foreign_kept S (db v) (snd (sql_delete_parts (pg E) i (db v)))"
    using svc_owns [OF wv inv own(1)] own(2)
    by (auto simp: svc_db_wf intro: db_wf_delete_parts foreign_kept_delete_parts)
qed (use any svc.R_trans in auto)

lemma rg_Repo_ListUploadParts:
  assumes "svc_inv E w" and "\<And>r v. svc_R E w v \<Longrightarrow> Q r v"
  shows "svc_rg E S (Repo_ListUploadParts i) Q w"
  unfolding Repo_ListUploadParts_def by (rule rg_sql_any) (use assms in \<open>auto simp: svc_db_wf\<close>)

lemma rg_Repo_List:
  assumes inv: "svc_inv E w" and any: "\<And>r v. svc_R E w v \<Longrightarrow> Q r v"
  shows "svc_rg E S (Repo_List filt) Q w"
proof -
  have page: "svc_rg E S (sql (\<lambda>P. sql_select_page P ow ct ci n)) (\<lambda>r u. case r of
        Inl e \<Rightarrow> \<forall>v. svc_R E u v \<longrightarrow> Q (Inl e) v
      | Inr rows \<Rightarrow> svc_rg E S (boundedP (page_result m rows) (\<lambda>page. Return (Inr page))) Q u) v"
    if "svc_R E w v" for ow ct ci n m v
    by (rule rg_sql_any [OF svc_R_inv [OF that inv]])
      (use any svc.R_trans [OF svc.R_trans [OF that]] in \<open>auto simp: svc_db_wf split: sum.split intro!: svc.rg_boundedP\<close>)
  show ?thesis
    unfolding Repo_List_def Let_def
    by (rule svc.rg_tryE, rule svc.rg_ask)
      (use any page svc.R_trans [of E w] in \<open>auto split: sum.split intro!: svc.rg_tryE svc_quiet\<close>)
qed

subsection \<open>Events and object storage\<close>

lemma rg_Publish:
  assumes "\<And>r v. svc_R E w v \<Longrightarrow> Q r v"
  shows "svc_rg E S (Publish ev) Q w"
proof -
  have pub: "svc_rg E S (case json_Marshal_event e of
        Inl x \<Rightarrow> Return (Inl (Wrapf ''marshal event: '' x []))
      | Inr payload \<Rightarrow>
          bindP (kafka_write \<lparr>MsgKey = EventFileID e, MsgValue = payload, MsgTime = Timestamp e\<rparr>) (\<lambda>r.
          Return (case r of Inl x \<Rightarrow> Inl (Wrapf ''write kafka message: '' x []) | Inr _ \<Rightarrow> Inr ()))) Q v"
    if "svc_R E w v" for e v
    using assms svc.R_trans [OF that]
    by (auto split: sum.split intro!: svc.rg_bind rg_steps svc.rg_Return intro: svc.R_trans)
  show ?thesis
    unfolding Publish_def
    by (rule svc.rg_bind) (auto intro!: svc.rg_bind rg_time_Now svc.rg_Return pub intro: svc.R_trans)
qed

lemma rg_publishers:
  assumes "\<And>r v. svc_R E w v \<Longrightarrow> Q r v"
  shows "svc_rg E S (PublishFileCreated f) Q w" "svc_rg E S (PublishFileReady f) Q w"
    "svc_rg E S (PublishFileDeleted f) Q w"
  using assms
  by (auto simp: PublishFileCreated_def PublishFileReady_def PublishFileDeleted_def intro: rg_Publish)

lemma rg_url_closure:
  assumes "\<And>Q. (\<And>r v. svc_R E w v \<Longrightarrow> Q r v) \<Longrightarrow> svc_rg E S m Q w"
    and "\<And>r v. svc_R E w v \<Longrightarrow> Q r v"
  shows "svc_rg E S (url_closure m) Q w"
  unfolding url_closure_def
  by (rule svc.rg_tryE, rule assms(1)) (use assms(2) svc.R_trans in \<open>auto split: sum.split\<close>)

lemma rg_minio_then:
  assumes "\<And>r v. svc_R E w v \<Longrightarrow> Q r v"
  shows "svc_rg E S (bindP (minio_call q) (\<lambda>r. Return (h r))) Q w"
  by (rule svc.rg_bind, rule rg_minio_call) (use assms svc.R_trans in auto)

lemma rg_storage:
  assumes any: "\<And>r v. svc_R E w v \<Longrightarrow> Q r v"
  shows "svc_rg E S (Adapter_RemoveObject (app_storage c) k) Q w"
    and "svc_rg E S (Adapter_AbortMultipartUpload (app_storage c) k u) Q w"
    and "svc_rg E S (Adapter_CompleteMultipartUpload (app_storage c) k u ps) Q w"
  using any
  by (auto simp: adapter_defs Client_RemoveObject_def Client_AbortMultipartUpload_def
      Client_CompleteMultipartUpload_def intro!: rg_minio_then)

lemma rg_createMultipart:
  "(\<And>r v. svc_R E w v \<Longrightarrow> Q r v) \<Longrightarrow> svc_rg E S (Adapter_CreateMultipartUpload (app_storage c) k ct) Q w"
  by (auto simp: adapter_defs Client_CreateMultipartUpload_def intro!: rg_minio_then)

lemma rg_presign:
  assumes any: "\<And>r v. svc_R E w v \<Longrightarrow> Q r v"
  shows "svc_rg E S (Adapter_PresignUpload (app_storage c) k ct) Q w"
    and "svc_rg E S (Adapter_PresignDownload (app_storage c) k) Q w"
    and "svc_rg E S (Adapter_PresignUploadPart (app_storage c) k u n) Q w"
  using any
  by (auto simp: adapter_defs Client_PresignUpload_def Client_PresignDownload_def
      Client_PresignUploadPart_def intro!: rg_url_closure rg_minio_then)

subsection \<open>Reading\<close>

lemma rg_GetFile_repo:
  assumes inv: "svc_inv E w" and err: "\<And>e v. svc_R E w v \<Longrightarrow> Q (Inl e) v"
    and ok: "\<And>f v. svc_R E w v \<Longrightarrow> backed v f \<Longrightarrow> owns E v i ow \<Longrightarrow> OwnerID f = ow \<Longrightarrow> Q (Inr f) v"
  shows "svc_rg E S (GetFile_repo s i ow) Q w"
proof -
  let ?k = "\<lambda>f. if \<not> IsOwnedBy f ow then Return (Inl ErrAccessDenied)
     else if Status f = FileStatusDeleted then Return (Inl ErrNotFound)
     else discard (SetFile (cache s) f) (Return (Inr f))"
  have err': "\<forall>u. svc_R E v u \<longrightarrow> Q (Inl e) u" if "svc_R E w v" for v e
    using err svc.R_trans [OF that] by blast
  have k: "svc_rg E S (?k f) Q v"
    if wv: "svc_R E w v" and b: "backed v f" and i: "pgUUID (pg E) i = Some (ID f)" for f v
  proof -
    note iv = svc_R_inv [OF wv inv] and wR = svc.R_trans [OF wv]
    have o: "owns E v i (OwnerID f)" by (rule backed_owns [OF b i])
    have "svc_rg E S (discard (SetFile (cache s) f) (Return (Inr f))) Q v" if "OwnerID f = ow"
      using that svc.R_trans [of E v] ok [OF wR] svc_backed [OF _ iv b] svc_owns [OF _ iv o]
      by (intro svc.rg_discard rg_SetFile [OF iv b] svc.rg_Return) blast
    then show ?thesis using err' [OF wv] by (auto simp: IsOwnedBy_def)
  qed
  show ?thesis
    unfolding GetFile_repo_def
    by (rule svc.rg_tryE, rule rg_GetByID [OF inv]) (use err' k in simp_all)
qed

lemma rg_GetFile:
  assumes inv: "svc_inv E w" and err: "\<And>e v. svc_R E w v \<Longrightarrow> Q (Inl e) v"
    and ok: "\<And>f v. svc_R E w v \<Longrightarrow> backed v f \<Longrightarrow> owns E v i ow \<Longrightarrow> OwnerID f = ow \<Longrightarrow> Q (Inr f) v"
  shows "svc_rg E S (GetFile s i ow) Q w"
proof -
  have repo: "svc_rg E S (GetFile_repo s i ow) Q v" if "svc_R E w v" for v
    using err ok svc.R_trans [OF that] by (intro rg_GetFile_repo [OF svc_R_inv [OF that inv]]) blast+
  have hit: "svc_rg E S (if \<not> IsOwnedBy f ow then Return (Inl ErrAccessDenied)
      else if Status f \<noteq> FileStatusDeleted then Return (Inr f) else GetFile_repo s i ow) Q v"
    if wv: "svc_R E w v" and b: "backed v f" and i: "ID f = i" for f v
  proof -
    note iv = svc_R_inv [OF wv inv] and wR = svc.R_trans [OF wv]
    have "owns E v i (OwnerID f)" using backed_owns [OF b] backed_canonical [OF iv b] i by simp
    then show ?thesis
      using err [OF wR] ok [OF wR] repo [OF wv] svc_backed [OF _ iv b] svc_owns [OF _ iv]
      by (auto simp: IsOwnedBy_def)
  qed
  show ?thesis
  proof (cases "i = [] \<or> ow = []")
    case False
    have "svc_rg E S (bindP (Cache_GetFile (cache s) i) (\<lambda>r. case r of
        Inl e \<Rightarrow> GetFile_repo s i ow | Inr None \<Rightarrow> GetFile_repo s i ow
      | Inr (Some f) \<Rightarrow> if \<not> IsOwnedBy f ow then Return (Inl ErrAccessDenied)
          else if Status f \<noteq> FileStatusDeleted then Return (Inr f) else GetFile_repo s i ow)) Q w"
      by (rule svc.rg_bind, rule rg_Cache_GetFile [OF inv]) (use repo hit in simp_all)
    then show ?thesis using False by (simp only: GetFile_def if_False)
  qed (use err in \<open>simp add: GetFile_def\<close>)
qed

lemma rg_ListFiles:
  "svc_inv E w \<Longrightarrow> svc_rg E S (ListFiles s filt) (\<lambda>_ _. True) w"
  unfolding ListFiles_def by (rule svc.rg_guardE) (auto intro: rg_Repo_List)

lemma rg_GetDownloadURL:
  assumes "svc_inv E w"
  shows "svc_rg E S (GetDownloadURL (app_service c ch ps ms) i ow) (\<lambda>_ _. True) w"
  unfolding GetDownloadURL_def
  by (rule svc.rg_tryE, rule rg_GetFile [OF assms])
    (auto intro!: svc.rg_tryE rg_presign split: sum.split)

subsection \<open>Single uploads and deletion\<close>

lemma rg_created:
  assumes env: "env_ok E" and inv: "svc_inv E w" and f: "ID f = uuids E n"
    and err: "\<And>e v. svc_R E w v \<Longrightarrow> svc_rg E S (h e) (\<lambda>_ _. True) v"
  shows "svc_rg E S (bindP (Create f) (\<lambda>r. case r of Inl e \<Rightarrow> h e | Inr _ \<Rightarrow>
      discard (SetFile ch f) (discard (PublishFileCreated f) (Return (Inr x))))) (\<lambda>_ _. True) w"
proof (rule svc.rg_bind, rule rg_Create [OF env inv])
  show "pgUUID (pg E) (ID f) = Some (ID f)" using env f by (simp add: env_ok_def)
  fix v assume "svc_R E w v" and "backed v f"
  moreover from this(1) have "svc_inv E v" using inv by (rule svc_R_inv)
  ultimately show "svc_rg E S (case Inr () of Inl e \<Rightarrow> h e | Inr _ \<Rightarrow>
      discard (SetFile ch f) (discard (PublishFileCreated f) (Return (Inr x)))) (\<lambda>_ _. True) v"
    by (auto intro!: svc.rg_discard rg_SetFile rg_publishers)
qed (simp add: err)

lemma rg_CreateUpload:
  assumes env: "env_ok E" and inv: "svc_inv E w"
  shows "svc_rg E S (CreateUpload (app_service c ch ps ms) ow nm ct sz) (\<lambda>_ _. True) w"
proof -
  let ?f = "\<lambda>n now. new_single (app_service c ch ps ms) ow nm ct sz (uuids E n) now"
  have create: "svc_rg E S (tryE (Create (?f n now)) (\<lambda>_. discard (SetFile ch (?f n now))
      (discard (PublishFileCreated (?f n now)) (Return (Inr x))))) (\<lambda>_ _. True) v"
    if "svc_R E w v" for n now and x :: CreateUploadResult and v
    unfolding tryE_def
    by (rule rg_created [OF env svc_R_inv [OF that inv], of _ n]) (simp_all add: new_single_def)
  have presign: "svc_rg E S (tryE (Adapter_PresignUpload (app_storage c) k ct) (\<lambda>(u, t).
      tryE (Create (?f n now)) (\<lambda>_. discard (SetFile ch (?f n now))
      (discard (PublishFileCreated (?f n now)) (Return (Inr (x u t))))))) (\<lambda>_ _. True) v"
    if "svc_R E w v" for n now k and x :: "string \<Rightarrow> duration \<Rightarrow> CreateUploadResult" and v
    by (rule svc.rg_tryE, rule rg_presign) (use create svc.R_trans [OF that] in \<open>auto split: sum.split\<close>)
  show ?thesis
    unfolding CreateUpload_def Let_def app_service_simps
    by (rule svc.rg_guardE, simp, rule svc.rg_bind, rule rg_time_Now, rule svc.rg_bind,
        rule rg_uuid_NewString, rule presign, rule svc.R_trans)
qed

text \<open>
  The file that a confirmation returns, if it does, belongs to \<open>ow\<close>, is ready with the
  checksum of the call, and is what the row was and moves on from.
\<close>

definition confirmed_file :: "string \<Rightarrow> string \<Rightarrow> err + FileMetadata \<Rightarrow> world \<Rightarrow> bool" where
  "confirmed_file ow ck r v \<longleftrightarrow> (\<forall>f. r = Inr f \<longrightarrow> OwnerID f = ow \<and> Status f = FileStatusReady \<and>
     ChecksumSHA256 f = ck \<and> settled v f)"

lemma confirmed_file_simps [simp]:
  "confirmed_file ow ck (Inl e) v"
  "confirmed_file ow ck (Inr f) v \<longleftrightarrow> OwnerID f = ow \<and> Status f = FileStatusReady \<and>
     ChecksumSHA256 f = ck \<and> settled v f"
  by (simp_all add: confirmed_file_def)

text \<open>What follows a confirmation in both kinds of upload.\<close>

lemma rg_announce_ready:
  assumes inv: "svc_inv E w" and f: "settled w f" "OwnerID f = ow" "Status f = FileStatusReady" "ChecksumSHA256 f = ck"
  shows "svc_rg E S (discard (SetFile ch f) (discard (PublishFileReady f) (Return (Inr f)))) (confirmed_file ow ck) w"
proof (rule svc.rg_discard, rule rg_SetFile [OF inv settled_backed [OF f(1)]], rule svc.rg_discard, rule rg_publishers)
  fix v u assume wv: "svc_R E w v" and vu: "svc_R E v u"
  have "settled t f" if "svc_R E u t" for t
    using svc_settled [OF svc.R_trans [OF svc.R_trans [OF wv vu] that] inv f(1)] .
  then show "svc_rg E S (Return (Inr f)) (confirmed_file ow ck) u" using f by simp
qed

lemma rg_ConfirmUpload:
  assumes env: "env_ok E" and inv: "svc_inv E w" and S: "ow \<in> S"
  shows "svc_rg E S (ConfirmUpload s i ow ck) (confirmed_file ow ck) w"
proof -
  have conf: "svc_rg E S (tryE (Confirm i ck) (\<lambda>file. discard (SetFile (cache s) file)
      (discard (PublishFileReady file) (Return (Inr file))))) (confirmed_file x ck) v"
    if x: "ow = x" and v: "svc_R E w v" and o: "owns E v i x" for v x
    by (rule svc.rg_tryE, rule rg_Confirm [OF env svc_R_inv [OF v inv] o])
      (use S x rg_announce_ready svc_R_inv [OF _ svc_R_inv [OF v inv]] in simp_all)
  show ?thesis
    unfolding ConfirmUpload_def
    by (auto intro!: svc.rg_guardE svc.rg_tryE [of "GetByID _"] rg_GetByID [OF inv] conf
        dest: backed_owns simp: IsOwnedBy_def)
qed

lemma rg_invalidate_publish:
  assumes "svc_inv E w"
  shows "svc_rg E S (discard (InvalidateFile ch i) (bindP time_Now (\<lambda>now.
     discard (PublishFileDeleted (g now)) (Return (Inr ()))))) (\<lambda>_ _. True) w"
  using assms
  by (auto intro!: svc.rg_discard rg_InvalidateFile svc.rg_bind rg_time_Now rg_publishers)

lemma rg_DeleteFile:
  assumes env: "env_ok E" and inv: "svc_inv E w" and S: "ow \<in> S"
  shows "svc_rg E S (DeleteFile (app_service c ch ps ms) i ow) (\<lambda>_ _. True) w"
proof -
  let ?clean = "\<lambda>b k u. if b then discard (Adapter_AbortMultipartUpload (app_storage c) k u) (DeleteUploadParts i)
      else Adapter_RemoveObject (app_storage c) k"
  let ?wrap = "\<lambda>g. discard (InvalidateFile ch i) (bindP time_Now (\<lambda>now.
      discard (PublishFileDeleted (g now)) (Return (Inr ()))))"
  have clean: "svc_rg E S (discard (?clean b k u) (?wrap g)) (\<lambda>_ _. True) v"
    if iv: "svc_inv E v" and o: "owns E v i ow" for b k u g v
  proof -
    have fin: "svc_rg E S (?wrap g) (\<lambda>_ _. True) x" if "svc_R E v x" for x
      by (rule rg_invalidate_publish [OF svc_R_inv [OF that iv]])
    have parts: "svc_rg E S (DeleteUploadParts i) (\<lambda>_. svc_rg E S (?wrap g) (\<lambda>_ _. True)) x"
      if "svc_R E v x" for x
      by (rule rg_DeleteUploadParts [OF svc_R_inv [OF that iv] svc_owns [OF that iv o] S])
        (rule fin, rule svc.R_trans [OF that])
    show ?thesis
      by (rule svc.rg_discard) (auto intro!: rg_storage svc.rg_discard fin parts)
  qed
  have del: "svc_rg E S (tryE (SoftDelete i) (\<lambda>_. discard (?clean b k u) (?wrap g))) (\<lambda>_ _. True) v"
    if v: "svc_R E w v" and o: "owns E v i ow" for b k u g v
  proof (rule svc.rg_tryE, rule rg_SoftDelete [OF env svc_R_inv [OF v inv] o S])
    fix r :: "err + unit" and x assume x: "svc_R E v x"
    note iv = svc_R_inv [OF v inv]
    show "case r of Inl e \<Rightarrow> \<forall>u. svc_R E x u \<longrightarrow> True
        | Inr _ \<Rightarrow> svc_rg E S (discard (?clean b k u) (?wrap g)) (\<lambda>_ _. True) x"
      using clean [OF svc_R_inv [OF x iv] svc_owns [OF x iv o], of b k u g] by (cases r) simp_all
  qed
  show ?thesis
    unfolding DeleteFile_def
    by (rule svc.rg_tryE, rule rg_GetFile [OF inv], simp)
      (simp only: sum.case app_service_simps del)
qed

end
