(* ===== verification/Isolation_Multipart.thy ===== *)
theory Isolation_Multipart
  imports Isolation_Ops
begin

text \<open>The operations on uploads in parts keep the guarantee too.\<close>

lemma rg_getPendingMultipart:
  assumes inv: "svc_inv E w" and err: "\<And>e v. svc_R E w v \<Longrightarrow> Q (Inl e) v"
    and ok: "\<And>f v. svc_R E w v \<Longrightarrow> svc_inv E v \<Longrightarrow> backed v f \<Longrightarrow> owns E v i ow \<Longrightarrow>
      owns E v (ID f) ow \<Longrightarrow> Q (Inr f) v"
  shows "svc_rg E S (getPendingMultipart s i ow) Q w"
proof -
  have k: "svc_rg E S (if \<not> IsOwnedBy f ow then Return (Inl ErrAccessDenied)
        else if Status f \<noteq> FileStatusPending then Return (Inl ErrNotFound)
        else if \<not> IsMultipart f \<or> UploadID f = []
        then Return (Inl (Wrapf [] ErrInvalidInput '': not a multipart upload''))
        else Return (Inr f)) Q v"
    if wv: "svc_R E w v" and b: "backed v f" and i: "pgUUID (pg E) i = Some (ID f)" for f v
  proof -
    note iv = svc_R_inv [OF wv inv] and wR = svc.R_trans [OF wv]
    have o: "owns E v i (OwnerID f)" by (rule backed_owns [OF b i])
    have o': "owns E v (ID f) (OwnerID f)" by (rule backed_owns [OF b backed_canonical [OF iv b]])
    show ?thesis
      using err [OF wR] ok [OF wR] svc_R_inv [OF _ iv] svc_backed [OF _ iv b] svc_owns [OF _ iv o]
        svc_owns [OF _ iv o'] by (auto simp: IsOwnedBy_def)
  qed
  have err': "\<forall>u. svc_R E v u \<longrightarrow> Q (Inl e) u" if "svc_R E w v" for v e
    using err svc.R_trans [OF that] by blast
  have "svc_rg E S (tryE (GetByID i) (\<lambda>f. if \<not> IsOwnedBy f ow then Return (Inl ErrAccessDenied)
        else if Status f \<noteq> FileStatusPending then Return (Inl ErrNotFound)
        else if \<not> IsMultipart f \<or> UploadID f = []
        then Return (Inl (Wrapf [] ErrInvalidInput '': not a multipart upload''))
        else Return (Inr f))) Q w"
    by (rule svc.rg_tryE, rule rg_GetByID [OF inv]) (use err' k in simp_all)
  then show ?thesis
    unfolding getPendingMultipart_def using err by (cases "i = [] \<or> ow = []") simp_all
qed

text \<open>The common shape: an operation on a pending upload of the owner.\<close>

lemma rg_pending:
  assumes inv: "svc_inv E w"
    and k: "\<And>f v. svc_R E w v \<Longrightarrow> svc_inv E v \<Longrightarrow> backed v f \<Longrightarrow> owns E v i ow \<Longrightarrow>
      owns E v (ID f) ow \<Longrightarrow> svc_rg E S (k f) Q v"
    and err: "\<And>e v. Q (Inl e) v"
  shows "svc_rg E S (tryE (getPendingMultipart s i ow) k) Q w"
  by (rule svc.rg_tryE, rule rg_getPendingMultipart [OF inv]) (simp_all add: k err)

lemma rg_GetPartUploadURL:
  assumes "svc_inv E w"
  shows "svc_rg E S (GetPartUploadURL (app_service c ch ps ms) i ow n) (\<lambda>_ _. True) w"
  unfolding GetPartUploadURL_def
  by (rule rg_pending [OF assms])
    (auto intro!: svc.rg_guardE svc.rg_tryE rg_presign split: sum.split option.split)

lemma rg_ListUploadParts:
  assumes "svc_inv E w"
  shows "svc_rg E S (ListUploadParts s i ow) (\<lambda>_ _. True) w"
  unfolding ListUploadParts_def
  by (rule rg_pending [OF assms])
    (auto intro!: svc.rg_tryE rg_Repo_ListUploadParts split: sum.split)

lemma rg_ReportPartUploaded:
  assumes env: "env_ok E" and inv: "svc_inv E w" and S: "ow \<in> S"
  shows "svc_rg E S (ReportPartUploaded s i ow n etag) (\<lambda>_ _. True) w"
proof -
  have save: "svc_rg E S (bindP time_Now (\<lambda>now. tryE (SaveUploadPart j (p now))
      (\<lambda>_. Return (Inr (p now))))) (\<lambda>_ _. True) v"
    if iv: "svc_inv E v" and o: "owns E v j ow" for j p v
  proof (rule svc.rg_bind, rule rg_time_Now, rule svc.rg_tryE)
    fix now x assume x: "svc_R E v x"
    show "svc_rg E S (SaveUploadPart j (p now)) (\<lambda>r u. case r of
        Inl e \<Rightarrow> \<forall>t. svc_R E u t \<longrightarrow> True
      | Inr _ \<Rightarrow> svc_rg E S (Return (Inr (p now))) (\<lambda>_ _. True) u) x"
      by (rule rg_SaveUploadPart [OF env svc_R_inv [OF x iv] svc_owns [OF x iv o] S])
        (simp split: sum.split)
  qed
  show ?thesis
    unfolding ReportPartUploaded_def Let_def
    by (rule rg_pending [OF inv]) (auto intro!: svc.rg_guardE save)
qed

lemma rg_CreateMultipartUpload:
  assumes env: "env_ok E" and inv: "svc_inv E w"
  shows "svc_rg E S (CreateMultipartUpload (app_service c ch ps ms) ow nm ct sz) (\<lambda>_ _. True) w"
proof -
  let ?s = "app_service c ch ps ms"
  let ?f = "\<lambda>n now u. new_multipart ?s ow nm ct sz (uuids E n) now u"
  let ?k = "\<lambda>n now u. bindP (Create (?f n now u)) (\<lambda>r. case r of
       Inl e \<Rightarrow> discard (Adapter_AbortMultipartUpload (app_storage c) (objectKeyFor ow (uuids E n) nm) u) (Return (Inl e))
     | Inr _ \<Rightarrow> discard (SetFile ch (?f n now u)) (discard (PublishFileCreated (?f n now u))
         (Return (Inr \<lparr>MpMetadata = ?f n now u, MpUploadID = u, MpPartSize = ps,
            MpTotalParts = TotalParts (?f n now u)\<rparr>))))"
  have create: "svc_rg E S (?k n now u) (\<lambda>_ _. True) v" if "svc_R E w v" for n now u v
    by (rule rg_created [OF env svc_R_inv [OF that inv], of _ n])
      (auto simp: new_multipart_def intro!: svc.rg_discard rg_storage)
  have start: "svc_rg E S (tryE (Adapter_CreateMultipartUpload (app_storage c) (objectKeyFor ow (uuids E n) nm) ct)
      (?k n now)) (\<lambda>_ _. True) v" if "svc_R E w v" for n now v
    by (rule svc.rg_tryE, rule rg_createMultipart)
      (use create svc.R_trans [OF that] in \<open>simp split: sum.split\<close>)
  have "svc_rg E S (bindP time_Now (\<lambda>now. bindP uuid_NewString (\<lambda>i.
      tryE (Adapter_CreateMultipartUpload (app_storage c) (objectKeyFor ow i nm) ct) (\<lambda>u.
      bindP (Create (new_multipart ?s ow nm ct sz i now u)) (\<lambda>r. case r of
       Inl e \<Rightarrow> discard (Adapter_AbortMultipartUpload (app_storage c) (objectKeyFor ow i nm) u) (Return (Inl e))
     | Inr _ \<Rightarrow> discard (SetFile ch (new_multipart ?s ow nm ct sz i now u))
         (discard (PublishFileCreated (new_multipart ?s ow nm ct sz i now u))
         (Return (Inr \<lparr>MpMetadata = new_multipart ?s ow nm ct sz i now u, MpUploadID = u,
            MpPartSize = ps, MpTotalParts = TotalParts (new_multipart ?s ow nm ct sz i now u)\<rparr>))))))))
      (\<lambda>_ _. True) w"
    by (rule svc.rg_bind, rule rg_time_Now, rule svc.rg_bind, rule rg_uuid_NewString,
        rule start, rule svc.R_trans)
  then show ?thesis
    unfolding CreateMultipartUpload_def Let_def app_service_simps
    by (intro svc.rg_guardE) simp_all
qed

lemma rg_CompleteMultipartUpload:
  assumes env: "env_ok E" and inv: "svc_inv E w" and S: "ow \<in> S"
  shows "svc_rg E S (CompleteMultipartUpload (app_service c ch ps ms) i ow ck) (confirmed_file ow ck) w"
proof -
  let ?fin = "\<lambda>f. discard (DeleteUploadParts i) (discard (SetFile ch f)
      (discard (PublishFileReady f) (Return (Inr f) :: (err + FileMetadata) prog)))"
  have fin: "svc_rg E S (?fin f) (confirmed_file ow ck) v"
    if iv: "svc_inv E v" and o: "owns E v i ow" and b: "settled v f"
      and f: "OwnerID f = ow" "Status f = FileStatusReady" "ChecksumSHA256 f = ck" for f v
    by (rule svc.rg_discard, rule rg_DeleteUploadParts [OF iv o S])
      (use f rg_announce_ready svc_R_inv [OF _ iv] svc_settled [OF _ iv b] in blast)
  have conf: "svc_rg E S (tryE (Confirm i ck) ?fin) (confirmed_file ow ck) v"
    if iv: "svc_inv E v" and o: "owns E v i ow" for v
    by (rule svc.rg_tryE, rule rg_Confirm [OF env iv o S])
      (use fin svc_R_inv [OF _ iv] svc_owns [OF _ iv o] in simp_all)
  have comp: "svc_rg E S (tryE (Adapter_CompleteMultipartUpload (app_storage c) k u cs)
      (\<lambda>_. tryE (Confirm i ck) ?fin)) (confirmed_file ow ck) v"
    if iv: "svc_inv E v" and o: "owns E v i ow" for k u cs v
    by (rule svc.rg_tryE, rule rg_storage)
      (use conf svc_R_inv [OF _ iv] svc_owns [OF _ iv o] in \<open>simp split: sum.split\<close>)
  show ?thesis
    unfolding CompleteMultipartUpload_def Let_def app_service_simps
  proof (cases "i = [] \<or> ow = []")
    case True
    then show "svc_rg E S (if i = [] \<or> ow = [] then Return (Inl ErrInvalidInput)
        else guardE (ChecksumSHA256_check ck) p) (confirmed_file ow ck) w" for p by simp
  qed (auto intro!: svc.rg_guardE rg_pending [OF inv] svc.rg_tryE [of "Repo_ListUploadParts _"]
      rg_Repo_ListUploadParts comp split: sum.split intro: svc_R_inv svc_owns)
qed

lemma rg_AbortMultipartUpload:
  assumes env: "env_ok E" and inv: "svc_inv E w" and S: "ow \<in> S"
  shows "svc_rg E S (AbortMultipartUpload (app_service c ch ps ms) i ow) (\<lambda>_ _. True) w"
proof -
  let ?wrap = "\<lambda>g. discard (InvalidateFile ch i) (bindP time_Now (\<lambda>now.
      discard (PublishFileDeleted (g now)) (Return (Inr ()))))"
  have del: "svc_rg E S (tryE (SoftDelete i) (\<lambda>_. ?wrap g)) (\<lambda>_ _. True) v"
    if iv: "svc_inv E v" and o: "owns E v i ow" for g v
    by (rule svc.rg_tryE, rule rg_SoftDelete [OF env iv o S])
      (use svc_R_inv [OF _ iv] in \<open>auto split: sum.split intro: rg_invalidate_publish\<close>)
  have parts: "svc_rg E S (discard (DeleteUploadParts j) (tryE (SoftDelete i) (\<lambda>_. ?wrap g)))
      (\<lambda>_ _. True) v"
    if iv: "svc_inv E v" and o: "owns E v i ow" and o': "owns E v j ow" for g j v
    by (rule svc.rg_discard, rule rg_DeleteUploadParts [OF iv o' S])
      (use del svc_R_inv [OF _ iv] svc_owns [OF _ iv o] in blast)
  have abort: "svc_rg E S (discard (Adapter_AbortMultipartUpload (app_storage c) k u)
      (discard (DeleteUploadParts j) (tryE (SoftDelete i) (\<lambda>_. ?wrap g)))) (\<lambda>_ _. True) v"
    if iv: "svc_inv E v" and o: "owns E v i ow" and o': "owns E v j ow" for g j k u v
    by (rule svc.rg_discard, rule rg_storage)
      (use parts svc_R_inv [OF _ iv] svc_owns [OF _ iv o] svc_owns [OF _ iv o'] in blast)
  show ?thesis
    unfolding AbortMultipartUpload_def app_service_simps
    by (rule rg_pending [OF inv]) (rule abort, simp_all)
qed

end
