(* ===== verification/Auth.thy ===== *)
theory Auth
  imports Effects
begin

text \<open>
  \<open>src/internal/auth/context.go\<close>: the owner of a request, from the bearer token and from the
  request itself. The request context holds what the program reads from it: the owner stored by
  the interceptor, the incoming metadata and the address of the peer.
\<close>

datatype code =
    OK | InvalidArgument | NotFound | AlreadyExists | PermissionDenied | ResourceExhausted
  | Internal | Unauthenticated

type_synonym status = "code \<times> string"

record rpc_context =
  ctxOwner :: "string option"
  ctxMetadata :: "(string \<Rightarrow> string list) option"
  ctxPeer :: "string option"

record AuthConfig =
  Enabled :: bool
  HMACSecret :: string
  Issuer :: string
  Audience :: string

definition OwnerIDFromContext :: "rpc_context \<Rightarrow> string \<times> bool" where
  "OwnerIDFromContext ctx =
     (case ctxOwner ctx of None \<Rightarrow> ([], False) | Some v \<Rightarrow> (v, v \<noteq> []))"

definition WithOwnerID :: "rpc_context \<Rightarrow> string \<Rightarrow> rpc_context" where
  "WithOwnerID ctx ownerID = ctx\<lparr>ctxOwner := Some ownerID\<rparr>"

definition isPublicMethod :: "string \<Rightarrow> bool" where
  "isPublicMethod fullMethod = HasPrefix fullMethod ''/grpc.health.v1.Health/''"

text \<open>
  The first value with the scheme \<open>bearer\<close>, in any case, gives the token. \<open>None\<close> is the
  panic of a slice out of range.
\<close>

fun bearerToken :: "string list \<Rightarrow> string option" where
  "bearerToken [] = Some []"
| "bearerToken (x # xs) =
     (let v = TrimSpace x
      in if HasPrefix (ToLower v) ''bearer '' then map_option TrimSpace (slice_from v 7)
         else bearerToken xs)"

lemma bearerToken_bounded: "\<exists>t. bearerToken vs = Some t"
proof (induction vs)
  case (Cons x xs)
  have "7 \<le> length v" if "HasPrefix (ToLower v) ''bearer ''" for v
    using that by (auto simp: HasPrefix_iff ToLower_def dest: arg_cong [of _ _ length])
  then show ?case using Cons by (auto simp: Let_def slice_from_def)
qed simp

text \<open>The key function passed to the parser accepts one signing method only.\<close>

definition keyFor :: "AuthConfig \<Rightarrow> string \<Rightarrow> err + string" where
  "keyFor cfg alg =
     (if alg \<noteq> ''HS256'' then Inl (NewError (''unexpected signing method: '' @ alg))
      else Inr (HMACSecret cfg))"

definition jwt_ParseWithClaims ::
  "string \<Rightarrow> (string \<Rightarrow> err + string) \<Rightarrow> string \<Rightarrow> string \<Rightarrow> (string \<times> string) option prog" where
  "jwt_ParseWithClaims token kf issuer audience =
     atomic (\<lambda>E w. (jwtParse E (tick w) token kf issuer audience, w))"

definition claims_owner :: "string \<times> string \<Rightarrow> string" where
  "claims_owner c = (if fst c = [] then snd c else fst c)"

definition extractOwnerFromMetadata :: "rpc_context \<Rightarrow> AuthConfig \<Rightarrow> (status + string) prog" where
  "extractOwnerFromMetadata ctx cfg =
     (case ctxMetadata ctx of
        None \<Rightarrow> Return (Inl (Unauthenticated, ''missing metadata''))
      | Some md \<Rightarrow>
          boundedP (bearerToken (md ''authorization'')) (\<lambda>token.
              if token = [] then Return (Inl (Unauthenticated, ''missing bearer token''))
              else
                bindP (jwt_ParseWithClaims token (keyFor cfg) (Issuer cfg) (Audience cfg)) (\<lambda>r.
                case r of
                  None \<Rightarrow> Return (Inl (Unauthenticated, ''invalid token''))
                | Some claims \<Rightarrow>
                    (let ownerID = claims_owner claims
                     in if ownerID = []
                        then Return (Inl (Unauthenticated, ''token missing owner identity''))
                        else Return (Inr ownerID)))))"

text \<open>An interceptor takes the method, the next handler and the context.\<close>

type_synonym 'a interceptor = "string \<Rightarrow> (rpc_context \<Rightarrow> (status + 'a) prog) \<Rightarrow> rpc_context \<Rightarrow> (status + 'a) prog"

definition AuthInterceptor :: "AuthConfig \<Rightarrow> 'a interceptor" where
  "AuthInterceptor cfg fullMethod handler ctx =
     (if \<not> Enabled cfg \<or> isPublicMethod fullMethod then handler ctx
      else
        tryE (extractOwnerFromMetadata ctx cfg) (\<lambda>ownerID.
        handler (WithOwnerID ctx ownerID)))"

definition ResolveOwnerID :: "rpc_context \<Rightarrow> string \<Rightarrow> err + string" where
  "ResolveOwnerID ctx requestOwnerID =
     (case OwnerIDFromContext ctx of
        (authOwner, True) \<Rightarrow>
          if requestOwnerID \<noteq> [] \<and> requestOwnerID \<noteq> authOwner
          then Inl (NewError ''owner_id mismatch'') else Inr authOwner
      | (_, False) \<Rightarrow> Inr requestOwnerID)"

end
