(* ===== verification/Middleware.thy ===== *)
theory Middleware
  imports Auth
begin

text \<open>
  \<open>src/internal/grpc/middleware\<close>, \<open>src/internal/audit/audit.go\<close> and the chain that
  \<open>src/internal/app/app.go\<close> builds: panic recovery, logging, metrics, authentication, rate
  limiting and the audit of denied requests.
\<close>

subsection \<open>Audit log\<close>

definition clientIP :: "rpc_context \<Rightarrow> string" where
  "clientIP ctx = (case ctxPeer ctx of Some a \<Rightarrow> a | None \<Rightarrow> ''unknown'')"

definition Audit_Log :: "rpc_context \<Rightarrow> string \<Rightarrow> (string \<times> string) list \<Rightarrow> unit prog" where
  "Audit_Log ctx event attrs =
     emit (AuditLog event ([(''event'', event), (''client_ip'', clientIP ctx)] @ attrs))"

subsection \<open>Recovery, logging, metrics\<close>

primrec code_String :: "code \<Rightarrow> string" where
  "code_String OK = ''OK''"
| "code_String InvalidArgument = ''InvalidArgument''"
| "code_String NotFound = ''NotFound''"
| "code_String AlreadyExists = ''AlreadyExists''"
| "code_String PermissionDenied = ''PermissionDenied''"
| "code_String ResourceExhausted = ''ResourceExhausted''"
| "code_String Internal = ''Internal''"
| "code_String Unauthenticated = ''Unauthenticated''"

definition result_code :: "status + 'a \<Rightarrow> code" where
  "result_code r = (case r of Inl e \<Rightarrow> fst e | Inr _ \<Rightarrow> OK)"

definition RecoveryInterceptor :: "'a interceptor" where
  "RecoveryInterceptor fullMethod handler ctx =
     recover (handler ctx) (\<lambda>r.
       discard (emit (PanicLog fullMethod r)) (Return (Inl (Internal, ''internal error''))))"

definition LoggingInterceptor :: "'a interceptor" where
  "LoggingInterceptor fullMethod handler ctx =
     bindP time_Now (\<lambda>start.
     bindP (handler ctx) (\<lambda>r.
     bindP time_Now (\<lambda>now.
     discard (emit (RequestLog fullMethod (code_String (result_code r)) ((now - start) sdiv 1000000)))
       (Return r))))"

definition MetricsInterceptor :: "'a interceptor" where
  "MetricsInterceptor fullMethod handler ctx =
     bindP time_Now (\<lambda>start.
     bindP (handler ctx) (\<lambda>r.
     discard (emit (RequestCount fullMethod (code_String (result_code r)))) (
     bindP time_Now (\<lambda>now.
     discard (emit (RequestLatency fullMethod (now - start))) (Return r)))))"

definition AuditDeniedInterceptor :: "'a interceptor" where
  "AuditDeniedInterceptor fullMethod handler ctx =
     bindP (handler ctx) (\<lambda>r.
     if result_code r = PermissionDenied
     then discard (Audit_Log ctx ''auth.denied''
            [(''method'', fullMethod), (''owner_id'', fst (OwnerIDFromContext ctx))]) (Return r)
     else Return r)"

subsection \<open>Rate limiting\<close>

record RateLimiter =
  rps :: float64
  burst :: int

definition NewRateLimiter :: "float64 \<Rightarrow> int \<Rightarrow> RateLimiter" where
  "NewRateLimiter r b = \<lparr>rps = r, burst = (if b < 1 then 1 else b)\<rparr>"

text \<open>\<open>get\<close> runs under the mutex: it makes the limiter of a key on its first use.\<close>

definition limiter_get :: "string \<Rightarrow> unit prog" where
  "limiter_get key = atomic (\<lambda>E w.
     ((), case limits w key of None \<Rightarrow> w\<lparr>limits := (limits w)(key := Some [])\<rparr> | Some _ \<Rightarrow> w))"

definition limiter_Allow :: "RateLimiter \<Rightarrow> string \<Rightarrow> bool prog" where
  "limiter_Allow rl key = atomic (\<lambda>E w.
     (case limits w key of
        None \<Rightarrow> (False, w)
      | Some asked \<Rightarrow>
          (rateAllow E (rps rl) (burst rl) asked (tick w),
           w\<lparr>limits := (limits w)(key := Some (asked @ [tick w]))\<rparr>)))"

definition RateLimitInterceptor :: "RateLimiter \<Rightarrow> 'a interceptor" where
  "RateLimitInterceptor rl fullMethod handler ctx =
     (let key = (case OwnerIDFromContext ctx of (ownerID, ok) \<Rightarrow> if ok then ownerID else ''anonymous'')
      in discard (limiter_get key) (
         bindP (limiter_Allow rl key) (\<lambda>allowed.
         if \<not> allowed then Return (Inl (ResourceExhausted, ''rate limit exceeded''))
         else handler ctx)))"

subsection \<open>The chain\<close>

text \<open>\<open>grpc.ChainUnaryInterceptor\<close>: the first interceptor is the outermost.\<close>

fun ChainUnaryInterceptor :: "'a interceptor list \<Rightarrow> 'a interceptor" where
  "ChainUnaryInterceptor [] m h ctx = h ctx"
| "ChainUnaryInterceptor (i # is) m h ctx = i m (ChainUnaryInterceptor is m h) ctx"

definition app_chain :: "AuthConfig \<Rightarrow> RateLimiter \<Rightarrow> 'a interceptor" where
  "app_chain cfg rl = ChainUnaryInterceptor
     [RecoveryInterceptor, LoggingInterceptor, MetricsInterceptor, AuthInterceptor cfg,
      RateLimitInterceptor rl, AuditDeniedInterceptor]"

end
