(* ===== verification/Grpc_Handler.thy ===== *)
theory Grpc_Handler
  imports Multipart_Service Middleware
begin

text \<open>
  \<open>src/internal/grpc/handler.go\<close>: the twelve methods of the gRPC service, the mapping of the
  metadata to its message and of the errors to status codes. The messages are those of
  \<open>src/api/proto/file/v1/file.proto\<close>.
\<close>

subsection \<open>Messages\<close>

datatype ProtoStatus =
    FILE_STATUS_UNSPECIFIED | FILE_STATUS_PENDING | FILE_STATUS_READY | FILE_STATUS_DELETED

datatype ProtoUploadMode =
    UPLOAD_MODE_UNSPECIFIED | UPLOAD_MODE_SINGLE | UPLOAD_MODE_MULTIPART

text \<open>A \<open>timestamppb.Timestamp\<close>: seconds and nanoseconds of an instant.\<close>

type_synonym timestamp = "int \<times> int"

definition timestamppb_New :: "time \<Rightarrow> timestamp" where
  "timestamppb_New t = (t div 1000000000, t mod 1000000000)"

record ProtoFile =
  pbId :: string
  pbOwnerId :: string
  pbBucket :: string
  pbObjectKey :: string
  pbOriginalName :: string
  pbContentType :: string
  pbSizeBytes :: int64
  pbChecksumSha256 :: string
  pbStatus :: ProtoStatus
  pbCreatedAt :: timestamp
  pbUpdatedAt :: timestamp
  pbUploadMode :: ProtoUploadMode
  pbPartSizeBytes :: int64
  pbTotalParts :: int32

record PartInfo =
  piPartNumber :: int32
  piEtag :: string
  piUploadedAt :: timestamp

datatype request =
    CreateUploadRequest (rqOwner: string) string string int64
  | ConfirmUploadRequest string (rqOwner: string) string
  | CreateMultipartUploadRequest (rqOwner: string) string string int64
  | GetPartUploadURLRequest string (rqOwner: string) int32
  | ReportPartUploadedRequest string (rqOwner: string) int32 string
  | ListUploadPartsRequest string (rqOwner: string)
  | CompleteMultipartUploadRequest string (rqOwner: string) string
  | AbortMultipartUploadRequest string (rqOwner: string)
  | GetFileRequest string (rqOwner: string)
  | ListFilesRequest (rqOwner: string) int32 string
  | GetDownloadURLRequest string (rqOwner: string)
  | DeleteFileRequest string (rqOwner: string)

datatype response =
    CreateUploadResponse ProtoFile string int64
  | FileMetadataResponse ProtoFile
  | CreateMultipartUploadResponse ProtoFile string int64 int32
  | GetPartUploadURLResponse string int64 int32 int64
  | ReportPartUploadedResponse int32 string
  | ListUploadPartsResponse string int64 int32 "PartInfo list"
  | AbortMultipartUploadResponse bool
  | ListFilesResponse "ProtoFile list" string
  | GetDownloadURLResponse string int64
  | DeleteFileResponse bool

subsection \<open>Conversions\<close>

definition toProtoUploadMode :: "UploadMode_t \<Rightarrow> ProtoUploadMode" where
  "toProtoUploadMode mode =
     (if mode = UploadModeSingle then UPLOAD_MODE_SINGLE
      else if mode = UploadModeMultipart then UPLOAD_MODE_MULTIPART
      else UPLOAD_MODE_UNSPECIFIED)"

definition toProtoStatus :: "FileStatus \<Rightarrow> ProtoStatus" where
  "toProtoStatus st =
     (if st = FileStatusPending then FILE_STATUS_PENDING
      else if st = FileStatusReady then FILE_STATUS_READY
      else if st = FileStatusDeleted then FILE_STATUS_DELETED
      else FILE_STATUS_UNSPECIFIED)"

definition toProtoFile :: "FileMetadata \<Rightarrow> ProtoFile" where
  "toProtoFile f =
     \<lparr>pbId = ID f, pbOwnerId = OwnerID f, pbBucket = Bucket f, pbObjectKey = ObjectKey f,
      pbOriginalName = OriginalName f, pbContentType = ContentType f, pbSizeBytes = SizeBytes f,
      pbChecksumSha256 = ChecksumSHA256 f, pbStatus = toProtoStatus (Status f),
      pbCreatedAt = timestamppb_New (CreatedAt f), pbUpdatedAt = timestamppb_New (UpdatedAt f),
      pbUploadMode = toProtoUploadMode (UploadMode f), pbPartSizeBytes = PartSize f,
      pbTotalParts = TotalParts f\<rparr>"

definition mapError :: "err \<Rightarrow> status" where
  "mapError e =
     (if errors_Is e ErrNotFound then (NotFound, Error e)
      else if errors_Is e ErrAccessDenied then (PermissionDenied, Error e)
      else if errors_Is e ErrInvalidInput then (InvalidArgument, Error e)
      else if errors_Is e ErrAlreadyExists then (AlreadyExists, Error e)
      else (Internal, ''internal error''))"

text \<open>
  \<open>int64(d.Seconds())\<close>. \<open>Seconds\<close> is a \<open>float64\<close>; below \<open>2\<^sup>2\<^sup>2\<close> seconds its
  spacing is under a nanosecond and the conversion truncates exactly as written here.
\<close>

definition duration_seconds :: "duration \<Rightarrow> int64" where
  "duration_seconds d = word_of_int (d sdiv 1000000000)"

subsection \<open>Handlers\<close>

definition handler_ownerID :: "rpc_context \<Rightarrow> string \<Rightarrow> status + string" where
  "handler_ownerID ctx requestOwnerID =
     (case ResolveOwnerID ctx requestOwnerID of
        Inl _ \<Rightarrow> Inl (PermissionDenied, ''owner_id mismatch'')
      | Inr ownerID \<Rightarrow>
          if ownerID = [] then Inl (InvalidArgument, ''owner_id is required'') else Inr ownerID)"

text \<open>A call of the service: its error is mapped to a status.\<close>

definition call_svc :: "(err + 'a) prog \<Rightarrow> ('a \<Rightarrow> (status + 'b) prog) \<Rightarrow> (status + 'b) prog" where
  "call_svc m k = bindP m (\<lambda>r. case r of Inl e \<Rightarrow> Return (Inl (mapError e)) | Inr x \<Rightarrow> k x)"

definition h_CreateUpload :: "FileService \<Rightarrow> rpc_context \<Rightarrow> string \<Rightarrow> string \<Rightarrow> string \<Rightarrow> int64 \<Rightarrow> (status + response) prog" where
  "h_CreateUpload s ctx reqOwner name ctype sizeBytes =
     tryE (Return (handler_ownerID ctx reqOwner)) (\<lambda>ownerID.
     call_svc (CreateUpload s ownerID name ctype sizeBytes) (\<lambda>result.
     discard (Audit_Log ctx ''file.created'' [(''owner_id'', ownerID), (''file_id'', ID (Metadata result))]) (
     Return (Inr (CreateUploadResponse (toProtoFile (Metadata result)) (UploadURL result)
       (duration_seconds (ExpiresIn result)))))))"

definition h_ConfirmUpload :: "FileService \<Rightarrow> rpc_context \<Rightarrow> string \<Rightarrow> string \<Rightarrow> string \<Rightarrow> (status + response) prog" where
  "h_ConfirmUpload s ctx i reqOwner checksum =
     tryE (Return (handler_ownerID ctx reqOwner)) (\<lambda>ownerID.
     call_svc (ConfirmUpload s i ownerID checksum) (\<lambda>file.
     discard (Audit_Log ctx ''upload.confirmed'' [(''owner_id'', ownerID), (''file_id'', ID file)]) (
     Return (Inr (FileMetadataResponse (toProtoFile file))))))"

definition h_GetFile :: "FileService \<Rightarrow> rpc_context \<Rightarrow> string \<Rightarrow> string \<Rightarrow> (status + response) prog" where
  "h_GetFile s ctx i reqOwner =
     tryE (Return (handler_ownerID ctx reqOwner)) (\<lambda>ownerID.
     call_svc (GetFile s i ownerID) (\<lambda>file.
     Return (Inr (FileMetadataResponse (toProtoFile file)))))"

definition h_ListFiles :: "FileService \<Rightarrow> rpc_context \<Rightarrow> string \<Rightarrow> int32 \<Rightarrow> string \<Rightarrow> (status + response) prog" where
  "h_ListFiles s ctx reqOwner pageSize pageToken =
     tryE (Return (handler_ownerID ctx reqOwner)) (\<lambda>ownerID.
     call_svc (ListFiles s \<lparr>FilterOwnerID = ownerID, PageSize = pageSize, PageToken = pageToken\<rparr>) (\<lambda>result.
     Return (Inr (ListFilesResponse (map toProtoFile (Files result)) (NextPageToken result)))))"

definition h_GetDownloadURL :: "FileService \<Rightarrow> rpc_context \<Rightarrow> string \<Rightarrow> string \<Rightarrow> (status + response) prog" where
  "h_GetDownloadURL s ctx i reqOwner =
     tryE (Return (handler_ownerID ctx reqOwner)) (\<lambda>ownerID.
     call_svc (GetDownloadURL s i ownerID) (\<lambda>result.
     Return (Inr (GetDownloadURLResponse (DownloadURL result)
       (duration_seconds (DownloadExpiresIn result))))))"

definition h_DeleteFile :: "FileService \<Rightarrow> rpc_context \<Rightarrow> string \<Rightarrow> string \<Rightarrow> (status + response) prog" where
  "h_DeleteFile s ctx i reqOwner =
     tryE (Return (handler_ownerID ctx reqOwner)) (\<lambda>ownerID.
     call_svc (DeleteFile s i ownerID) (\<lambda>_.
     discard (Audit_Log ctx ''file.deleted'' [(''owner_id'', ownerID), (''file_id'', i)]) (
     Return (Inr (DeleteFileResponse True)))))"

definition h_CreateMultipartUpload :: "FileService \<Rightarrow> rpc_context \<Rightarrow> string \<Rightarrow> string \<Rightarrow> string \<Rightarrow> int64 \<Rightarrow> (status + response) prog" where
  "h_CreateMultipartUpload s ctx reqOwner name ctype sizeBytes =
     tryE (Return (handler_ownerID ctx reqOwner)) (\<lambda>ownerID.
     call_svc (CreateMultipartUpload s ownerID name ctype sizeBytes) (\<lambda>result.
     discard (Audit_Log ctx ''file.created'' [(''owner_id'', ownerID),
        (''file_id'', ID (MpMetadata result)), (''multipart'', ''true'')]) (
     Return (Inr (CreateMultipartUploadResponse (toProtoFile (MpMetadata result)) (MpUploadID result)
       (MpPartSize result) (MpTotalParts result))))))"

definition h_GetPartUploadURL :: "FileService \<Rightarrow> rpc_context \<Rightarrow> string \<Rightarrow> string \<Rightarrow> int32 \<Rightarrow> (status + response) prog" where
  "h_GetPartUploadURL s ctx i reqOwner partNumber =
     tryE (Return (handler_ownerID ctx reqOwner)) (\<lambda>ownerID.
     call_svc (GetPartUploadURL s i ownerID partNumber) (\<lambda>result.
     Return (Inr (GetPartUploadURLResponse (PartURL result) (duration_seconds (PartExpiresIn result))
       (UrlPartNumber result) (UrlPartSize result)))))"

definition h_ReportPartUploaded :: "FileService \<Rightarrow> rpc_context \<Rightarrow> string \<Rightarrow> string \<Rightarrow> int32 \<Rightarrow> string \<Rightarrow> (status + response) prog" where
  "h_ReportPartUploaded s ctx i reqOwner partNumber etag =
     tryE (Return (handler_ownerID ctx reqOwner)) (\<lambda>ownerID.
     call_svc (ReportPartUploaded s i ownerID partNumber etag) (\<lambda>part.
     Return (Inr (ReportPartUploadedResponse (PartNumber part) (ETag part)))))"

definition h_ListUploadParts :: "FileService \<Rightarrow> rpc_context \<Rightarrow> string \<Rightarrow> string \<Rightarrow> (status + response) prog" where
  "h_ListUploadParts s ctx i reqOwner =
     tryE (Return (handler_ownerID ctx reqOwner)) (\<lambda>ownerID.
     call_svc (ListUploadParts s i ownerID) (\<lambda>result.
     Return (Inr (ListUploadPartsResponse (LpUploadID result) (LpPartSize result) (LpTotalParts result)
       (map (\<lambda>p. \<lparr>piPartNumber = PartNumber p, piEtag = ETag p,
               piUploadedAt = timestamppb_New (UploadedAt p)\<rparr>) (LpParts result))))))"

definition h_CompleteMultipartUpload :: "FileService \<Rightarrow> rpc_context \<Rightarrow> string \<Rightarrow> string \<Rightarrow> string \<Rightarrow> (status + response) prog" where
  "h_CompleteMultipartUpload s ctx i reqOwner checksum =
     tryE (Return (handler_ownerID ctx reqOwner)) (\<lambda>ownerID.
     call_svc (CompleteMultipartUpload s i ownerID checksum) (\<lambda>file.
     discard (Audit_Log ctx ''upload.confirmed'' [(''owner_id'', ownerID), (''file_id'', ID file),
        (''multipart'', ''true'')]) (
     Return (Inr (FileMetadataResponse (toProtoFile file))))))"

definition h_AbortMultipartUpload :: "FileService \<Rightarrow> rpc_context \<Rightarrow> string \<Rightarrow> string \<Rightarrow> (status + response) prog" where
  "h_AbortMultipartUpload s ctx i reqOwner =
     tryE (Return (handler_ownerID ctx reqOwner)) (\<lambda>ownerID.
     call_svc (AbortMultipartUpload s i ownerID) (\<lambda>_.
     Return (Inr (AbortMultipartUploadResponse True))))"

subsection \<open>Dispatch\<close>

fun full_method :: "request \<Rightarrow> string" where
  "full_method (CreateUploadRequest _ _ _ _) = ''/file.v1.FileService/CreateUpload''"
| "full_method (ConfirmUploadRequest _ _ _) = ''/file.v1.FileService/ConfirmUpload''"
| "full_method (CreateMultipartUploadRequest _ _ _ _) = ''/file.v1.FileService/CreateMultipartUpload''"
| "full_method (GetPartUploadURLRequest _ _ _) = ''/file.v1.FileService/GetPartUploadURL''"
| "full_method (ReportPartUploadedRequest _ _ _ _) = ''/file.v1.FileService/ReportPartUploaded''"
| "full_method (ListUploadPartsRequest _ _) = ''/file.v1.FileService/ListUploadParts''"
| "full_method (CompleteMultipartUploadRequest _ _ _) = ''/file.v1.FileService/CompleteMultipartUpload''"
| "full_method (AbortMultipartUploadRequest _ _) = ''/file.v1.FileService/AbortMultipartUpload''"
| "full_method (GetFileRequest _ _) = ''/file.v1.FileService/GetFile''"
| "full_method (ListFilesRequest _ _ _) = ''/file.v1.FileService/ListFiles''"
| "full_method (GetDownloadURLRequest _ _) = ''/file.v1.FileService/GetDownloadURL''"
| "full_method (DeleteFileRequest _ _) = ''/file.v1.FileService/DeleteFile''"

fun dispatch :: "FileService \<Rightarrow> request \<Rightarrow> rpc_context \<Rightarrow> (status + response) prog" where
  "dispatch s (CreateUploadRequest ow nm ct sz) ctx = h_CreateUpload s ctx ow nm ct sz"
| "dispatch s (ConfirmUploadRequest i ow ck) ctx = h_ConfirmUpload s ctx i ow ck"
| "dispatch s (CreateMultipartUploadRequest ow nm ct sz) ctx = h_CreateMultipartUpload s ctx ow nm ct sz"
| "dispatch s (GetPartUploadURLRequest i ow n) ctx = h_GetPartUploadURL s ctx i ow n"
| "dispatch s (ReportPartUploadedRequest i ow n e) ctx = h_ReportPartUploaded s ctx i ow n e"
| "dispatch s (ListUploadPartsRequest i ow) ctx = h_ListUploadParts s ctx i ow"
| "dispatch s (CompleteMultipartUploadRequest i ow ck) ctx = h_CompleteMultipartUpload s ctx i ow ck"
| "dispatch s (AbortMultipartUploadRequest i ow) ctx = h_AbortMultipartUpload s ctx i ow"
| "dispatch s (GetFileRequest i ow) ctx = h_GetFile s ctx i ow"
| "dispatch s (ListFilesRequest ow n t) ctx = h_ListFiles s ctx ow n t"
| "dispatch s (GetDownloadURLRequest i ow) ctx = h_GetDownloadURL s ctx i ow"
| "dispatch s (DeleteFileRequest i ow) ctx = h_DeleteFile s ctx i ow"

text \<open>One request through the interceptors of the server to its handler.\<close>

definition serve :: "FileService \<Rightarrow> AuthConfig \<Rightarrow> RateLimiter \<Rightarrow> rpc_context \<Rightarrow> request \<Rightarrow> (status + response) prog" where
  "serve s cfg rl ctx rq = app_chain cfg rl (full_method rq) (dispatch s rq) ctx"

end
