(* ===== verification/Isolation_Server.thy ===== *)
theory Isolation_Server
  imports Isolation_Multipart Grpc_Handler
begin

text \<open>
  The guarantee of the whole server: a request that goes through the interceptors and its handler
  acts for one owner only, the one of its token when tokens are required, and returns metadata
  of that owner only.
\<close>

subsection \<open>For whom a request acts\<close>

definition acting :: "rpc_context \<Rightarrow> request \<Rightarrow> string set" where
  "acting ctx rq = {ow. handler_ownerID ctx (rqOwner rq) = Inr ow}"

text \<open>A token of the request that the parser accepts at some time with the configured key names \<open>ow\<close>.\<close>

definition token_owner :: "env \<Rightarrow> AuthConfig \<Rightarrow> rpc_context \<Rightarrow> string \<Rightarrow> bool" where
  "token_owner E cfg ctx ow \<longleftrightarrow> (\<exists>md n tok cl. ctxMetadata ctx = Some md \<and>
     bearerToken (md ''authorization'') = Some tok \<and> tok \<noteq> [] \<and>
     jwtParse E n tok (keyFor cfg) (Issuer cfg) (Audience cfg) = Some cl \<and>
     claims_owner cl = ow \<and> ow \<noteq> [])"

definition actors :: "env \<Rightarrow> AuthConfig \<Rightarrow> rpc_context \<Rightarrow> request \<Rightarrow> string set" where
  "actors E cfg ctx rq = (if Enabled cfg then {ow. token_owner E cfg ctx ow} else acting ctx rq)"

fun response_files :: "response \<Rightarrow> ProtoFile list" where
  "response_files (CreateUploadResponse f _ _) = [f]"
| "response_files (FileMetadataResponse f) = [f]"
| "response_files (CreateMultipartUploadResponse f _ _ _) = [f]"
| "response_files (ListFilesResponse fs _) = fs"
| "response_files _ = []"

definition own_response :: "string set \<Rightarrow> status + response \<Rightarrow> bool" where
  "own_response S r \<longleftrightarrow> (\<forall>resp. r = Inr resp \<longrightarrow> pbOwnerId ` set (response_files resp) \<subseteq> S)"

lemma own_response_simps [simp]:
  "own_response S (Inl e)"
  "own_response S (Inr resp) \<longleftrightarrow> (\<forall>f \<in> set (response_files resp). pbOwnerId f \<in> S)"
  by (auto simp: own_response_def)

lemma toProtoFile_owner [simp]: "pbOwnerId (toProtoFile f) = OwnerID f"
  by (simp add: toProtoFile_def)

subsection \<open>What the operations return\<close>

lemma returns_GetFile: "returns (GetFile s i ow) (\<lambda>r. \<forall>f. r = Inr f \<longrightarrow> OwnerID f = ow)"
proof -
  let ?P = "\<lambda>r :: err + FileMetadata. \<forall>f. r = Inr f \<longrightarrow> OwnerID f = ow"
  have "returns (GetFile_repo s i ow) ?P"
    unfolding GetFile_repo_def
    by (rule returns_tryE, rule returns_any)
      (auto simp: IsOwnedBy_def intro!: returns_discard split: sum.split)
  then show ?thesis
    unfolding GetFile_def
    by (auto simp: IsOwnedBy_def intro!: returns_bind [of "Cache_GetFile _ _"]
        intro: returns_any split: sum.split option.split)
qed

lemma returns_Repo_List:
  "returns (Repo_List filt) (\<lambda>r. \<forall>l. r = Inr l \<longrightarrow> (\<forall>f \<in> set (Files l). OwnerID f = FilterOwnerID filt))"
proof -
  let ?P = "\<lambda>rows. \<forall>f \<in> set rows. OwnerID f = FilterOwnerID filt"
  have page: "?P (Files page)" if "?P rows" "page_result n rows = Some page" for n rows page
    using that by (auto simp: page_result_def slice_to_def split: if_splits option.splits dest!: in_set_takeD)
  have rows: "?P rows" if "fst (sql_select_page P (FilterOwnerID filt) t i n d) = Inr rows" for P t i n d rows
    using that by (auto simp: sql_select_page_def page_rows_def split: if_splits dest!: in_set_takeD)
  have "returns (tryE (sql (\<lambda>P. sql_select_page P (FilterOwnerID filt) t i n))
      (\<lambda>rows. boundedP (page_result m rows) (\<lambda>page. Return (Inr page)))) (\<lambda>r. \<forall>l. r = Inr l \<longrightarrow> ?P (Files l))" for t i n m
    by (rule returns_tryE, rule returns_sql) (use page [OF rows] in \<open>simp_all add: boundedP_def split: option.split\<close>)
  then show ?thesis
    unfolding Repo_List_def Let_def by (intro returns_tryE returns_any) (auto split: sum.split)
qed

lemma returns_ListFiles:
  "returns (ListFiles s filt) (\<lambda>r. \<forall>l. r = Inr l \<longrightarrow> (\<forall>f \<in> set (Files l). OwnerID f = FilterOwnerID filt))"
  unfolding ListFiles_def by (rule returns_guardE) (use returns_Repo_List in simp_all)

lemma returns_CreateUpload:
  "returns (CreateUpload s ow nm ct sz) (\<lambda>r. \<forall>x. r = Inr x \<longrightarrow> OwnerID (Metadata x) = ow)"
  unfolding CreateUpload_def Let_def
  by (auto intro!: returns_intros simp: new_single_def)

lemma returns_CreateMultipartUpload:
  "returns (CreateMultipartUpload s ow nm ct sz) (\<lambda>r. \<forall>x. r = Inr x \<longrightarrow> OwnerID (MpMetadata x) = ow)"
  unfolding CreateMultipartUpload_def Let_def
  by (auto intro!: returns_intros split: sum.split simp: new_multipart_def)

subsection \<open>The handlers\<close>

lemma rg_call_svc:
  assumes "svc_rg E S m (\<lambda>r v. case r of Inl e \<Rightarrow> \<forall>u. svc_R E v u \<longrightarrow> Q (Inl (mapError e)) u
      | Inr x \<Rightarrow> svc_rg E S (k x) Q v) w"
  shows "svc_rg E S (call_svc m k) Q w"
  unfolding call_svc_def
  by (rule svc.rg_bind, rule svc.rg_conseq [OF assms]) (auto split: sum.splits)

lemma rg_Audit_Log:
  assumes "\<And>x v. svc_R E w v \<Longrightarrow> Q x v"
  shows "svc_rg E S (Audit_Log ctx ev attrs) Q w"
  unfolding Audit_Log_def by (rule rg_emit) (rule assms)

text \<open>A handler: a call of the service for the owner of the request, a log entry, a response.\<close>

lemma rg_handler:
  assumes "\<And>ow. handler_ownerID ctx reqOwner = Inr ow \<Longrightarrow> svc_rg E S (k ow) Q w"
    and "\<And>e v. Q (Inl e) v"
  shows "svc_rg E S (tryE (Return (handler_ownerID ctx reqOwner)) k) Q w"
  by (rule svc.rg_tryE)
    (use assms svc.rg_stable in \<open>auto split: sum.split\<close>)

lemma rg_handler_body:
  assumes m: "svc_rg E S m (\<lambda>_ _. True) w" and p: "returns m P"
    and k: "\<And>x v. P (Inr x) \<Longrightarrow> svc_rg E S (k x) Q v" and e: "\<And>e v. Q (Inl e) v"
  shows "svc_rg E S (call_svc m k) Q w"
  by (rule rg_call_svc, rule svc.rg_conseq [OF svc.rg_conj_returns [OF m p]])
    (use k e in \<open>auto split: sum.split\<close>)

lemma rg_handler_own:
  assumes m: "svc_rg E S m (confirmed_file ow ck) w"
    and k: "\<And>f v. OwnerID f = ow \<Longrightarrow> svc_rg E S (k f) Q v" and e: "\<And>e v. Q (Inl e) v"
  shows "svc_rg E S (call_svc m k) Q w"
  by (rule rg_call_svc, rule svc.rg_conseq [OF m]) (use k e in \<open>auto split: sum.split\<close>)

lemma rg_dispatch:
  assumes env: "env_ok E" and inv: "svc_inv E w" and S: "acting ctx rq \<subseteq> S"
  shows "svc_rg E S (dispatch (app_service c ch ps ms) rq ctx) (\<lambda>r _. own_response (acting ctx rq) r) w"
proof -
  let ?s = "app_service c ch ps ms"
  have own: "ow \<in> S" if "handler_ownerID ctx (rqOwner rq) = Inr ow" for ow
    using that S by (auto simp: acting_def)
  have get: "svc_rg E S (GetFile ?s i ow) (\<lambda>_ _. True) w" for i ow
    by (rule rg_GetFile [OF inv]) simp_all
  note hs = rg_handler svc.rg_discard rg_Audit_Log
  show ?thesis
  proof (cases rq)
    case (CreateUploadRequest ow nm ct sz)
    then show ?thesis
      by (auto simp: h_CreateUpload_def acting_def intro!: hs
          rg_handler_body [OF rg_CreateUpload [OF env inv] returns_CreateUpload])
  next
    case (ConfirmUploadRequest i ow ck)
    then show ?thesis
      using own by (auto simp: h_ConfirmUpload_def acting_def intro!: hs
          rg_handler_own [OF rg_ConfirmUpload [OF env inv]])
  next
    case (CreateMultipartUploadRequest ow nm ct sz)
    then show ?thesis
      by (auto simp: h_CreateMultipartUpload_def acting_def intro!: hs
          rg_handler_body [OF rg_CreateMultipartUpload [OF env inv] returns_CreateMultipartUpload])
  next
    case (GetPartUploadURLRequest i ow n)
    then show ?thesis
      by (auto simp: h_GetPartUploadURL_def intro!: hs
          rg_handler_body [OF rg_GetPartUploadURL [OF inv] returns_True])
  next
    case (ReportPartUploadedRequest i ow n e)
    then show ?thesis
      using own by (auto simp: h_ReportPartUploaded_def intro!: hs
          rg_handler_body [OF rg_ReportPartUploaded [OF env inv] returns_True])
  next
    case (ListUploadPartsRequest i ow)
    then show ?thesis
      by (auto simp: h_ListUploadParts_def intro!: hs
          rg_handler_body [OF rg_ListUploadParts [OF inv] returns_True])
  next
    case (CompleteMultipartUploadRequest i ow ck)
    then show ?thesis
      using own by (auto simp: h_CompleteMultipartUpload_def acting_def intro!: hs
          rg_handler_own [OF rg_CompleteMultipartUpload [OF env inv]])
  next
    case (AbortMultipartUploadRequest i ow)
    then show ?thesis
      using own by (auto simp: h_AbortMultipartUpload_def intro!: hs
          rg_handler_body [OF rg_AbortMultipartUpload [OF env inv] returns_True])
  next
    case (GetFileRequest i ow)
    then show ?thesis
      by (auto simp: h_GetFile_def acting_def intro!: hs rg_handler_body [OF get returns_GetFile])
  next
    case (ListFilesRequest ow n t)
    then show ?thesis
      by (auto simp: h_ListFiles_def acting_def intro!: hs
          rg_handler_body [OF rg_ListFiles [OF inv] returns_ListFiles])
  next
    case (GetDownloadURLRequest i ow)
    then show ?thesis
      by (auto simp: h_GetDownloadURL_def intro!: hs
          rg_handler_body [OF rg_GetDownloadURL [OF inv] returns_True])
  next
    case (DeleteFileRequest i ow)
    then show ?thesis
      using own by (auto simp: h_DeleteFile_def intro!: hs
          rg_handler_body [OF rg_DeleteFile [OF env inv] returns_True])
  qed
qed

subsection \<open>The interceptors\<close>

lemma rg_limiter:
  assumes "\<And>x v. svc_R E w v \<Longrightarrow> Q x v"
  shows "svc_rg E S (limiter_Allow rl key) Q w"
  unfolding limiter_Allow_def by (rule rg_quiet) (use assms in \<open>auto split: option.split\<close>)

lemma rg_limiter_get:
  assumes "\<And>x v. svc_R E w v \<Longrightarrow> Q x v"
  shows "svc_rg E S (limiter_get key) Q w"
  unfolding limiter_get_def by (rule rg_quiet) (use assms in \<open>auto split: option.split\<close>)

lemma rg_observed:
  assumes h: "svc_rg E S (h ctx) (\<lambda>r _. P r) w"
  shows "svc_rg E S (AuditDeniedInterceptor m h ctx) (\<lambda>r _. P r) w"
    "svc_rg E S (MetricsInterceptor m h ctx) (\<lambda>r _. P r) w"
    "svc_rg E S (LoggingInterceptor m h ctx) (\<lambda>r _. P r) w"
proof -
  have after: "svc_rg E S (bindP (h ctx) k) (\<lambda>r _. P r) v"
    if "svc_R E w v" and "\<And>r u. P r \<Longrightarrow> svc_rg E S (k r) (\<lambda>r _. P r) u" for k v
    by (rule svc.rg_bind, rule svc.rg_conseq [OF svc.rg_stable [OF h that(1)]]) (rule that(2))
  show "svc_rg E S (AuditDeniedInterceptor m h ctx) (\<lambda>r _. P r) w"
    unfolding AuditDeniedInterceptor_def
    by (rule after [OF svc.R_refl]) (auto intro!: svc.rg_discard rg_Audit_Log)
  show "svc_rg E S (MetricsInterceptor m h ctx) (\<lambda>r _. P r) w"
    unfolding MetricsInterceptor_def
    by (rule svc.rg_bind, rule rg_time_Now, erule after)
      (auto intro!: svc.rg_discard svc.rg_bind rg_emit rg_time_Now)
  show "svc_rg E S (LoggingInterceptor m h ctx) (\<lambda>r _. P r) w"
    unfolding LoggingInterceptor_def
    by (rule svc.rg_bind, rule rg_time_Now, erule after)
      (auto intro!: svc.rg_discard svc.rg_bind rg_emit rg_time_Now)
qed

lemma rg_RateLimit:
  assumes h: "svc_rg E S (h ctx) Q w" and e: "\<And>x v. Q (Inl x) v"
  shows "svc_rg E S (RateLimitInterceptor rl m h ctx) Q w"
proof -
  have branch: "svc_rg E S (if \<not> b then Return (Inl x) else h ctx) Q v" if "svc_R E w v" for b x v
    using svc.rg_stable [OF h that] e by simp
  have allow: "svc_rg E S (bindP (limiter_Allow rl key) (\<lambda>b. if \<not> b then Return (Inl x) else h ctx)) Q v"
    if "svc_R E w v" for key x v
    by (rule svc.rg_bind, rule rg_limiter, rule branch, rule svc.R_trans [OF that])
  show ?thesis
    unfolding RateLimitInterceptor_def Let_def
    by (rule svc.rg_discard, rule rg_limiter_get, rule allow)
qed

lemma rg_extractOwner:
  assumes "\<And>ow v. svc_R E w v \<Longrightarrow> token_owner E cfg ctx ow \<Longrightarrow> Q (Inr ow) v"
    and e: "\<And>x v. Q (Inl x) v"
  shows "svc_rg E S (extractOwnerFromMetadata ctx cfg) Q w"
proof (cases "ctxMetadata ctx")
  case None
  then show ?thesis using e by (simp add: extractOwnerFromMetadata_def)
next
  case (Some md)
  obtain t where bt: "bearerToken (md ''authorization'') = Some t" using bearerToken_bounded by blast
  let ?t = t
  let ?p = "\<lambda>n. jwtParse E n ?t (keyFor cfg) (Issuer cfg) (Audience cfg)"
  let ?k = "\<lambda>r. case r of None \<Rightarrow> Return (Inl (Unauthenticated, ''invalid token''))
     | Some claims \<Rightarrow> (if claims_owner claims = []
          then Return (Inl (Unauthenticated, ''token missing owner identity''))
          else Return (Inr (claims_owner claims)))"
  have "svc_rg E S (bindP (jwt_ParseWithClaims ?t (keyFor cfg) (Issuer cfg) (Audience cfg)) ?k) Q w"
    if t: "?t \<noteq> []"
  proof (rule svc.rg_bind)
    have tok: "token_owner E cfg ctx (claims_owner cl)" if "?p n = Some cl" "claims_owner cl \<noteq> []" for n cl
      using that t Some bt unfolding token_owner_def by blast
    have k: "svc_rg E S (?k (?p n)) Q u" if "svc_R E w u" for n u
      using assms(1) [OF svc.R_trans [OF that]] e tok [of n] by (auto split: option.split)
    show "svc_rg E S (jwt_ParseWithClaims ?t (keyFor cfg) (Issuer cfg) (Audience cfg))
        (\<lambda>r. svc_rg E S (?k r) Q) w"
      unfolding jwt_ParseWithClaims_def
    proof (rule svc.rg_atomic)
      fix v u :: world
      let ?v = "(snd (?p (tick v), v))\<lparr>tick := Suc (tick v)\<rparr>"
      show g: "svc_G E S v ?v" by (rule svc_quiet) simp_all
      assume wv: "svc_R E w v" and vu: "svc_R E ?v u"
      show "svc_rg E S (?k (fst (?p (tick v), v))) Q u"
        using k [OF svc.R_trans [OF wv svc.R_trans [OF svc_G_R [OF g] vu]], of "tick v"] by simp
    qed
  qed
  then show ?thesis using Some e bt by (simp add: extractOwnerFromMetadata_def boundedP_def Let_def)
qed

lemma private_method [simp]: "\<not> isPublicMethod (full_method rq)"
  by (cases rq) (simp_all add: isPublicMethod_def HasPrefix_def)

text \<open>With an owner in the context, a request acts for that owner or for nobody.\<close>

lemma acting_WithOwnerID: "ow \<noteq> [] \<Longrightarrow> x \<in> acting (WithOwnerID ctx ow) rq \<Longrightarrow> x = ow"
  by (auto simp: acting_def handler_ownerID_def ResolveOwnerID_def OwnerIDFromContext_def
      WithOwnerID_def split: if_splits)

lemma own_response_mono: "own_response A r \<Longrightarrow> A \<subseteq> B \<Longrightarrow> own_response B r"
  by (auto simp: own_response_def)

lemma rg_serve:
  assumes env: "env_ok E" and inv: "svc_inv E w" and S: "actors E cfg ctx rq \<subseteq> S"
  shows "svc_rg E S (serve (app_service c ch ps ms) cfg rl ctx rq) (\<lambda>r _. own_response (actors E cfg ctx rq) r) w"
proof -
  let ?d = "dispatch (app_service c ch ps ms) rq" and ?m = "full_method rq"
  let ?Q = "\<lambda>r (_ :: world). own_response (actors E cfg ctx rq) r"
  have d: "svc_rg E S (?d x) ?Q v" if "svc_R E w v" "acting x rq \<subseteq> actors E cfg ctx rq" for x v
    by (rule svc.rg_conseq [OF rg_dispatch [OF env svc_R_inv [OF that(1) inv]]])
      (use that(2) S own_response_mono in blast)+
  have inner: "svc_rg E S (RateLimitInterceptor rl ?m (AuditDeniedInterceptor ?m ?d) x) ?Q v"
    if "svc_R E w v" "acting x rq \<subseteq> actors E cfg ctx rq" for x v
    by (rule rg_RateLimit, rule rg_observed(1), rule d [OF that]) simp
  let ?h = "\<lambda>x. AuthInterceptor cfg ?m (\<lambda>x. RateLimitInterceptor rl ?m (AuditDeniedInterceptor ?m ?d) x) x"
  have auth: "svc_rg E S (?h ctx) ?Q w"
  proof (cases "Enabled cfg")
    case False
    then show ?thesis using inner [OF svc.R_refl] by (simp add: AuthInterceptor_def actors_def)
  next
    case True
    have tok: "acting (WithOwnerID ctx ow) rq \<subseteq> actors E cfg ctx rq" if "token_owner E cfg ctx ow" for ow
    proof -
      have "ow \<noteq> []" using that by (auto simp: token_owner_def)
      then show ?thesis using acting_WithOwnerID that True by (auto simp: actors_def)
    qed
    have "svc_rg E S (tryE (extractOwnerFromMetadata ctx cfg) (\<lambda>ow.
        RateLimitInterceptor rl ?m (AuditDeniedInterceptor ?m ?d) (WithOwnerID ctx ow))) ?Q w"
      by (rule svc.rg_tryE, rule rg_extractOwner) (use inner tok in simp_all)
    then show ?thesis using True by (simp add: AuthInterceptor_def)
  qed
  have "svc_rg E S (LoggingInterceptor ?m (MetricsInterceptor ?m ?h) ctx) ?Q w"
    by (intro rg_observed(2,3) auth)
  then show ?thesis
    unfolding serve_def app_chain_def ChainUnaryInterceptor.simps RecoveryInterceptor_def
    by (rule svc.rg_recover) (rule svc.rg_discard, rule rg_emit, simp)
qed

subsection \<open>Many requests at once\<close>

definition serve_all ::
  "FileService \<Rightarrow> AuthConfig \<Rightarrow> RateLimiter \<Rightarrow> (rpc_context \<times> request) list \<Rightarrow> (status + response) prog list" where
  "serve_all s cfg rl rqs = map (\<lambda>(ctx, rq). serve s cfg rl ctx rq) rqs"

lemma length_serve_all [simp]: "length (serve_all s cfg rl rqs) = length rqs"
  by (simp add: serve_all_def)

lemma serve_all_rg:
  assumes "env_ok E" and "svc_inv E w" and "\<forall>(ctx, rq) \<in> set rqs. actors E cfg ctx rq \<subseteq> S"
  shows "\<forall>k < length (serve_all (app_service c ch ps ms) cfg rl rqs).
    svc_rg E S (serve_all (app_service c ch ps ms) cfg rl rqs ! k)
      (\<lambda>r _. own_response (actors E cfg (fst (rqs ! k)) (snd (rqs ! k))) r) w"
proof safe
  fix k assume k: "k < length (serve_all (app_service c ch ps ms) cfg rl rqs)"
  obtain ctx rq where e: "rqs ! k = (ctx, rq)" by (cases "rqs ! k")
  moreover have "rqs ! k \<in> set rqs" using k by simp
  ultimately have "actors E cfg ctx rq \<subseteq> S" using assms(3) by fastforce
  then show "svc_rg E S (serve_all (app_service c ch ps ms) cfg rl rqs ! k)
      (\<lambda>r _. own_response (actors E cfg (fst (rqs ! k)) (snd (rqs ! k))) r) w"
    using rg_serve [OF assms(1,2)] k e by (simp add: serve_all_def)
qed

text \<open>Steps within the guarantee keep the rows of all other owners.\<close>

lemma svc_G_foreign:
  assumes "(svc_G E S)\<^sup>*\<^sup>* w v" and "svc_inv E w"
  shows "svc_inv E v \<and> foreign_kept S (db w) (db v) \<and> db_le (db w) (db v)"
  using assms
proof (induction rule: rtranclp_induct)
  case (step y z)
  then show ?case
    by (auto simp: svc_G_def svc_R_def intro: foreign_kept_trans db_le_trans)
qed simp

lemma serve_all_kept:
  assumes "env_ok E" and "svc_inv E w" and "\<forall>(ctx, rq) \<in> set rqs. actors E cfg ctx rq \<subseteq> S"
    and "interleaved E (serve_all (app_service c ch ps ms) cfg rl rqs, w) (qs, v)"
  shows "svc_inv E v \<and> foreign_kept S (db w) (db v) \<and> db_le (db w) (db v)"
  using svc.interleaved_rg [OF assms(4) serve_all_rg [OF assms(1-3)]] svc_G_foreign assms(2) by blast

text \<open>One request that runs alone is one of the schedules.\<close>

lemma serve_all_single: "serve_all s cfg rl [(ctx, rq)] = [serve s cfg rl ctx rq]"
  by (simp add: serve_all_def)

text \<open>Whatever a handler does, the recovery interceptor returns.\<close>

lemma serve_returns: "\<exists>r. fst (run (serve s cfg rl ctx rq) E w) = Value r"
  unfolding serve_def app_chain_def ChainUnaryInterceptor.simps RecoveryInterceptor_def emit_def
  by (simp add: run_simps split: prod.split outcome.split)

lemma run_alone:
  "\<exists>x. interleaved E (serve_all s cfg rl [(ctx, rq)], w) ([Return x], after (serve s cfg rl ctx rq) E w)
     \<and> result (serve s cfg rl ctx rq) E w = Value x"
  using run_interleaved [of E "serve s cfg rl ctx rq" w] serve_returns [of s cfg rl ctx rq E w]
  by (auto simp: serve_all_single after_def result_def)

subsection \<open>Many confirmations at once\<close>

datatype confirm_call =
    ConfirmCall (callID: string) (callOwner: string) (callChecksum: string)
  | CompleteCall (callID: string) (callOwner: string) (callChecksum: string)

fun confirm_prog :: "FileService \<Rightarrow> confirm_call \<Rightarrow> (err + FileMetadata) prog" where
  "confirm_prog s (ConfirmCall i ow ck) = ConfirmUpload s i ow ck"
| "confirm_prog s (CompleteCall i ow ck) = CompleteMultipartUpload s i ow ck"

lemma confirm_prog_rg:
  assumes "env_ok E" and "svc_inv E w"
  shows "svc_rg E UNIV (confirm_prog (app_service c ch ps ms) call)
    (confirmed_file (callOwner call) (callChecksum call)) w"
  by (cases call) (simp_all add: rg_ConfirmUpload rg_CompleteMultipartUpload assms)

lemma confirmed_row_final:
  assumes "env_ok E" and "svc_inv E w"
    and "interleaved E (map (confirm_prog (app_service c ch ps ms)) calls, w) (qs, v)"
    and "k < length calls" and "qs ! k = Return (Inr f)"
  shows "\<exists>r. get_row (db v) (ID f) = Some r \<and> OwnerID r = callOwner (calls ! k) \<and>
    Status r \<in> {FileStatusReady, FileStatusDeleted} \<and> ChecksumSHA256 r = callChecksum (calls ! k)"
proof -
  let ?ps = "map (confirm_prog (app_service c ch ps ms)) calls"
  let ?Q = "\<lambda>k. confirmed_file (callOwner (calls ! k)) (callChecksum (calls ! k))"
  have rgs: "\<forall>k < length ?ps. rg (?ps ! k) E (svc_R E) (svc_G E UNIV) (?Q k) w"
    using confirm_prog_rg [OF assms(1,2)] by simp
  have inv: "svc_inv E v" using svc_R_inv [OF svc.interleaved_R [OF assms(3) rgs] assms(2)] .
  have "?Q k (Inr f) v" using svc.interleaved_result [OF assms(3) rgs _ assms(5)] assms(4) by simp
  then obtain r where r: "get_row (db v) (ID f) = Some r" "row_le f r"
    and f: "OwnerID f = callOwner (calls ! k)" "Status f = FileStatusReady"
      "ChecksumSHA256 f = callChecksum (calls ! k)" by (auto simp: settled_def)
  have "file_row_ok r" using svc_db_wf [OF inv] get_row_ID [OF r(1)] by (simp add: db_wf_def)
  then show ?thesis
    using r f by (auto simp: row_le_def same_file_def status_rank_def file_row_ok_def split: if_splits)
qed

end
