(* ===== verification/Frame.thy ===== *)
theory Frame
  imports Grpc_Handler Concurrency
begin

text \<open>
  What a program leaves alone, and that it does not panic. \<open>keeps p g\<close>: no step of \<open>p\<close>
  changes the component \<open>g\<close> of the world, whatever the servers answer and whatever happens
  between its steps. \<open>panic_free p\<close>: no execution of \<open>p\<close> reaches a panic.
\<close>

primrec keeps :: "'a prog \<Rightarrow> (world \<Rightarrow> 'x) \<Rightarrow> bool" where
  "keeps (Return x) = (\<lambda>g. True)"
| "keeps (Panic s) = (\<lambda>g. True)"
| "keeps (Step f) = (\<lambda>g. \<forall>E w. (case map_prod (\<lambda>p. keeps p) id (f E w) of (k, v) \<Rightarrow> g v = g w \<and> k g))"

primrec panic_free :: "'a prog \<Rightarrow> bool" where
  "panic_free (Return x) = True"
| "panic_free (Panic s) = False"
| "panic_free (Step f) = (\<forall>E w. fst (map_prod (\<lambda>p. panic_free p) id (f E w)))"

lemma keeps_Step: "keeps (Step f) g \<longleftrightarrow> (\<forall>E w. g (snd (f E w)) = g w \<and> keeps (fst (f E w)) g)"
  by (simp add: map_prod_def split_beta)

lemma panic_free_Step: "panic_free (Step f) \<longleftrightarrow> (\<forall>E w. panic_free (fst (f E w)))"
  by (simp add: map_prod_def split_beta)

declare keeps.simps(3) [simp del] panic_free.simps(3) [simp del]

subsection \<open>Rules\<close>

named_theorems frame_intros

lemma keeps_bind [frame_intros]: "keeps p g \<Longrightarrow> (\<And>x. keeps (k x) g) \<Longrightarrow> keeps (bindP p k) g"
  by (induction p rule: prog_induct) (simp_all add: keeps_Step map_prod_def split_beta)

lemma keeps_recover [frame_intros]: "keeps p g \<Longrightarrow> (\<And>s. keeps (h s) g) \<Longrightarrow> keeps (recover p h) g"
  by (induction p rule: prog_induct) (simp_all add: keeps_Step map_prod_def split_beta)

lemma keeps_tryE [frame_intros]: "keeps p g \<Longrightarrow> (\<And>x. keeps (k x) g) \<Longrightarrow> keeps (tryE p k) g"
  unfolding tryE_def by (rule keeps_bind) (simp_all split: sum.split)

lemma keeps_discard [frame_intros]: "keeps m g \<Longrightarrow> keeps p g \<Longrightarrow> keeps (discard m p) g"
  unfolding discard_def by (rule keeps_bind)

lemma keeps_guardE [frame_intros]: "keeps p g \<Longrightarrow> keeps (guardE e p) g"
  by (cases e) (simp_all add: guardE_def)

lemma keeps_boundedP [frame_intros]: "(\<And>y. keeps (k y) g) \<Longrightarrow> keeps (boundedP x k) g"
  by (simp add: boundedP_def split: option.split)

lemma panic_free_boundedP: "x = Some y \<Longrightarrow> panic_free (k y) \<Longrightarrow> panic_free (boundedP x k)"
  by (simp add: boundedP_def)

lemma keeps_ask [frame_intros]: "keeps (ask f) g"
  by (simp add: ask_def keeps_Step)

lemma keeps_atomic: "(\<And>E w. g ((snd (act E w))\<lparr>tick := Suc (tick w)\<rparr>) = g w) \<Longrightarrow> keeps (atomic act) g"
  by (simp add: atomic_def keeps_Step map_prod_def split_beta)

lemma panic_free_bind [frame_intros]:
  "panic_free p \<Longrightarrow> (\<And>x. panic_free (k x)) \<Longrightarrow> panic_free (bindP p k)"
  by (induction p rule: prog_induct) (simp_all add: panic_free_Step map_prod_def split_beta)

lemma panic_free_bind_returns:
  "panic_free p \<Longrightarrow> returns p P \<Longrightarrow> (\<And>x. P x \<Longrightarrow> panic_free (k x)) \<Longrightarrow> panic_free (bindP p k)"
  by (induction p rule: prog_induct) (simp_all add: panic_free_Step map_prod_def split_beta)

lemma panic_free_tryE [frame_intros]:
  "panic_free p \<Longrightarrow> (\<And>x. panic_free (k x)) \<Longrightarrow> panic_free (tryE p k)"
  unfolding tryE_def by (rule panic_free_bind) (simp_all split: sum.split)

lemma panic_free_discard [frame_intros]: "panic_free m \<Longrightarrow> panic_free p \<Longrightarrow> panic_free (discard m p)"
  unfolding discard_def by (rule panic_free_bind)

lemma panic_free_guardE [frame_intros]: "(e = None \<Longrightarrow> panic_free p) \<Longrightarrow> panic_free (guardE e p)"
  by (cases e) (simp_all add: guardE_def)

lemma panic_free_steps [simp]: "panic_free (ask f)" "panic_free (atomic act)"
  by (simp_all add: ask_def atomic_def panic_free_Step map_prod_def split_beta)

lemma keeps_comp: "keeps p g \<Longrightarrow> keeps p (\<lambda>w. f (g w))"
  by (induction p rule: prog_induct) (simp_all add: keeps_Step)

text \<open>The runs of such programs.\<close>

lemma keeps_run: "keeps p g \<Longrightarrow> g (snd (run p E w)) = g w"
  by (induction p arbitrary: w rule: prog_induct) (simp_all add: keeps_Step map_prod_def split_beta)

lemma panic_free_run: "panic_free p \<Longrightarrow> \<exists>x. fst (run p E w) = Value x"
  by (induction p arbitrary: w rule: prog_induct) (simp_all add: panic_free_Step map_prod_def split_beta)

lemma run_keeps_eq:
  "panic_free p \<Longrightarrow> keeps p g \<Longrightarrow> \<exists>x v. run p E w = (Value x, v) \<and> g v = g w"
  using panic_free_run [of p E w] keeps_run [of p g E w] by (metis prod.collapse)

lemma keeps_after_tryE:
  "(\<And>x. keeps (k x) g) \<Longrightarrow> g (snd (run (tryE m k) E w)) = g (snd (run m E w))"
  by (auto simp: run_tryE keeps_run split: prod.split outcome.split sum.split)

lemma run_discard_free: "panic_free m \<Longrightarrow> run (discard m p) E w = run p E (snd (run m E w))"
  using panic_free_run [of m E w] by (auto simp: run_discard split: prod.split outcome.split)

lemma kept: "keeps p g \<Longrightarrow> run p E w = (x, v) \<Longrightarrow> g v = g w"
  using keeps_run [of p g E w] by simp

lemma run_bind_Value:
  "run (bindP p k) E w = (Value x, v) \<Longrightarrow> \<exists>y u. run p E w = (Value y, u) \<and> run (k y) E u = (Value x, v)"
  by (auto simp: run_bind split: prod.splits outcome.splits)

lemma run_tryE_Inr:
  "run (tryE m k) E w = (Value (Inr x), v) \<Longrightarrow>
   \<exists>y u. run m E w = (Value (Inr y), u) \<and> run (k y) E u = (Value (Inr x), v)"
  by (auto simp: run_tryE split: prod.splits outcome.splits sum.splits)

subsection \<open>A program beside a goroutine\<close>

text \<open>
  A goroutine that leaves the component \<open>g\<close> alone is interference that keeps \<open>g\<close>; what a
  program establishes under it holds however the two are scheduled.
\<close>

interpretation beside: interference E "\<lambda>w v. g v = g w" "\<lambda>_ _. True" for E g
  by unfold_locales simp_all

abbreviation beside_rg :: "env \<Rightarrow> (world \<Rightarrow> 'x) \<Rightarrow> 'a prog \<Rightarrow> ('a \<Rightarrow> world \<Rightarrow> bool) \<Rightarrow> world \<Rightarrow> bool" where
  "beside_rg E g p Q w \<equiv> rg p E (\<lambda>w v. g v = g w) (\<lambda>_ _. True) Q w"

lemma run_bind_rg:
  assumes "panic_free q" and "beside_rg E g q Q w"
  shows "\<exists>x v. run q E w = (Value x, v) \<and> Q x v"
  using assms
proof (induction q arbitrary: w rule: prog_induct)
  case (Step f)
  then have "panic_free (fst (f E w))" "beside_rg E g (fst (f E w)) Q (snd (f E w))"
    by (auto simp: panic_free_Step rg_Step)
  then show ?case using Step.IH unfolding run_Step by blast
qed auto

lemma run_goP:
  assumes "panic_free p" and "keeps p g" and "panic_free q" and "beside_rg E g q Q w"
  shows "\<exists>x p' v. run (goP p q) E w = (Value (x, p'), v) \<and> Q x v \<and> panic_free p' \<and> keeps p' g"
  using assms
proof (induction p arbitrary: q w rule: prog_induct)
  case (Return u)
  then show ?case using run_bind_rg [of q E g Q w] by (auto simp: run_bind)
next
  case (Panic s)
  then show ?case by simp
next
  case (Step f)
  note outer = Step.IH and p = Step.prems(1,2)
  let ?F = "\<lambda>E w. map_prod (\<lambda>p. goP p) id (f E w)"
  from Step.prems(3,4) show ?case
  proof (induction q arbitrary: w rule: prog_induct)
    case (Step h)
    show ?case
    proof (cases "goTurn E (tick w)")
      case True
      have "g (snd (f E w)) = g w" using p(2) by (simp add: keeps_Step)
      then have "beside_rg E g (Step h) Q (snd (f E w))" using Step.prems(2) by (rule beside.rg_stable [rotated])
      then show ?thesis
        using outer [of E w "Step h" "snd (f E w)"] p Step.prems(1) True
        by (simp add: panic_free_Step keeps_Step run_Step split_beta map_prod_def)
    next
      case False
      have "panic_free (fst (h E w))" "beside_rg E g (fst (h E w)) Q (snd (h E w))"
        using Step.prems by (auto simp: panic_free_Step rg_Step)
      from Step.IH [OF this] False show ?thesis by (simp add: run_Step split_beta map_prod_def)
    qed
  qed (use p in auto)
qed

text \<open>Postgres and Redis answer every call.\<close>

definition pg_calm :: "env \<Rightarrow> bool" where
  "pg_calm E \<longleftrightarrow> (\<forall>n. pgFault E n = NoFault)"

lemma run_sql_calm:
  "pg_calm E \<Longrightarrow> run (sql st) E w =
     (Value (fst (st (pg E) (db w))), w\<lparr>db := snd (st (pg E) (db w)), tick := Suc (tick w)\<rparr>)"
  by (simp add: sql_def run_atomic sql_act_def pg_calm_def faulty_def Let_def split_beta)

definition redis_calm :: "env \<Rightarrow> bool" where
  "redis_calm E \<longleftrightarrow> (\<forall>n. redisFault E n = NoFault)"

subsection \<open>Single steps\<close>

lemma step_keeps [simp]:
  "keeps (sql st) redis" "keeps (sql st) kafka" "keeps (sql st) minio" "keeps (sql st) logs"
  "keeps (redis_get k) db" "keeps (redis_get k) redis" "keeps (redis_get k) kafka"
  "keeps (redis_get k) minio" "keeps (redis_get k) logs"
  "keeps (redis_write k v) db" "keeps (redis_write k v) kafka" "keeps (redis_write k v) minio"
  "keeps (redis_write k v) logs"
  "keeps (kafka_write m) db" "keeps (kafka_write m) redis" "keeps (kafka_write m) minio"
  "keeps (kafka_write m) logs"
  "keeps (minio_call q) db" "keeps (minio_call q) redis" "keeps (minio_call q) kafka"
  "keeps (minio_call q) logs"
  "keeps (emit l) db" "keeps (emit l) redis" "keeps (emit l) kafka" "keeps (emit l) minio"
  by (simp_all add: step_defs keeps_atomic sql_act_def Let_def split_beta)

lemma quiet_keeps [simp]:
  "keeps time_Now db" "keeps time_Now redis" "keeps time_Now kafka" "keeps time_Now minio"
  "keeps time_Now logs"
  "keeps uuid_NewString db" "keeps uuid_NewString redis" "keeps uuid_NewString kafka"
  "keeps uuid_NewString minio" "keeps uuid_NewString logs"
  by (simp_all add: step_defs keeps_atomic)

lemma step_panic_free [simp]:
  "panic_free (sql st)" "panic_free (redis_get k)" "panic_free (redis_write k v)"
  "panic_free (kafka_write m)" "panic_free (minio_call q)" "panic_free time_Now"
  "panic_free uuid_NewString" "panic_free (emit l)"
  by (simp_all add: step_defs)

subsection \<open>The clients\<close>

lemma repo_keeps [simp]:
  "keeps (GetByID i) redis" "keeps (GetByID i) kafka" "keeps (GetByID i) minio"
  "keeps (Confirm i c) redis" "keeps (Confirm i c) kafka" "keeps (Confirm i c) minio"
  "keeps (DeleteUploadParts i) redis" "keeps (DeleteUploadParts i) kafka" "keeps (DeleteUploadParts i) minio"
  "keeps (SoftDelete i) redis" "keeps (SoftDelete i) kafka" "keeps (SoftDelete i) minio"
  "keeps (Create f) redis" "keeps (Create f) kafka" "keeps (Create f) minio"
  "keeps (Repo_ListUploadParts i) redis" "keeps (Repo_ListUploadParts i) kafka"
  "keeps (Repo_ListUploadParts i) minio"
  by (auto simp: GetByID_def Confirm_def DeleteUploadParts_def SoftDelete_def Create_def
      Repo_ListUploadParts_def intro!: frame_intros)

lemma read_keeps_db [simp]:
  "keeps (GetByID i) db" "keeps (Repo_ListUploadParts i) db" "keeps (Repo_List filt) db"
proof -
  have q: "keeps (sql st) db" if "\<And>P d. snd (st P d) = d" for st :: "pg_engine \<Rightarrow> pgdb \<Rightarrow> (err + 'a) \<times> pgdb"
    using that by (simp add: sql_def keeps_atomic sql_act_def Let_def split_beta)
  show "keeps (GetByID i) db" "keeps (Repo_ListUploadParts i) db" "keeps (Repo_List filt) db"
    by (auto simp: GetByID_def Repo_ListUploadParts_def Repo_List_def Let_def intro!: frame_intros q)
qed

lemma cache_keeps [simp]:
  "keeps (SetFile ch f) db" "keeps (SetFile ch f) kafka" "keeps (SetFile ch f) minio"
  "keeps (InvalidateFile ch i) db" "keeps (InvalidateFile ch i) kafka" "keeps (InvalidateFile ch i) minio"
  "keeps (Cache_GetFile ch i) db" "keeps (Cache_GetFile ch i) redis" "keeps (Cache_GetFile ch i) kafka"
  "keeps (Cache_GetFile ch i) minio"
  by (auto simp: SetFile_def InvalidateFile_def Cache_GetFile_def split: sum.split intro!: frame_intros)

lemma Publish_keeps:
  "keeps (Publish ev) db" "keeps (Publish ev) redis" "keeps (Publish ev) minio"
  by (auto simp: Publish_def split: sum.split intro!: frame_intros)

lemma publisher_keeps [simp]:
  "keeps (PublishFileCreated f) db" "keeps (PublishFileCreated f) redis" "keeps (PublishFileCreated f) minio"
  "keeps (PublishFileReady f) db" "keeps (PublishFileReady f) redis" "keeps (PublishFileReady f) minio"
  "keeps (PublishFileDeleted f) db" "keeps (PublishFileDeleted f) redis" "keeps (PublishFileDeleted f) minio"
  by (simp_all add: PublishFileCreated_def PublishFileReady_def PublishFileDeleted_def Publish_keeps)

lemma Repo_List_panic_free [simp]: "panic_free (Repo_List filt)"
  unfolding Repo_List_def Let_def
  by (auto intro!: panic_free_tryE panic_free_boundedP [OF page_result_eq] simp: clampPageSize_range sql_def)

lemma client_panic_free [simp]:
  "panic_free (GetByID i)" "panic_free (Confirm i c)" "panic_free (DeleteUploadParts i)"
  "panic_free (SoftDelete i)" "panic_free (Create f)" "panic_free (Repo_ListUploadParts i)"
  "panic_free (SaveUploadPart i part)" "panic_free (Repo_List filt)"
  "panic_free (SetFile ch f)" "panic_free (InvalidateFile ch i)" "panic_free (Cache_GetFile ch i)"
  "panic_free (Publish ev)" "panic_free (PublishFileCreated f)" "panic_free (PublishFileReady f)"
  "panic_free (PublishFileDeleted f)"
  by (auto simp: GetByID_def Confirm_def DeleteUploadParts_def SoftDelete_def Create_def
      Repo_ListUploadParts_def SaveUploadPart_def Let_def SetFile_def InvalidateFile_def
      Cache_GetFile_def Publish_def PublishFileCreated_def PublishFileReady_def PublishFileDeleted_def
      split: sum.split intro!: frame_intros)

lemma storage_panic_free [simp]:
  "panic_free (Adapter_PresignUpload (app_storage c) k ct)" "panic_free (Adapter_PresignDownload (app_storage c) k)"
  "panic_free (Adapter_RemoveObject (app_storage c) k)" "panic_free (Adapter_CreateMultipartUpload (app_storage c) k ct)"
  "panic_free (Adapter_PresignUploadPart (app_storage c) k u n)"
  "panic_free (Adapter_CompleteMultipartUpload (app_storage c) k u cs)" "panic_free (Adapter_AbortMultipartUpload (app_storage c) k u)"
  by (auto simp: adapter_defs url_closure_def Client_PresignUpload_def Client_PresignDownload_def
      Client_RemoveObject_def Client_CreateMultipartUpload_def Client_PresignUploadPart_def
      Client_CompleteMultipartUpload_def Client_AbortMultipartUpload_def intro!: frame_intros)

subsection \<open>The service and its handlers\<close>

text \<open>A valid part number implies a part size, so the remainder is never by zero.\<close>

lemma partSizeForNumber_defined:
  "validatePartNumber n (TotalParts f) = None \<Longrightarrow> \<exists>m. partSizeForNumber f n = Some m"
  by (auto simp: validatePartNumber_def partSizeForNumber_def TotalParts_def Let_def split: if_splits)

lemma service_panic_free [simp]:
  "panic_free (GetFile s i ow)" "panic_free (getPendingMultipart s i ow)"
  "panic_free (ConfirmUpload s i ow ck)" "panic_free (ListFiles s filt)"
  "panic_free (ListUploadParts s i ow)" "panic_free (ReportPartUploaded s i ow n etag)"
proof -
  have "panic_free (GetFile_repo s i ow)" by (auto simp: GetFile_repo_def intro!: frame_intros)
  then show "panic_free (GetFile s i ow)"
    by (auto simp: GetFile_def split: sum.split option.split intro!: frame_intros)
  show pend: "panic_free (getPendingMultipart s i ow)"
    by (auto simp: getPendingMultipart_def intro!: frame_intros)
  show "panic_free (ConfirmUpload s i ow ck)" by (auto simp: ConfirmUpload_def intro!: frame_intros)
  show "panic_free (ListFiles s filt)" by (auto simp: ListFiles_def intro!: frame_intros)
  show "panic_free (ListUploadParts s i ow)"
    using pend by (auto simp: ListUploadParts_def intro!: frame_intros)
  show "panic_free (ReportPartUploaded s i ow n etag)"
    using pend by (auto simp: ReportPartUploaded_def Let_def intro!: frame_intros)
qed

lemma app_service_panic_free:
  "panic_free (CreateUpload (app_service c ch ps ms) ow nm ct sz)"
  "panic_free (GetDownloadURL (app_service c ch ps ms) i ow)"
  "panic_free (DeleteFile (app_service c ch ps ms) i ow)"
  "panic_free (CreateMultipartUpload (app_service c ch ps ms) ow nm ct sz)"
  "panic_free (CompleteMultipartUpload (app_service c ch ps ms) i ow ck)"
  "panic_free (AbortMultipartUpload (app_service c ch ps ms) i ow)"
  by (auto simp: CreateUpload_def GetDownloadURL_def DeleteFile_def CreateMultipartUpload_def
      CompleteMultipartUpload_def AbortMultipartUpload_def Let_def split: sum.split intro!: frame_intros)

lemma GetPartUploadURL_panic_free: "panic_free (GetPartUploadURL (app_service c ch ps ms) i ow n)"
proof -
  have "panic_free (case partSizeForNumber f n of None \<Rightarrow> Panic p | Some m \<Rightarrow> Return (r m))"
    if "validatePartNumber n (TotalParts f) = None" for f p and r :: "int64 \<Rightarrow> err + PartUploadURLResult"
    using partSizeForNumber_defined [OF that] by auto
  then show ?thesis by (auto simp: GetPartUploadURL_def intro!: frame_intros)
qed

lemma panic_free_call_svc:
  "panic_free m \<Longrightarrow> (\<And>x. panic_free (k x)) \<Longrightarrow> panic_free (call_svc m k)"
  unfolding call_svc_def by (rule panic_free_bind) (simp_all split: sum.split)

lemma dispatch_panic_free: "panic_free (dispatch (app_service c ch ps ms) rq ctx)"
  by (cases rq) (auto simp: h_CreateUpload_def h_ConfirmUpload_def h_GetFile_def h_ListFiles_def
      h_GetDownloadURL_def h_DeleteFile_def h_CreateMultipartUpload_def h_GetPartUploadURL_def
      h_ReportPartUploaded_def h_ListUploadParts_def h_CompleteMultipartUpload_def
      h_AbortMultipartUpload_def Audit_Log_def app_service_panic_free GetPartUploadURL_panic_free
      intro!: frame_intros panic_free_call_svc)

subsection \<open>The service never touches the rate limiters\<close>

lemma step_limits [simp]:
  "keeps (sql st) limits" "keeps (redis_get k) limits" "keeps (redis_write k v) limits"
  "keeps (kafka_write m) limits" "keeps (minio_call q) limits" "keeps time_Now limits"
  "keeps uuid_NewString limits" "keeps (emit l) limits"
  by (simp_all add: step_defs keeps_atomic sql_act_def Let_def split_beta)

lemma client_limits [simp]:
  "keeps (GetByID i) limits" "keeps (Confirm i c) limits" "keeps (DeleteUploadParts i) limits"
  "keeps (SoftDelete i) limits" "keeps (Create f) limits" "keeps (Repo_ListUploadParts i) limits"
  "keeps (SaveUploadPart i part) limits" "keeps (Repo_List filt) limits"
  "keeps (SetFile ch f) limits" "keeps (InvalidateFile ch i) limits" "keeps (Cache_GetFile ch i) limits"
  "keeps (PublishFileCreated f) limits" "keeps (PublishFileReady f) limits" "keeps (PublishFileDeleted f) limits"
  by (auto simp: GetByID_def Confirm_def DeleteUploadParts_def SoftDelete_def Create_def
      Repo_ListUploadParts_def SaveUploadPart_def Repo_List_def Let_def SetFile_def InvalidateFile_def
      Cache_GetFile_def Publish_def PublishFileCreated_def PublishFileReady_def PublishFileDeleted_def
      split: sum.split intro!: frame_intros)

lemma storage_limits [simp]:
  "keeps (Adapter_PresignUpload (app_storage c) k ct) limits" "keeps (Adapter_PresignDownload (app_storage c) k) limits"
  "keeps (Adapter_RemoveObject (app_storage c) k) limits" "keeps (Adapter_CreateMultipartUpload (app_storage c) k ct) limits"
  "keeps (Adapter_PresignUploadPart (app_storage c) k u n) limits"
  "keeps (Adapter_CompleteMultipartUpload (app_storage c) k u cs) limits" "keeps (Adapter_AbortMultipartUpload (app_storage c) k u) limits"
  by (auto simp: adapter_defs url_closure_def Client_PresignUpload_def Client_PresignDownload_def
      Client_RemoveObject_def Client_CreateMultipartUpload_def Client_PresignUploadPart_def
      Client_CompleteMultipartUpload_def Client_AbortMultipartUpload_def intro!: frame_intros)

lemma read_limits [simp]: "keeps (GetFile s i ow) limits" "keeps (getPendingMultipart s i ow) limits"
  by (auto simp: GetFile_def GetFile_repo_def getPendingMultipart_def
      split: sum.split option.split intro!: frame_intros)

lemma service_limits [simp]:
  "keeps (CreateUpload (app_service c ch ps ms) ow nm ct sz) limits"
  "keeps (ConfirmUpload s i ow ck) limits" "keeps (ListFiles s filt) limits"
  "keeps (GetDownloadURL (app_service c ch ps ms) i ow) limits"
  "keeps (DeleteFile (app_service c ch ps ms) i ow) limits"
  "keeps (CreateMultipartUpload (app_service c ch ps ms) ow nm ct sz) limits"
  "keeps (GetPartUploadURL (app_service c ch ps ms) i ow n) limits"
  "keeps (ReportPartUploaded s i ow n etag) limits" "keeps (ListUploadParts s i ow) limits"
  "keeps (CompleteMultipartUpload (app_service c ch ps ms) i ow ck) limits"
  "keeps (AbortMultipartUpload (app_service c ch ps ms) i ow) limits"
  by (auto simp: CreateUpload_def ConfirmUpload_def ListFiles_def GetDownloadURL_def DeleteFile_def
      CreateMultipartUpload_def GetPartUploadURL_def ReportPartUploaded_def ListUploadParts_def
      CompleteMultipartUpload_def AbortMultipartUpload_def Let_def
      split: sum.split option.split intro!: frame_intros)

lemma keeps_call_svc: "keeps m g \<Longrightarrow> (\<And>x. keeps (k x) g) \<Longrightarrow> keeps (call_svc m k) g"
  unfolding call_svc_def by (rule keeps_bind) (simp_all split: sum.split)

lemma dispatch_limits: "keeps (dispatch (app_service c ch ps ms) rq ctx) limits"
  by (cases rq) (auto simp: h_CreateUpload_def h_ConfirmUpload_def h_GetFile_def h_ListFiles_def
      h_GetDownloadURL_def h_DeleteFile_def h_CreateMultipartUpload_def h_GetPartUploadURL_def
      h_ReportPartUploaded_def h_ListUploadParts_def h_CompleteMultipartUpload_def
      h_AbortMultipartUpload_def Audit_Log_def intro!: frame_intros keeps_call_svc)

end
