(* ===== verification/Example_Deployment.thy ===== *)
theory Example_Deployment
  imports Isolation_Server Frame
begin

text \<open>
  A concrete environment, a small database and a configured service. The properties are applied
  to them to show that what they assume can hold.
\<close>

definition demo_engine :: pg_engine where
  "demo_engine = \<lparr>pgUUID = (\<lambda>s. if s = [] then None else Some (ToLower s)),
     pgTime = (\<lambda>t. t - t mod 1000), pgRefuses = (\<lambda>_ _. None)\<rparr>"

text \<open>A token is \<open>HS256:\<close>, the key and the owner.\<close>

definition demo_env :: env where
  "demo_env = \<lparr>pg = demo_engine, pgFault = (\<lambda>_. NoFault), redisFault = (\<lambda>_. NoFault),
     redisGone = (\<lambda>_. False), kafkaFault = (\<lambda>_. NoFault),
     minioReply = (\<lambda>_ _. Inr ''url''), sysReply = (\<lambda>_ _. Inr ''ok''), clock = (\<lambda>n. 1000 * int n),
     uuids = (\<lambda>n. replicate (Suc n) (CHR ''a'')),
     uuidParse = (\<lambda>s. if s = [] then None else Some (ToLower s)),
     jwtParse = (\<lambda>n token kf iss aud. case kf ''HS256'' of Inl _ \<Rightarrow> None
       | Inr key \<Rightarrow> if HasPrefix token (''HS256:'' @ key)
                   then Some (drop (6 + length key) token, []) else None),
     rateAllow = (\<lambda>r b asked n. int (length asked) < b), goTurn = even\<rparr>"

definition demo_file :: FileMetadata where
  "demo_file = \<lparr>ID = ''f1'', OwnerID = ''alice'', Bucket = ''files'', ObjectKey = ''alice/f1/a.txt'',
     OriginalName = ''a.txt'', ContentType = ''text/plain'', SizeBytes = 10, ChecksumSHA256 = [],
     Status = FileStatusReady, UploadMode = UploadModeSingle, UploadID = [], PartSize = 0,
     CreatedAt = 1000, UpdatedAt = 1000\<rparr>"

definition demo_upload :: FileMetadata where
  "demo_upload = \<lparr>ID = ''f2'', OwnerID = ''alice'', Bucket = ''files'', ObjectKey = ''alice/f2/b.bin'',
     OriginalName = ''b.bin'', ContentType = ''text/plain'', SizeBytes = 12000000, ChecksumSHA256 = [],
     Status = FileStatusPending, UploadMode = UploadModeMultipart, UploadID = ''up'', PartSize = 5242880,
     CreatedAt = 2000, UpdatedAt = 2000\<rparr>"

definition demo_parts :: "part_row list" where
  "demo_parts = map (\<lambda>n. \<lparr>pr_file_id = ''f2'',
     pr_part = \<lparr>PartNumber = n, ETag = ''e'', UploadedAt = 3000\<rparr>\<rparr>) [2, 1, 3]"

definition demo_world :: world where
  "demo_world = \<lparr>db = \<lparr>files = [demo_file, demo_upload], upload_parts = demo_parts, scripts = []\<rparr>,
     redis = (\<lambda>_. None), kafka = [], minio = [], logs = [], trace = [], limits = (\<lambda>_. None), tick = 0\<rparr>"

definition demo_client :: Client where
  "demo_client = \<lparr>bucket = ''files'', presignTTL = 900000000000\<rparr>"

definition demo_service :: FileService where
  "demo_service = app_service demo_client \<lparr>ttl = 300000000000\<rparr> 5242880 1000000000"

definition demo_auth :: AuthConfig where
  "demo_auth = \<lparr>Enabled = True, HMACSecret = ''key'', Issuer = ''garchive'', Audience = ''garchive-api''\<rparr>"

definition demo_limiter :: RateLimiter where
  "demo_limiter = NewRateLimiter 0 20"

definition bearer_ctx :: "string \<Rightarrow> rpc_context" where
  "bearer_ctx token = \<lparr>ctxOwner = None,
     ctxMetadata = Some (\<lambda>k. if k = ''authorization'' then [''Bearer '' @ token] else []),
     ctxPeer = Some ''10.0.0.1:4242''\<rparr>"

lemmas demo_defs = demo_engine_def demo_env_def demo_file_def demo_upload_def demo_parts_def
  demo_world_def demo_client_def demo_service_def demo_auth_def demo_limiter_def

subsection \<open>What is assumed of an environment and a world holds here\<close>

lemma lower_char_idem [simp]: "lower_char (lower_char c) = lower_char c"
  by (simp add: lower_char_def Let_def)

lemma ToLower_idem [simp]: "ToLower (ToLower s) = ToLower s"
  by (simp add: ToLower_def)

lemma ToLower_replicate_a: "ToLower (replicate n (CHR ''a'')) = replicate n (CHR ''a'')"
  by (simp add: ToLower_def lower_char_def)

lemma demo_engine_ok: "engine_ok demo_engine"
  by (auto simp: engine_ok_def demo_engine_def ToLower_def mod_diff_left_eq)

lemma demo_env_ok: "env_ok demo_env"
proof -
  have "pgUUID demo_engine (replicate (Suc n) (CHR ''a'')) = Some (replicate (Suc n) (CHR ''a''))" for n
    using ToLower_replicate_a [of "Suc n"] by (simp add: demo_engine_def)
  then show ?thesis using demo_engine_ok by (simp add: env_ok_def demo_env_def)
qed

lemma demo_db_wf: "db_wf (pg demo_env) (db demo_world)"
  by (simp add: db_wf_def demo_defs file_row_ok_def part_row_ok_def text_ok_def status_defs
      ToLower_def lower_char_def)

lemma demo_svc_inv: "svc_inv demo_env demo_world"
  using demo_db_wf by (simp add: svc_inv_def cache_sound_def cached_def demo_world_def)

lemma demo_pg_calm: "pg_calm demo_env"
  by (simp add: pg_calm_def demo_env_def)

lemma demo_redis_calm: "redis_calm demo_env"
  by (simp add: redis_calm_def demo_env_def)

subsection \<open>Requests with a bearer token\<close>

lemma demo_bearer: "bearerToken [''Bearer HS256:keybob''] = Some ''HS256:keybob''"
  by code_simp

lemma demo_token_owner:
  "token_owner demo_env demo_auth (bearer_ctx ''HS256:keybob'') ow \<Longrightarrow> ow = ''bob''"
  using demo_bearer
  by (auto simp: token_owner_def bearer_ctx_def demo_env_def demo_auth_def keyFor_def claims_owner_def
      split: if_splits)

lemma demo_actors: "actors demo_env demo_auth (bearer_ctx ''HS256:keybob'') rq \<subseteq> {''bob''}"
  using demo_token_owner by (auto simp: actors_def demo_auth_def)

end
