(* ===== verification/Listing.thy ===== *)
theory Listing
  imports Example_Deployment
begin

text \<open>
  Listing with page tokens. The locale \<open>keyset_paging\<close> is the contract of a page query over
  rows in strictly descending order of a key: asked for what follows a row, it returns what
  follows it. The page query of the repository is an instance, its tokens carry the key, and a
  client that follows the tokens gets every live file of the owner once, newest first.
\<close>

subsection \<open>Paging by a key\<close>

locale keyset_paging =
  fixes wf :: "'s \<Rightarrow> bool" and key :: "'r \<Rightarrow> 'k :: linorder" and rows :: "'s \<Rightarrow> 'r list"
    and query :: "'k option \<Rightarrow> 's \<Rightarrow> 'r list"
  assumes descending: "wf s \<Longrightarrow> sorted_wrt (\<lambda>a b. key b < key a) (rows s)"
    and query_first: "wf s \<Longrightarrow> query None s = rows s"
    and query_next: "wf s \<Longrightarrow> r \<in> set (rows s) \<Longrightarrow>
      query (Some (key r)) s = filter (\<lambda>x. key x < key r) (rows s)"
begin

lemma filter_below:
  "sorted_wrt (\<lambda>a b. key b < key a) xs \<Longrightarrow> k < length xs \<Longrightarrow>
   filter (\<lambda>x. key x < key (xs ! k)) xs = drop (Suc k) xs"
proof (induction xs arbitrary: k)
  case (Cons x xs)
  show ?case
  proof (cases k)
    case 0
    have "\<forall>y \<in> set xs. key y < key x" using Cons.prems by simp
    then show ?thesis using 0 by simp
  next
    case (Suc j)
    then have "xs ! j \<in> set xs" using Cons.prems by simp
    then have "\<not> key x < key (xs ! j)" using Cons.prems by auto
    then show ?thesis using Cons Suc by simp
  qed
qed simp

text \<open>The query with the key of row \<open>k\<close> returns the rows after it.\<close>

lemma query_after: "wf s \<Longrightarrow> k < length (rows s) \<Longrightarrow> query (Some (key (rows s ! k))) s = drop (Suc k) (rows s)"
  using query_next [of s "rows s ! k"] filter_below [OF descending] by simp

lemma rows_distinct: "wf s \<Longrightarrow> distinct (rows s)"
  by (drule descending) (simp add: distinct_conv_nth sorted_wrt_iff_nth_less nat_neq_iff, metis order.irrefl)

end

subsection \<open>The page query\<close>

definition live_rows :: "string \<Rightarrow> pgdb \<Rightarrow> FileMetadata list" where
  "live_rows owner d =
     rev (sort_key page_key (filter (\<lambda>r. OwnerID r = owner \<and> Status r \<noteq> FileStatusDeleted) (files d)))"

text \<open>The cursor arguments of the statement for a key.\<close>

definition page_query :: "pg_engine \<Rightarrow> string \<Rightarrow> (time \<times> string) option \<Rightarrow> pgdb \<Rightarrow> FileMetadata list" where
  "page_query P owner c d =
     page_rows P owner (map_option fst c) (case c of None \<Rightarrow> uuid_Nil | Some (_, i) \<Rightarrow> i) d"

lemma rev_sorted_strict:
  assumes "distinct (map f xs)"
  shows "sorted_wrt (\<lambda>a b. f b < f a) (rev (sort_key f xs))"
proof -
  have "distinct (map f (sort_key f xs))"
    using assms by (simp add: distinct_map)
  then have "sorted_wrt (<) (map f (sort_key f xs))"
    by (simp add: strict_sorted_iff)
  then show ?thesis by (simp add: sorted_wrt_rev sorted_wrt_map)
qed

lemma live_keys_distinct: "db_wf P d \<Longrightarrow> distinct (map page_key (filter Q (files d)))"
  by (rule distinct_map_filter)
    (auto simp: db_wf_def page_key_def [abs_def] distinct_map inj_on_def)

interpretation paging: keyset_paging "db_wf P" page_key "live_rows ow" "page_query P ow" for P ow
proof unfold_locales
  fix d assume wf: "db_wf P d"
  show "sorted_wrt (\<lambda>a b. page_key b < page_key a) (live_rows ow d)"
    unfolding live_rows_def by (rule rev_sorted_strict [OF live_keys_distinct [OF wf]])
  show "page_query P ow None d = live_rows ow d"
    by (simp add: page_query_def page_rows_def live_rows_def)
  fix r assume "r \<in> set (live_rows ow d)"
  then have "r \<in> set (files d)" by (simp add: live_rows_def)
  then have "pgTime P (CreatedAt r) = CreatedAt r" using wf by (simp add: db_wf_def)
  then show "page_query P ow (Some (page_key r)) d = filter (\<lambda>x. page_key x < page_key r) (live_rows ow d)"
    by (simp add: page_query_def page_rows_def live_rows_def page_key_def [of r] filter_sort
        rev_filter [symmetric] conj_ac)
qed

subsection \<open>Tokens\<close>

definition int64_time :: "time \<Rightarrow> bool" where
  "int64_time t \<longleftrightarrow> - (2 ^ 63) \<le> t \<and> t < 2 ^ 63"

lemma UnixNano_int64_time: "int64_time t \<Longrightarrow> UnixNano t = t"
  by (simp add: UnixNano_def int64_time_def sint64_word_of_int)

text \<open>
  The identifier of a row as the token carries it: without white space, and read back by
  \<open>uuid.Parse\<close> as it is.
\<close>

definition token_id :: "(string \<Rightarrow> string option) \<Rightarrow> string \<Rightarrow> bool" where
  "token_id parse i \<longleftrightarrow> i \<noteq> [] \<and> (\<forall>c \<in> set i. solid_char c) \<and> parse i = Some i"

lemma decode_encode:
  "int64_time t \<Longrightarrow> token_id parse i \<Longrightarrow> decodePageToken parse (encodePageToken t i) = Some (t, i)"
  using Sscanf_printed [of t i]
  by (simp add: decodePageToken_def encodePageToken_def UnixNano_int64_time token_id_def int64_time_def)

lemma cursor_encode:
  assumes "int64_time t" and "token_id parse i"
  shows "page_cursor parse (encodePageToken t i) = Inr (Some t, i)"
proof -
  have "encodePageToken t i \<noteq> []" by (simp add: encodePageToken_def)
  moreover have "t \<noteq> zero_time" using assms(1) by (auto simp: int64_time_def zero_time_def)
  ultimately show ?thesis by (simp add: page_cursor_def decode_encode [OF assms])
qed

subsection \<open>One page\<close>

text \<open>The token for the rows from position \<open>k\<close> on, and the page there.\<close>

definition token_at :: "FileMetadata list \<Rightarrow> nat \<Rightarrow> string" where
  "token_at rows k =
     (if k = 0 then [] else encodePageToken (CreatedAt (rows ! (k - 1))) (ID (rows ! (k - 1))))"

definition page_at :: "FileMetadata list \<Rightarrow> nat \<Rightarrow> nat \<Rightarrow> ListResult" where
  "page_at rows n k = \<lparr>Files = take n (drop k rows),
     NextPageToken = (if k + n < length rows then token_at rows (k + n) else [])\<rparr>"

lemma page_result_take:
  assumes "0 < sint n"
  shows "page_result n (take (Suc (nat (sint n))) (drop k rows)) = Some (page_at rows (nat (sint n)) k)"
proof -
  let ?m = "nat (sint n)"
  have m: "0 < ?m" using assms by simp
  show ?thesis
  proof (cases "k + ?m < length rows")
    case True
    then have "take (Suc ?m) (drop k rows) ! (?m - 1) = rows ! (k + ?m - 1)"
      using m by (simp add: nth_append)
    moreover have "?m < length rows - k" using True by linarith
    ultimately show ?thesis
      using True m assms by (simp add: page_result_eq page_at_def token_at_def Let_def min_def)
  next
    case False
    then have "\<not> ?m < length rows - k" by linarith
    then show ?thesis using False assms by (simp add: page_result_eq page_at_def Let_def)
  qed
qed

lemma sint_limit: "sint (clampPageSize n + 1) = sint (clampPageSize n) + 1"
  using clampPageSize_range [of n] sint32_add [of "clampPageSize n" 1] by simp

definition page_len :: "int32 \<Rightarrow> nat" where
  "page_len n = nat (sint (clampPageSize n))"

lemma page_len_range: "1 \<le> page_len n \<and> page_len n \<le> 100"
  using clampPageSize_range [of n] unfolding page_len_def by linarith

text \<open>Rows whose tokens can be read back.\<close>

definition tokens_ok :: "env \<Rightarrow> pgdb \<Rightarrow> bool" where
  "tokens_ok E d \<longleftrightarrow> (\<forall>r \<in> set (files d). int64_time (CreatedAt r) \<and> token_id (uuidParse E) (ID r))"

lemma run_ListFiles_page:
  assumes calm: "pg_calm E" and wf: "db_wf (pg E) (db w)" and tok: "tokens_ok E (db w)"
    and ow: "OwnerID_check ow = None" and k: "k = 0 \<or> k < length (live_rows ow (db w))"
  shows "run (ListFiles s \<lparr>FilterOwnerID = ow, PageSize = n, PageToken = token_at (live_rows ow (db w)) k\<rparr>) E w =
    (Value (Inr (page_at (live_rows ow (db w)) (page_len n) k)), w\<lparr>tick := Suc (tick w)\<rparr>)"
proof -
  let ?rows = "live_rows ow (db w)"
  define c where "c = (if k = 0 then None else Some (page_key (?rows ! (k - 1))))"
  have r: "?rows ! (k - 1) \<in> set (files (db w))" if "k \<noteq> 0"
  proof -
    have "?rows ! (k - 1) \<in> set ?rows" using k that by (intro nth_mem) simp
    then show ?thesis by (simp add: live_rows_def)
  qed
  have cur: "page_cursor (uuidParse E) (token_at ?rows k) =
      Inr (map_option fst c, case c of None \<Rightarrow> uuid_Nil | Some (_, i) \<Rightarrow> i)"
    using tok r cursor_encode
    by (cases "k = 0") (simp_all add: page_cursor_def token_at_def c_def page_key_def tokens_ok_def)
  have q: "page_query (pg E) ow c (db w) = drop k ?rows"
    using paging.query_first [OF wf, of ow] paging.query_after [OF wf, of "k - 1" ow] k by (auto simp: c_def)
  have t: "text_ok ow"
  proof -
    have "set ow \<subseteq> set (alnum @ ''_-'')" using ow by (simp only: OwnerID_check_None)
    moreover have "CHR 0x00 \<notin> set (alnum @ ''_-'')"
      by (simp add: alnum_def lower_letters_def upper_letters_def digit_chars_def)
    ultimately show ?thesis by (auto simp: text_ok_def simp del: set_append)
  qed
  have "nat (sint (clampPageSize n + 1)) = Suc (page_len n)"
    using clampPageSize_range [of n] unfolding sint_limit page_len_def by linarith
  moreover have "\<not> sint (clampPageSize n + 1) < 0" using clampPageSize_range [of n] sint_limit [of n] by simp
  ultimately show ?thesis
    using q t ow clampPageSize_range [of n] page_result_take [of "clampPageSize n" k ?rows]
    by (simp add: ListFiles_def Repo_List_def Let_def run_simps run_sql_calm [OF calm] cur sql_select_page_def
        page_query_def page_len_def boundedP_def)
qed

subsection \<open>All pages\<close>

text \<open>A client that asks for page after page, at most \<open>fuel\<close> of them.\<close>

fun fetch_pages :: "nat \<Rightarrow> FileService \<Rightarrow> string \<Rightarrow> int32 \<Rightarrow> string \<Rightarrow> (err + FileMetadata list) prog" where
  "fetch_pages 0 s ow n token = Return (Inr [])"
| "fetch_pages (Suc fuel) s ow n token =
     tryE (ListFiles s \<lparr>FilterOwnerID = ow, PageSize = n, PageToken = token\<rparr>) (\<lambda>page.
     if NextPageToken page = [] then Return (Inr (Files page))
     else tryE (fetch_pages fuel s ow n (NextPageToken page)) (\<lambda>rest. Return (Inr (Files page @ rest))))"

lemma token_at_nonempty: "0 < k \<Longrightarrow> token_at rows k \<noteq> []"
  by (simp add: token_at_def encodePageToken_def)

lemma run_fetch_pages:
  assumes "pg_calm E" and "db_wf (pg E) (db w)" and "tokens_ok E (db w)" and "OwnerID_check ow = None"
    and "k = 0 \<or> k < length (live_rows ow (db w))" and "length (live_rows ow (db w)) < k + fuel"
  shows "fst (run (fetch_pages fuel s ow n (token_at (live_rows ow (db w)) k)) E w) =
    Value (Inr (drop k (live_rows ow (db w))))"
  using assms
proof (induction fuel arbitrary: k w)
  case 0
  then show ?case by simp
next
  case (Suc fuel)
  let ?rows = "live_rows ow (db w)" and ?w = "w\<lparr>tick := Suc (tick w)\<rparr>" and ?m = "page_len n"
  note page = run_ListFiles_page [OF Suc.prems(1-5), of s n]
  show ?case
  proof (cases "k + ?m < length ?rows")
    case True
    have "fst (run (fetch_pages fuel s ow n (token_at ?rows (k + ?m))) E ?w) = Value (Inr (drop (k + ?m) ?rows))"
      using Suc.IH [of ?w "k + ?m"] Suc.prems True page_len_range [of n] by simp
    moreover have "take ?m (drop k ?rows) @ drop (k + ?m) ?rows = drop k ?rows"
      by (metis append_take_drop_id drop_drop add.commute)
    ultimately show ?thesis
      using True page_len_range [of n] token_at_nonempty [of "k + ?m" ?rows]
      by (auto simp: run_simps page page_at_def split: prod.split)
  next
    case False
    then show ?thesis by (simp add: run_simps page page_at_def)
  qed
qed

lemma set_live_rows:
  "set (live_rows ow d) = {r \<in> set (files d). OwnerID r = ow \<and> Status r \<noteq> FileStatusDeleted}"
  by (auto simp: live_rows_def)

lemma length_live_rows: "length (live_rows ow d) \<le> length (files d)"
  by (simp add: live_rows_def)

subsection \<open>Properties\<close>

text \<open>
  C11. A client that starts without a token and follows the token of each page until a page has
  none gets, while the tables do not change and Postgres answers, every live file of the owner
  exactly once, in strictly descending order of creation time and identifier, whatever page size
  it asks for. One request more than there are files is always enough.
\<close>
theorem list_all_pages:
  assumes "pg_calm E" and "db_wf (pg E) (db w)" and "tokens_ok E (db w)" and "OwnerID_check ow = None"
    and "length (files (db w)) < fuel"
  shows "\<exists>fs. result (fetch_pages fuel s ow n []) E w = Value (Inr fs) \<and> distinct fs \<and>
     set fs = {r \<in> set (files (db w)). OwnerID r = ow \<and> Status r \<noteq> FileStatusDeleted} \<and>
     sorted_wrt (\<lambda>a b. page_key b < page_key a) fs"
proof -
  have "length (live_rows ow (db w)) < 0 + fuel"
    using assms(5) length_live_rows [of ow "db w"] by linarith
  then have "fst (run (fetch_pages fuel s ow n (token_at (live_rows ow (db w)) 0)) E w) =
      Value (Inr (live_rows ow (db w)))"
    using run_fetch_pages [OF assms(1-4), of 0 fuel] by simp
  then show ?thesis
    using paging.rows_distinct [OF assms(2)] paging.descending [OF assms(2)]
    by (simp add: token_at_def result_def set_live_rows)
qed

lemma demo_tokens_ok: "tokens_ok demo_env (db demo_world)"
  by (simp add: tokens_ok_def demo_defs int64_time_def token_id_def solid_char_def white_space_def
      ToLower_def lower_char_def)

lemma alice_ok: "OwnerID_check ''alice'' = None"
  by (simp only: OwnerID_check_None) code_simp

theorem list_all_pages_witness:
  "\<exists>fs. result (fetch_pages 3 demo_service ''alice'' 1 []) demo_env demo_world = Value (Inr fs) \<and>
     distinct fs \<and> set fs = {demo_file, demo_upload}"
proof -
  have "{r \<in> set (files (db demo_world)). OwnerID r = ''alice'' \<and> Status r \<noteq> FileStatusDeleted} =
      {demo_file, demo_upload}"
    by (auto simp: demo_world_def demo_file_def demo_upload_def)
  moreover have "length (files (db demo_world)) < 3" by (simp add: demo_world_def)
  ultimately show ?thesis
    using list_all_pages [OF demo_pg_calm demo_db_wf demo_tokens_ok alice_ok, of 3 demo_service 1] by metis
qed

text \<open>
  C12. A page token carries its position exactly: the token made for a row with an instant in the
  range of \<open>UnixNano\<close> and an identifier that \<open>uuid.Parse\<close> reads back is decoded to the same
  instant and identifier, and is used as a cursor with them.
\<close>
theorem page_token_roundtrip:
  assumes "int64_time t" and "token_id parse i"
  shows "decodePageToken parse (encodePageToken t i) = Some (t, i) \<and>
    page_cursor parse (encodePageToken t i) = Inr (Some t, i)"
  using decode_encode [OF assms] cursor_encode [OF assms] by simp

theorem page_token_roundtrip_witness:
  "decodePageToken Some (encodePageToken 1700000000000000000 ''0b1e-ff'') = Some (1700000000000000000, ''0b1e-ff'')"
proof -
  have "int64_time 1700000000000000000" by (simp add: int64_time_def)
  moreover have "token_id Some ''0b1e-ff''" by (simp add: token_id_def solid_char_def white_space_def)
  ultimately show ?thesis using page_token_roundtrip by blast
qed

end
