(* ===== verification/Multipart_Facts.thy ===== *)
theory Multipart_Facts
  imports Example_Deployment
begin

text \<open>
  Uploads in parts: how a file is cut into parts, what the completion of an upload sends to the
  object storage, and what it accepts.
\<close>

subsection \<open>The sizes of the parts\<close>

lemma ceil_quot_cases:
  fixes s p :: int
  assumes "0 < p"
  shows "(s + p - 1) div p = s div p + (if s mod p = 0 then 0 else 1)"
proof -
  have b: "0 \<le> s mod p" "s mod p < p" using assms by simp_all
  have "s = s mod p + p * (s div p)" by simp
  then have e: "s + p - 1 = (s mod p + p - 1) + p * (s div p)" by linarith
  have "(s + p - 1) div p = s div p + (s mod p + p - 1) div p"
    by (subst e, rule div_mult_self2) (use assms in simp)
  moreover have "(s mod p + p - 1) div p = (if s mod p = 0 then 0 else 1)"
  proof (cases "s mod p = 0")
    case False
    then have "0 \<le> s mod p - 1" "s mod p - 1 < p" using b by linarith+
    then have "(s mod p - 1) div p = 0" by simp
    moreover have "(s mod p - 1 + p) div p = (s mod p - 1) div p + 1"
      using assms by (intro div_add_self2) simp
    moreover have "s mod p - 1 + p = s mod p + p - 1" by simp
    ultimately show ?thesis using False by (metis add_0)
  qed (use assms in simp)
  ultimately show ?thesis by simp
qed

lemma partSizeForNumber_last:
  assumes fit: "parts_fit f" and n: "sint n = sint (TotalParts f)"
  shows "\<exists>m. partSizeForNumber f n = Some m \<and> sint m = sint (SizeBytes f) - (sint (TotalParts f) - 1) * sint (PartSize f)
    \<and> 1 \<le> sint m \<and> sint m \<le> sint (PartSize f)"
proof -
  let ?s = "sint (SizeBytes f)" and ?p = "sint (PartSize f)" and ?N = "sint (TotalParts f)"
  have s: "0 < ?s" and p: "0 < ?p" using fit by (auto simp: parts_fit_def)
  then have p0: "PartSize f \<noteq> 0" by auto
  have N: "?N = ?s div ?p + (if ?s mod ?p = 0 then 0 else 1)"
    using TotalParts_ceiling [OF fit] ceil_quot_cases [OF p] by simp
  have r: "sint (rem64 (SizeBytes f) (PartSize f)) = ?s mod ?p" using s p by (simp add: sint_rem64)
  have b: "0 \<le> ?s mod ?p" "?s mod ?p < ?p" using p by simp_all
  have dm: "?s div ?p * ?p = ?s - ?s mod ?p" by (simp add: minus_mod_eq_div_mult)
  show ?thesis
  proof (cases "?s mod ?p = 0")
    case True
    then have "rem64 (SizeBytes f) (PartSize f) = 0" using r by (simp add: signed_eq_0_iff)
    then have "partSizeForNumber f n = Some (PartSize f)" using n p0 by (simp add: partSizeForNumber_def)
    moreover have "(?N - 1) * ?p = ?s - ?p" using N True dm by (simp add: left_diff_distrib)
    ultimately show ?thesis using p by simp
  next
    case False
    then have "rem64 (SizeBytes f) (PartSize f) \<noteq> 0" using r by auto
    then have "partSizeForNumber f n = Some (rem64 (SizeBytes f) (PartSize f))"
      using n p0 by (simp add: partSizeForNumber_def)
    moreover have "(?N - 1) * ?p = ?s - ?s mod ?p" using N False dm by simp
    ultimately show ?thesis using r b False by simp
  qed
qed

definition part_len :: "FileMetadata \<Rightarrow> int \<Rightarrow> int" where
  "part_len f n = (case partSizeForNumber f (word_of_int n) of None \<Rightarrow> 0 | Some m \<Rightarrow> sint m)"

lemma part_len_full:
  "1 \<le> n \<Longrightarrow> n < sint (TotalParts f) \<Longrightarrow> part_len f n = sint (PartSize f)"
  using sint32_range(2) [of "TotalParts f"] by (simp add: part_len_def partSizeForNumber_def sint32_word_of_int)

lemma part_len_last:
  assumes "parts_fit f"
  shows "part_len f (sint (TotalParts f)) =
      sint (SizeBytes f) - (sint (TotalParts f) - 1) * sint (PartSize f)"
    and "1 \<le> part_len f (sint (TotalParts f))" "part_len f (sint (TotalParts f)) \<le> sint (PartSize f)"
  using partSizeForNumber_last [OF assms, of "TotalParts f"] by (auto simp: part_len_def)

lemma sum_part_len:
  assumes "parts_fit f"
  shows "(\<Sum>n = 1..sint (TotalParts f). part_len f n) = sint (SizeBytes f)"
proof -
  let ?N = "sint (TotalParts f)"
  have N: "1 \<le> ?N" by (rule TotalParts_pos [OF assms])
  then have "{1..?N} = insert ?N {1..<?N}" by auto
  then have "(\<Sum>n = 1..?N. part_len f n) = part_len f ?N + (\<Sum>n \<in> {1..<?N}. part_len f n)" by simp
  also have "(\<Sum>n \<in> {1..<?N}. part_len f n) = (\<Sum>n \<in> {1..<?N}. sint (PartSize f))"
    by (rule sum.cong) (auto simp: part_len_full)
  also have "\<dots> = (?N - 1) * sint (PartSize f)" using N by simp
  finally show ?thesis using part_len_last(1) [OF assms] by simp
qed

subsection \<open>The parts that complete an upload\<close>

lemma collect_parts_Inr:
  "collect_parts N seen ps = Inr cs \<Longrightarrow>
     cs = map (\<lambda>p. \<lparr>CompletedNumber = PartNumber p, CompletedETag = ETag p\<rparr>) ps \<and>
     distinct (map PartNumber ps) \<and> PartNumber ` set ps \<inter> seen = {} \<and>
     (\<forall>p \<in> set ps. 1 \<le> sint (PartNumber p) \<and> sint (PartNumber p) \<le> sint N)"
proof (induction ps arbitrary: seen cs)
  case (Cons p ps)
  then obtain ds where ds: "collect_parts N (insert (PartNumber p) seen) ps = Inr ds"
    "cs = \<lparr>CompletedNumber = PartNumber p, CompletedETag = ETag p\<rparr> # ds"
    "PartNumber p \<notin> seen" "validatePartNumber (PartNumber p) N = None"
    by (auto split: option.splits if_splits sum.splits)
  with Cons.IH [OF ds(1)] show ?case
    by (auto simp: validatePartNumber_def split: if_splits)
qed simp

lemma sorted_full_range:
  assumes "sorted xs" and "distinct xs" and "set xs \<subseteq> {1..n}" and "int (length xs) = n"
  shows "xs = [1..n]"
proof -
  have "card (set xs) = card {1..n}" using assms(2,4) by (simp add: distinct_card)
  then have "set xs = {1..n}" using assms(3) by (simp add: card_subset_eq)
  then show ?thesis using assms(1,2) by (intro sorted_distinct_set_unique) simp_all
qed

lemma sorted_parts_of: "sorted (map (\<lambda>p. sint (PartNumber p)) (parts_of d u))"
  by (simp add: parts_of_def)

text \<open>The recorded parts as the object storage is told of them: number and ETag.\<close>

definition recorded :: "pgdb \<Rightarrow> string \<Rightarrow> (int \<times> string) list" where
  "recorded d u = map (\<lambda>p. (sint (PartNumber p), ETag p)) (parts_of d u)"

lemma set_recorded:
  "(n, e) \<in> set (recorded d u) \<longleftrightarrow> (\<exists>p \<in> set (upload_parts d). pr_file_id p = u \<and>
     sint (PartNumber (pr_part p)) = n \<and> ETag (pr_part p) = e)"
  by (auto simp: recorded_def parts_of_def image_iff)

lemma complete_numbers:
  assumes "collect_parts N {} (parts_of d u) = Inr cs"
    and "(word_of_int (int (length (parts_of d u))) :: int32) = N"
  shows "map (\<lambda>p. (sint (CompletedNumber p), CompletedETag p)) cs = recorded d u \<and>
    map fst (recorded d u) = [1..sint N]"
proof -
  let ?ps = "parts_of d u"
  let ?ns = "map (\<lambda>p. sint (PartNumber p)) ?ps"
  note c = collect_parts_Inr [OF assms(1)]
  have d: "distinct ?ns"
    using c by (auto simp: distinct_map inj_on_def dest: signed_word_eqI)
  have r: "set ?ns \<subseteq> {1..sint N}" using c by auto
  have "length ?ns \<le> card {1..sint N}"
    using card_mono [OF _ r] d by (simp add: distinct_card [symmetric] del: length_map)
  then have "length ?ps < 2 ^ 31" using sint32_range(2) [of N] by simp
  then have len: "int (length ?ps) = sint N"
    using sint32_word_of_int [of "int (length ?ps)"] unfolding assms(2) by simp
  then have "?ns = [1..sint N]"
    by (intro sorted_full_range sorted_parts_of d r) simp
  then show ?thesis using c by (simp add: recorded_def comp_def)
qed

subsection \<open>A run of the completion\<close>

lemma GetByID_Inr:
  assumes "db_wf (pg E) (db w)" and "fst (run (GetByID i) E w) = Value (Inr f)"
  shows "\<exists>u. pgUUID (pg E) i = Some u \<and> get_row (db w) u = Some f"
proof -
  from assms(2) obtain rows where "fst (sql_select_file (pg E) i (db w)) = Inr rows" and f: "rows \<noteq> []" "hd rows = f"
    by (auto simp: GetByID_def sql_def run_simps sql_act_def Let_def split_beta scanFile_def
        QueryRow_Scan_def faulty_def split: sum.splits if_splits list.splits fault.splits)
  then have "sql_select_file (pg E) i (db w) = (Inr rows, db w)"
    using snd_queries(1) [of "pg E" i "db w"] by (metis prod.collapse)
  from sql_select_file_Inr [OF assms(1) this] f show ?thesis by (auto split: option.splits)
qed

lemma keeps_getPendingMultipart [simp]:
  "keeps (getPendingMultipart s i ow) db" "keeps (getPendingMultipart s i ow) minio"
  by (auto simp: getPendingMultipart_def intro!: frame_intros)

lemma getPendingMultipart_Inr:
  assumes "db_wf (pg E) (db w)" and "fst (run (getPendingMultipart s i ow) E w) = Value (Inr f)"
  shows "\<exists>u. pgUUID (pg E) i = Some u \<and> get_row (db w) u = Some f \<and> OwnerID f = ow \<and>
    Status f = FileStatusPending \<and> IsMultipart f \<and> UploadID f \<noteq> []"
  using assms(2) GetByID_Inr [OF assms(1), of i f]
  by (auto simp: getPendingMultipart_def run_simps IsOwnedBy_def
      split: if_splits prod.splits outcome.splits sum.splits)

lemma minio_completeMultipart:
  "minio (snd (run (Adapter_CompleteMultipartUpload (app_storage c) k u cs) E w)) =
     minio w @ [CompleteMultipartReq (bucket c) k u (map (\<lambda>p. (sint (CompletedNumber p), CompletedETag p)) cs)]"
  by (simp add: adapter_defs Client_CompleteMultipartUpload_def minio_call_def run_simps)

lemma Repo_ListUploadParts_Inr:
  assumes "fst (run (Repo_ListUploadParts u) E w) = Value (Inr parts)"
  shows "\<exists>v. pgUUID (pg E) u = Some v \<and> parts = parts_of (db w) v"
  using assms by (auto simp: Repo_ListUploadParts_def sql_def run_simps sql_act_def Let_def split_beta
      sql_select_parts_def faulty_def split: option.splits fault.splits)

text \<open>What the completion sends once the parts are collected.\<close>

definition finish_upload :: "FileService \<Rightarrow> string \<Rightarrow> string \<Rightarrow> FileMetadata \<Rightarrow> CompletedPart list \<Rightarrow> (err + FileMetadata) prog" where
  "finish_upload s i ck file completed =
     tryE (Adapter_CompleteMultipartUpload (storage s) (ObjectKey file) (UploadID file) completed) (\<lambda>_.
     tryE (Confirm i ck) (\<lambda>confirmed.
     discard (DeleteUploadParts i) (
     discard (SetFile (cache s) confirmed) (
     discard (PublishFileReady confirmed) (Return (Inr confirmed))))))"

lemma minio_finish_upload:
  "minio (snd (run (finish_upload (app_service c ch ps ms) i ck f cs) E w)) =
     minio w @ [CompleteMultipartReq (bucket c) (ObjectKey f) (UploadID f)
       (map (\<lambda>p. (sint (CompletedNumber p), CompletedETag p)) cs)]"
  unfolding finish_upload_def app_service_simps
  by (subst keeps_after_tryE) (auto intro!: frame_intros simp: minio_completeMultipart)

definition check_parts :: "FileService \<Rightarrow> string \<Rightarrow> string \<Rightarrow> FileMetadata \<Rightarrow> UploadPart list \<Rightarrow> (err + FileMetadata) prog" where
  "check_parts s i ck file parts =
     (if (word_of_int (int (length parts)) :: int32) \<noteq> TotalParts file
      then Return (Inl (Wrapf [] ErrInvalidInput ('': expected '' @ int_to_string (sint (TotalParts file))
             @ '' parts, got '' @ int_to_string (int (length parts)))))
      else (case collect_parts (TotalParts file) {} parts of
              Inl e \<Rightarrow> Return (Inl e)
            | Inr completed \<Rightarrow> finish_upload s i ck file completed))"

lemma CompleteMultipartUpload_steps:
  "CompleteMultipartUpload s i ow ck =
     (if i = [] \<or> ow = [] then Return (Inl ErrInvalidInput)
      else guardE (ChecksumSHA256_check ck) (
        tryE (getPendingMultipart s i ow) (\<lambda>file.
        tryE (Repo_ListUploadParts (ID file)) (check_parts s i ck file))))"
  unfolding CompleteMultipartUpload_def check_parts_def [abs_def] finish_upload_def [abs_def] Let_def ..

text \<open>The request that completes the upload of row \<open>r\<close> with the parts recorded for it.\<close>

definition completion_of :: "string \<Rightarrow> pgdb \<Rightarrow> FileMetadata \<Rightarrow> minio_req" where
  "completion_of b d r = CompleteMultipartReq b (ObjectKey r) (UploadID r)
     (recorded d (ID r))"

lemma check_parts_cases:
  assumes "parts = parts_of d (ID f)"
  shows "(minio (snd (run (check_parts (app_service c ch ps ms) i ck f parts) E w)) = minio w \<and>
      (\<exists>e. fst (run (check_parts (app_service c ch ps ms) i ck f parts) E w) = Value (Inl e))) \<or>
    (minio (snd (run (check_parts (app_service c ch ps ms) i ck f parts) E w)) = minio w @ [completion_of (bucket c) d f] \<and>
     map fst (recorded d (ID f)) = [1..sint (TotalParts f)])"
proof (cases "(word_of_int (int (length parts)) :: int32) = TotalParts f")
  case True
  show ?thesis
  proof (cases "collect_parts (TotalParts f) {} parts")
    case (Inr cs)
    have "map (\<lambda>p. (sint (CompletedNumber p), CompletedETag p)) cs = recorded d (ID f) \<and>
        map fst (recorded d (ID f)) = [1..sint (TotalParts f)]"
      using complete_numbers [of "TotalParts f" d "ID f" cs] Inr True assms by simp
    then show ?thesis using True Inr by (simp add: check_parts_def minio_finish_upload completion_of_def)
  qed (use True in \<open>simp add: check_parts_def\<close>)
qed (simp add: check_parts_def)

lemma complete_run:
  assumes wf: "db_wf (pg E) (db w)"
  shows "(minio (after (CompleteMultipartUpload (app_service c ch ps ms) i ow ck) E w) = minio w \<and>
      (\<exists>e. result (CompleteMultipartUpload (app_service c ch ps ms) i ow ck) E w = Value (Inl e))) \<or>
    (\<exists>r. pgUUID (pg E) i = Some (ID r) \<and> get_row (db w) (ID r) = Some r \<and> OwnerID r = ow \<and>
       Status r = FileStatusPending \<and>
       minio (after (CompleteMultipartUpload (app_service c ch ps ms) i ow ck) E w) =
         minio w @ [completion_of (bucket c) (db w) r] \<and>
       map fst (recorded (db w) (ID r)) = [1..sint (TotalParts r)])"
    (is "?err (CompleteMultipartUpload ?s i ow ck) \<or> ?done (CompleteMultipartUpload ?s i ow ck)")
proof (cases "i = [] \<or> ow = [] \<or> ChecksumSHA256_check ck \<noteq> None")
  case True
  then show ?thesis
    by (auto simp: CompleteMultipartUpload_steps after_def result_def guardE_def)
next
  case False
  let ?k = "\<lambda>f. tryE (Repo_ListUploadParts (ID f)) (check_parts ?s i ck f)"
  have steps: "CompleteMultipartUpload ?s i ow ck = tryE (getPendingMultipart ?s i ow) ?k"
    using False by (simp add: CompleteMultipartUpload_steps guardE_def)
  obtain r v where p: "run (getPendingMultipart ?s i ow) E w = (Value r, v)" and db: "db v = db w"
    using run_keeps_eq [of "getPendingMultipart ?s i ow" db E w] by auto
  have mv: "minio v = minio w" using keeps_run [of "getPendingMultipart ?s i ow" minio E w] p by simp
  show ?thesis
  proof (cases r)
    case (Inl e)
    then show ?thesis using p mv by (simp add: steps after_def result_def run_tryE)
  next
    case (Inr f)
    then obtain u where f: "pgUUID (pg E) i = Some u" "get_row (db w) u = Some f" "OwnerID f = ow"
      "Status f = FileStatusPending"
      using getPendingMultipart_Inr [OF wf, of ?s i ow f] p by auto
    then have u: "u = ID f" and cu: "pgUUID (pg E) (ID f) = Some (ID f)"
      using get_row_ID [of "db w" u f] get_row_canonical [OF wf, of u f] by auto
    obtain q x where l: "run (Repo_ListUploadParts (ID f)) E v = (Value q, x)" and dx: "minio x = minio w"
      using run_keeps_eq [of "Repo_ListUploadParts (ID f)" minio E v] mv by auto
    show ?thesis
    proof (cases q)
      case (Inl e)
      then show ?thesis using p Inr l dx by (simp add: steps after_def result_def run_tryE)
    next
      case (Inr parts)
      then have "parts = parts_of (db w) (ID f)"
        using Repo_ListUploadParts_Inr [of "ID f" E v parts] l db cu by auto
      from check_parts_cases [OF this, of c ch ps ms i ck E x]
      show ?thesis
        using p \<open>r = Inr f\<close> l Inr dx f u by (auto simp: steps after_def result_def run_tryE)
    qed
  qed
qed

subsection \<open>Properties\<close>

text \<open>
  C7. Completing an upload in parts either fails without asking the object storage for anything,
  or sends it exactly one request: to assemble, under the object key and upload identifier of the
  pending file of the caller, the parts numbered 1 to \<open>TotalParts\<close>, each once and in ascending
  order, and the ETag sent with a number is the one recorded for the file under that number. So
  nothing is assembled while a part is missing. This holds with any failures of the servers.
\<close>
theorem complete_sends_every_part:
  assumes "db_wf (pg E) (db w)"
  shows "let p = CompleteMultipartUpload (app_service c ch ps ms) i ow ck in
    (minio (after p E w) = minio w \<and> (\<exists>e. result p E w = Value (Inl e))) \<or>
    (\<exists>r sent. pgUUID (pg E) i = Some (ID r) \<and> get_row (db w) (ID r) = Some r \<and> OwnerID r = ow \<and>
       Status r = FileStatusPending \<and>
       minio (after p E w) = minio w @ [CompleteMultipartReq (bucket c) (ObjectKey r) (UploadID r) sent] \<and>
       map fst sent = [1..sint (TotalParts r)] \<and>
       (\<forall>n e. (n, e) \<in> set sent \<longleftrightarrow> (\<exists>q \<in> set (upload_parts (db w)). pr_file_id q = ID r \<and>
          sint (PartNumber (pr_part q)) = n \<and> ETag (pr_part q) = e)))"
  using complete_run [OF assms, of c ch ps ms i ow ck] unfolding Let_def completion_of_def set_recorded [symmetric]
  by blast

theorem complete_sends_every_part_witness:
  "\<exists>sent. minio (after (CompleteMultipartUpload demo_service ''f2'' ''alice'' []) demo_env demo_world) =
     [CompleteMultipartReq ''files'' ''alice/f2/b.bin'' ''up'' sent] \<and> map fst sent = [1..3]"
proof -
  let ?p = "CompleteMultipartUpload demo_service ''f2'' ''alice'' []"
  have "case result ?p demo_env demo_world of Value (Inr _) \<Rightarrow> True | _ \<Rightarrow> False" by code_simp
  then have ok: "\<nexists>e. result ?p demo_env demo_world = Value (Inl e)" by auto
  have m: "minio demo_world = []" by (simp add: demo_world_def)
  have id: "pgUUID (pg demo_env) ''f2'' = Some ''f2''" by code_simp
  have row: "get_row (db demo_world) ''f2'' = Some demo_upload"
    by (simp add: get_row_def demo_world_def demo_file_def demo_upload_def)
  have f: "bucket demo_client = ''files''" "ObjectKey demo_upload = ''alice/f2/b.bin''" "UploadID demo_upload = ''up''"
    "sint (TotalParts demo_upload) = 3" by code_simp+
  show ?thesis
    using complete_sends_every_part [OF demo_db_wf, of demo_client "\<lparr>ttl = 300000000000\<rparr>" 5242880
        1000000000 "''f2''" "''alice''" "[]"] ok id row
    by (auto simp: Let_def demo_service_def [symmetric] m f)
qed

text \<open>
  C8. The parts into which a file is cut add up to its size: for every file whose size and part
  size are positive and do not overflow the computation of the number of parts, the sizes that
  \<open>GetPartUploadURL\<close> announces for the parts 1 to \<open>TotalParts\<close> sum to \<open>SizeBytes\<close>, and
  each is between 1 and the part size.
\<close>
theorem part_sizes_add_up:
  assumes "parts_fit f"
  shows "(\<Sum>n = 1..sint (TotalParts f). part_len f n) = sint (SizeBytes f) \<and>
    (\<forall>n \<in> {1..sint (TotalParts f)}. 1 \<le> part_len f n \<and> part_len f n \<le> sint (PartSize f))"
proof -
  have "1 \<le> part_len f n \<and> part_len f n \<le> sint (PartSize f)" if "n \<in> {1..sint (TotalParts f)}" for n
    using that part_len_full [of n f] part_len_last [OF assms] assms
    by (cases "n = sint (TotalParts f)") (auto simp: parts_fit_def)
  then show ?thesis using sum_part_len [OF assms] by blast
qed

theorem part_sizes_add_up_witness:
  "sint (TotalParts demo_upload) = 3 \<and> (\<Sum>n = 1..3. part_len demo_upload n) = 12000000"
proof -
  have fit: "parts_fit demo_upload" by (simp add: parts_fit_def demo_upload_def)
  have "sint (TotalParts demo_upload) = 3"
    unfolding TotalParts_ceiling [OF fit] by (simp add: demo_upload_def)
  moreover have "sint (SizeBytes demo_upload) = 12000000" by (simp add: demo_upload_def)
  ultimately show ?thesis using part_sizes_add_up [OF fit] by simp
qed

end
