(* ===== verification/File_Facts.thy ===== *)
theory File_Facts
  imports Example_Deployment
begin

text \<open>
  What the operations on single files do when the database answers, on every branch, and what
  clients see of a file from its creation to its deletion.
\<close>

subsection \<open>The repository when Postgres answers\<close>

lemma run_GetByID_calm:
  assumes "pg_calm E" and "db_wf (pg E) (db w)" and "pgUUID (pg E) i = Some u"
  shows "run (GetByID i) E w =
    (Value (case get_row (db w) u of None \<Rightarrow> Inl ErrNotFound | Some r \<Rightarrow> Inr r), w\<lparr>tick := Suc (tick w)\<rparr>)"
proof -
  have "sql_select_file (pg E) i (db w) = (Inr (filter (\<lambda>r. ID r = u) (files (db w))), db w)"
    using assms(3) by (simp add: sql_select_file_def)
  moreover from sql_select_file_Inr [OF assms(2) this] assms(3)
  have "filter (\<lambda>r. ID r = u) (files (db w)) = (case get_row (db w) u of None \<Rightarrow> [] | Some r \<Rightarrow> [r])"
    by simp
  ultimately show ?thesis
    by (simp add: GetByID_def run_simps run_sql_calm [OF assms(1)] scanFile_def QueryRow_Scan_def
        split: option.split)
qed

lemma run_Confirm_calm:
  assumes calm: "pg_calm E" and wf: "db_wf (pg E) (db w)" and u: "pgUUID (pg E) i = Some u"
    and ck: "text_ok ck" and r: "get_row (db w) u = Some r" "Status r = FileStatusPending"
  shows "\<exists>v. run (Confirm i ck) E w = (Value (Inr (confirm_row (pg E) ck (clock E (tick w)) r)), v) \<and>
    (\<forall>x. get_row (db v) x = map_option (confirmed_row (pg E) ck (clock E (tick w)) u) (get_row (db w) x))"
proof -
  let ?t = "clock E (tick w)"
  let ?st = "sql_confirm (pg E) i ck ?t (db w)"
  obtain rows d where st: "?st = (Inr rows, d)" using u ck by (simp add: sql_confirm_def Let_def)
  from sql_confirm_Inr [OF wf st] u r
  have rows: "rows = [confirm_row (pg E) ck ?t r]"
    and d: "\<forall>x. get_row d x = map_option (confirmed_row (pg E) ck ?t u) (get_row (db w) x)" by auto
  have "db (w\<lparr>tick := n\<rparr>) = db w" for n by simp
  then show ?thesis
    using rows d st
    by (simp add: Confirm_def time_Now_def run_simps run_sql_calm [OF calm] scanFile_def QueryRow_Scan_def)
qed

lemma checksum_text_ok:
  assumes "ChecksumSHA256_check ck = None"
  shows "text_ok ck"
proof (cases "ck = []")
  case False
  then have "set (ToLower ck) \<subseteq> set ''abcdef0123456789''"
    using assms by (simp add: ChecksumSHA256_check_def checksumRE_def MatchString_Rep_Class split: if_splits)
  moreover have "lower_char (CHR 0x00) \<notin> set ''abcdef0123456789''" by (simp add: lower_char_def)
  ultimately show ?thesis by (auto simp: text_ok_def ToLower_def)
qed (simp add: text_ok_def)

subsection \<open>Confirmation\<close>

lemma run_ConfirmUpload_calm:
  assumes calm: "pg_calm E" and wf: "db_wf (pg E) (db w)" and u: "pgUUID (pg E) i = Some u"
    and a: "i \<noteq> []" "ow \<noteq> []" "ChecksumSHA256_check ck = None"
    and r: "get_row (db w) u = Some r" "OwnerID r = ow" "Status r = FileStatusPending"
  shows "\<exists>t v. run (ConfirmUpload s i ow ck) E w = (Value (Inr (confirm_row (pg E) ck t r)), v) \<and>
    (\<forall>x. get_row (db v) x = map_option (confirmed_row (pg E) ck t u) (get_row (db w) x))"
proof -
  let ?w = "w\<lparr>tick := Suc (tick w)\<rparr>"
  have "db_wf (pg E) (db ?w)" "get_row (db ?w) u = Some r" using wf r by simp_all
  from run_Confirm_calm [OF calm this(1) u checksum_text_ok [OF a(3)] this(2) r(3)]
  obtain t v where c: "run (Confirm i ck) E ?w = (Value (Inr (confirm_row (pg E) ck t r)), v)"
    "\<forall>x. get_row (db v) x = map_option (confirmed_row (pg E) ck t u) (get_row (db w) x)" by auto
  let ?f = "confirm_row (pg E) ck t r"
  have "db (snd (run (PublishFileReady ?f) E (snd (run (SetFile (cache s) ?f) E v)))) = db v"
    by (simp add: keeps_run [where g = db])
  then show ?thesis
    using a r c by (intro exI [of _ t])
      (simp add: ConfirmUpload_def run_guardE run_tryE run_GetByID_calm [OF calm wf u] IsOwnedBy_def
        run_discard_free)
qed

text \<open>The errors of a confirmation leave the tables as they are.\<close>

definition confirm_error :: "string \<Rightarrow> FileMetadata option \<Rightarrow> err option" where
  "confirm_error ow row =
     (case row of None \<Rightarrow> Some ErrNotFound
      | Some r \<Rightarrow> if OwnerID r \<noteq> ow then Some ErrAccessDenied
                  else if Status r = FileStatusReady then Some ErrAlreadyExists
                  else if Status r = FileStatusDeleted then Some ErrNotFound else None)"

lemma run_ConfirmUpload_error:
  assumes "pg_calm E" and "db_wf (pg E) (db w)" and "pgUUID (pg E) i = Some u"
    and "i \<noteq> []" "ow \<noteq> []" "ChecksumSHA256_check ck = None"
    and "confirm_error ow (get_row (db w) u) = Some e"
  shows "run (ConfirmUpload s i ow ck) E w = (Value (Inl e), w\<lparr>tick := Suc (tick w)\<rparr>)"
  using assms(4-7)
  by (auto simp: ConfirmUpload_def run_guardE run_tryE run_GetByID_calm [OF assms(1-3)] IsOwnedBy_def
      confirm_error_def split: option.splits if_splits)

text \<open>The error with which a confirmation is refused, if it is, in the order of the checks.\<close>

definition confirm_refusal :: "pg_engine \<Rightarrow> pgdb \<Rightarrow> string \<Rightarrow> string \<Rightarrow> string \<Rightarrow> err option" where
  "confirm_refusal P d i ow ck =
     (if i = [] \<or> ow = [] then Some ErrInvalidInput
      else case ChecksumSHA256_check ck of Some e \<Rightarrow> Some e
      | None \<Rightarrow> (case pgUUID P i of None \<Rightarrow> Some (External ''invalid_text_representation'')
         | Some u \<Rightarrow> confirm_error ow (get_row d u)))"

lemma run_GetByID_unreadable:
  assumes "pg_calm E" and "pgUUID (pg E) i = None"
  shows "run (GetByID i) E w = (Value (Inl (External ''invalid_text_representation'')), w\<lparr>tick := Suc (tick w)\<rparr>)"
  using assms(2) by (simp add: GetByID_def run_simps run_sql_calm [OF assms(1)] sql_select_file_def scanFile_def
      QueryRow_Scan_def)

lemma ConfirmUpload_refused:
  assumes "pg_calm E" and "db_wf (pg E) (db w)" and "confirm_refusal (pg E) (db w) i ow ck = Some e"
  shows "result (ConfirmUpload s i ow ck) E w = Value (Inl e) \<and> db (after (ConfirmUpload s i ow ck) E w) = db w"
proof (cases "i = [] \<or> ow = [] \<or> ChecksumSHA256_check ck \<noteq> None")
  case True
  then show ?thesis
    using assms(3) by (auto simp: confirm_refusal_def ConfirmUpload_def run_guardE result_def after_def
        split: if_splits option.splits)
next
  case False
  then have in_ok: "i \<noteq> []" "ow \<noteq> []" "ChecksumSHA256_check ck = None" by simp_all
  show ?thesis
  proof (cases "pgUUID (pg E) i")
    case None
    then show ?thesis
      using assms(3) in_ok by (simp add: confirm_refusal_def ConfirmUpload_def run_guardE run_tryE
          run_GetByID_unreadable [OF assms(1)] result_def after_def)
  next
    case (Some u)
    then have "confirm_error ow (get_row (db w) u) = Some e" using assms(3) in_ok by (simp add: confirm_refusal_def)
    then show ?thesis
      using run_ConfirmUpload_error [OF assms(1,2) Some in_ok] by (simp add: result_def after_def)
  qed
qed

lemma confirm_error_None:
  assumes "db_wf P d" and "confirm_error ow (get_row d u) = None"
  shows "\<exists>r. get_row d u = Some r \<and> OwnerID r = ow \<and> Status r = FileStatusPending"
  using assms(2) get_row_ID [of d u] assms(1)
  by (fastforce simp: confirm_error_def db_wf_def file_row_ok_def split: option.splits if_splits)

subsection \<open>Reading\<close>

lemma run_Cache_GetFile_calm:
  assumes "redis_calm E"
  shows "run (Cache_GetFile ch i) E w =
    (Value (if redisGone E (tick w) then Inr None
       else case redis w (fileKey i) of None \<Rightarrow> Inr None
         | Some (j, _) \<Rightarrow> (case json_Unmarshal_file j of
              None \<Rightarrow> Inl (Wrapf ''unmarshal cache: '' (External ''json'') []) | Some f \<Rightarrow> Inr (Some f))),
     w\<lparr>tick := Suc (tick w)\<rparr>)"
  using assms by (auto simp: Cache_GetFile_def redis_get_def run_simps redis_calm_def faulty_def
      split: option.split)

lemma run_GetFile_repo_calm:
  assumes "pg_calm E" and "db_wf (pg E) (db w)" and "pgUUID (pg E) i = Some u"
  shows "fst (run (GetFile_repo s i ow) E w) = Value (case get_row (db w) u of
      None \<Rightarrow> Inl ErrNotFound
    | Some r \<Rightarrow> if OwnerID r \<noteq> ow then Inl ErrAccessDenied
        else if Status r = FileStatusDeleted then Inl ErrNotFound else Inr r)"
  by (simp add: GetFile_repo_def run_tryE run_GetByID_calm [OF assms] IsOwnedBy_def run_discard_free
      split: option.split)

text \<open>Without a readable entry in the cache the row decides.\<close>

lemma run_GetFile_miss:
  assumes "pg_calm E" and "redis_calm E" and "db_wf (pg E) (db w)" and "pgUUID (pg E) i = Some u"
    and "i \<noteq> []" "ow \<noteq> []" and "redisGone E (tick w) \<or> cached w i = None"
  shows "fst (run (GetFile s i ow) E w) = Value (case get_row (db w) u of
      None \<Rightarrow> Inl ErrNotFound
    | Some r \<Rightarrow> if OwnerID r \<noteq> ow then Inl ErrAccessDenied
        else if Status r = FileStatusDeleted then Inl ErrNotFound else Inr r)"
  using assms(5-7) run_GetFile_repo_calm [OF assms(1), of "w\<lparr>tick := Suc (tick w)\<rparr>" i u s ow] assms(3,4)
  by (auto simp: GetFile_def run_bind run_Cache_GetFile_calm [OF assms(2)] cached_def split: option.splits)

lemma run_GetFile_hit:
  assumes "redis_calm E" and "i \<noteq> []" "ow \<noteq> []" and "\<not> redisGone E (tick w)" and "cached w i = Some f"
    and "OwnerID f = ow" and "Status f \<noteq> FileStatusDeleted"
  shows "fst (run (GetFile s i ow) E w) = Value (Inr f)"
  using assms(2-7)
  by (auto simp: GetFile_def run_bind run_Cache_GetFile_calm [OF assms(1)] cached_def IsOwnedBy_def
      bind_eq_Some_conv)

lemma uncached: "redis w (fileKey i) = None \<Longrightarrow> cached w i = None"
  by (simp add: cached_def)

subsection \<open>Properties\<close>

text \<open>
  C13. Confirming an upload, on every branch. While Postgres answers, and whatever Redis and Kafka
  do: an empty identifier or owner is invalid input, a malformed checksum is refused as the check
  says, an identifier that Postgres cannot read gives its error, an unknown identifier is not
  found, a file of somebody else is refused, a file that is already ready is reported as such, a
  deleted one is not found, in this order, and in these cases no row changes. Otherwise the
  pending row of the caller becomes ready with the given checksum, the call returns that row, and
  no other row changes.
\<close>
theorem confirm_upload_outcome:
  assumes "pg_calm E" and "db_wf (pg E) (db w)"
  shows "case confirm_refusal (pg E) (db w) i ow ck of
      Some e \<Rightarrow> result (ConfirmUpload s i ow ck) E w = Value (Inl e) \<and>
        db (after (ConfirmUpload s i ow ck) E w) = db w
    | None \<Rightarrow> \<exists>u r t. pgUUID (pg E) i = Some u \<and> get_row (db w) u = Some r \<and>
        OwnerID r = ow \<and> Status r = FileStatusPending \<and>
        result (ConfirmUpload s i ow ck) E w = Value (Inr (confirm_row (pg E) ck t r)) \<and>
        get_row (db (after (ConfirmUpload s i ow ck) E w)) u = Some (confirm_row (pg E) ck t r) \<and>
        (\<forall>x. x \<noteq> u \<longrightarrow> get_row (db (after (ConfirmUpload s i ow ck) E w)) x = get_row (db w) x)"
proof (cases "confirm_refusal (pg E) (db w) i ow ck")
  case None
  then obtain u where u: "pgUUID (pg E) i = Some u" and in_ok: "i \<noteq> []" "ow \<noteq> []" "ChecksumSHA256_check ck = None"
    and "confirm_error ow (get_row (db w) u) = None"
    by (auto simp: confirm_refusal_def split: if_splits option.splits)
  then obtain r where r: "get_row (db w) u = Some r" "OwnerID r = ow" "Status r = FileStatusPending"
    using confirm_error_None [OF assms(2)] by blast
  then obtain t v where "run (ConfirmUpload s i ow ck) E w = (Value (Inr (confirm_row (pg E) ck t r)), v)"
    and v: "\<forall>x. get_row (db v) x = map_option (confirmed_row (pg E) ck t u) (get_row (db w) x)"
    using run_ConfirmUpload_calm [OF assms u in_ok r] by blast
  moreover have "get_row (db v) x = get_row (db w) x" if "x \<noteq> u" for x
    using v that get_row_ID [of "db w" x] by (auto simp: confirmed_row_def intro!: option.map_ident_strong)
  moreover have "get_row (db v) u = Some (confirm_row (pg E) ck t r)"
    using v r get_row_ID [OF r(1)] by (simp add: confirmed_row_def)
  ultimately show ?thesis using None u r by (auto simp: result_def after_def)
qed (simp add: ConfirmUpload_refused [OF assms])

theorem confirm_upload_outcome_witness:
  "result (ConfirmUpload demo_service ''f1'' ''alice'' []) demo_env demo_world = Value (Inl ErrAlreadyExists)"
proof -
  have "confirm_refusal (pg demo_env) (db demo_world) ''f1'' ''alice'' [] = Some ErrAlreadyExists" by code_simp
  then show ?thesis
    using confirm_upload_outcome [OF demo_pg_calm demo_db_wf, where i = "''f1''" and ow = "''alice''" and ck = "[]" and s = demo_service]
    by simp
qed

subsection \<open>Deletion\<close>

lemma run_SoftDelete_calm:
  assumes calm: "pg_calm E" and wf: "db_wf (pg E) (db w)" and u: "pgUUID (pg E) i = Some u"
  shows "\<exists>v n. run (SoftDelete i) E w = (Value (if n = (0 :: nat) then Inl ErrNotFound else Inr ()), v) \<and>
    n = (case get_row (db w) u of None \<Rightarrow> 0 | Some r \<Rightarrow> if Status r \<noteq> FileStatusDeleted then 1 else 0) \<and>
    (\<forall>x. get_row (db v) x = map_option (deleted_row (pg E) (clock E (tick w)) u) (get_row (db w) x))"
proof -
  let ?st = "sql_soft_delete (pg E) i (clock E (tick w)) (db w)"
  obtain n d where st: "?st = (Inr n, d)" using u by (simp add: sql_soft_delete_def Let_def)
  from sql_soft_delete_Inr [OF wf st] u
  have "n = (case get_row (db w) u of None \<Rightarrow> 0 | Some r \<Rightarrow> if Status r \<noteq> FileStatusDeleted then 1 else 0)"
    "\<forall>x. get_row d x = map_option (deleted_row (pg E) (clock E (tick w)) u) (get_row (db w) x)" by auto
  moreover have "db (w\<lparr>tick := m\<rparr>) = db w" for m by simp
  ultimately show ?thesis
    using st by (intro exI [of _ "w\<lparr>db := d, tick := Suc (Suc (tick w))\<rparr>"] exI [of _ n]) (simp add: SoftDelete_def time_Now_def run_simps run_sql_calm [OF calm])
qed

lemma keeps_deleted_parts:
  assumes "keeps p (\<lambda>w. files (db w))"
  shows "get_row (db (snd (run p E w))) x = get_row (db w) x"
  using keeps_run [OF assms, of E w] by (simp add: get_row_def)

lemma DeleteUploadParts_keeps_files: "keeps (DeleteUploadParts i) (\<lambda>w. files (db w))"
  unfolding DeleteUploadParts_def sql_def
  by (intro keeps_bind keeps_atomic)
    (auto simp: sql_act_def Let_def split_beta sql_delete_parts_def split: option.split)

text \<open>
  After the row is deleted: the object and the recorded parts go, the entry of the cache under
  the identifier goes, an event is published.
\<close>

definition delete_rest :: "FileService \<Rightarrow> string \<Rightarrow> FileMetadata \<Rightarrow> (err + unit) prog" where
  "delete_rest s i file =
     discard (if IsMultipart file \<and> UploadID file \<noteq> [] \<and> Status file = FileStatusPending
              then discard (Adapter_AbortMultipartUpload (storage s) (ObjectKey file) (UploadID file)) (DeleteUploadParts i)
              else Adapter_RemoveObject (storage s) (ObjectKey file)) (
     discard (InvalidateFile (cache s) i) (
     bindP time_Now (\<lambda>now.
     discard (PublishFileDeleted (file\<lparr>Status := FileStatusDeleted, UpdatedAt := now\<rparr>)) (
     Return (Inr ())))))"

lemma DeleteFile_steps:
  "DeleteFile s i ow = tryE (GetFile s i ow) (\<lambda>file. tryE (SoftDelete i) (\<lambda>_. delete_rest s i file))"
  by (simp add: DeleteFile_def delete_rest_def)

lemma minio_keeps_files:
  "keeps (Adapter_RemoveObject (app_storage c) k) (\<lambda>w. files (db w))" "keeps (Adapter_AbortMultipartUpload (app_storage c) k u) (\<lambda>w. files (db w))"
  by (auto simp: adapter_defs Client_RemoveObject_def Client_AbortMultipartUpload_def minio_call_def
      intro!: frame_intros keeps_atomic)

lemma keeps_files: "keeps p db \<Longrightarrow> keeps p (\<lambda>w. files (db w))"
  by (rule keeps_comp)

lemma delete_rest_files: "keeps (delete_rest (app_service c ch ps ms) i f) (\<lambda>w. files (db w))"
  unfolding delete_rest_def app_service_simps
  by (auto intro!: keeps_discard keeps_bind minio_keeps_files DeleteUploadParts_keeps_files
      keeps_files [of "InvalidateFile _ _"] keeps_files [of time_Now] keeps_files [of "PublishFileDeleted _"])

lemma delete_rest_uncached:
  assumes "redis_calm E"
  shows "redis (snd (run (delete_rest (app_service c ch ps ms) i f) E w)) (fileKey i) = None"
proof -
  have inv: "redis (snd (run (InvalidateFile ch i) E v)) (fileKey i) = None" for v
    using assms by (simp add: InvalidateFile_def redis_write_def run_atomic redis_calm_def)
  have fin: "keeps (bindP time_Now (\<lambda>now. discard (PublishFileDeleted (g now)) (Return (Inr ()) :: (err + unit) prog))) redis" for g
    by (auto intro!: frame_intros)
  have "panic_free (if b then discard (Adapter_AbortMultipartUpload (app_storage c) k u) (DeleteUploadParts i)
      else Adapter_RemoveObject (app_storage c) k)" for b k u
    by (auto intro!: frame_intros)
  then show ?thesis
    unfolding delete_rest_def app_service_simps
    using keeps_run [OF fin] inv by (simp add: run_discard_free)
qed

lemma delete_run:
  assumes calm: "pg_calm E" "redis_calm E" and inv: "svc_inv E w" and u: "pgUUID (pg E) i = Some u"
    and ok: "result (DeleteFile (app_service c ch ps ms) i ow) E w = Value (Inr ())"
  shows "\<exists>r. get_row (db (after (DeleteFile (app_service c ch ps ms) i ow) E w)) u = Some r \<and>
      OwnerID r = ow \<and> Status r = FileStatusDeleted"
    and "redis (after (DeleteFile (app_service c ch ps ms) i ow) E w) (fileKey i) = None"
proof -
  let ?s = "app_service c ch ps ms"
  note wf = svc_db_wf [OF inv]
  have db_get: "keeps (GetFile ?s i ow) db"
    by (auto simp: GetFile_def GetFile_repo_def split: sum.split option.split intro!: frame_intros)
  obtain x v where g: "run (GetFile ?s i ow) E w = (Value x, v)" and v: "db v = db w"
    using run_keeps_eq [OF _ db_get] by force
  then obtain f where f: "x = Inr f"
    using ok by (cases x) (auto simp: DeleteFile_steps result_def run_tryE)
  obtain v' n where d: "run (SoftDelete i) E v = (Value (if n = (0 :: nat) then Inl ErrNotFound else Inr ()), v')"
    and n: "n = (case get_row (db w) u of None \<Rightarrow> 0 | Some r \<Rightarrow> if Status r \<noteq> FileStatusDeleted then 1 else 0)"
    and rows: "\<forall>x. get_row (db v') x = map_option (deleted_row (pg E) (clock E (tick v)) u) (get_row (db w) x)"
    using run_SoftDelete_calm [OF calm(1), of v i u] wf u v by auto
  have n0: "n \<noteq> 0"
  proof
    assume "n = 0"
    then show False using ok g f d by (simp add: DeleteFile_steps result_def run_tryE)
  qed
  then obtain r where r: "get_row (db w) u = Some r" "Status r \<noteq> FileStatusDeleted"
    using n by (auto split: option.splits if_splits)
  have "svc_rg E {} (GetFile ?s i ow) (\<lambda>x v. \<forall>f. x = Inr f \<longrightarrow> owns E v i ow) w"
    by (rule rg_GetFile [OF inv]) simp_all
  then have "owns E v i ow" using svc.rg_run g f by fastforce
  then have own: "OwnerID r = ow" using u r v by (auto simp: owns_def)
  have aft: "after (DeleteFile ?s i ow) E w = snd (run (delete_rest ?s i f) E v')"
    using g f d n0 by (simp add: DeleteFile_steps after_def run_tryE)
  have "get_row (db v') u = Some (delete_row (pg E) (clock E (tick v)) r)"
    using rows r get_row_ID [OF r(1)] by (simp add: deleted_row_def)
  then show "\<exists>r. get_row (db (after (DeleteFile ?s i ow) E w)) u = Some r \<and>
      OwnerID r = ow \<and> Status r = FileStatusDeleted"
    unfolding aft keeps_deleted_parts [OF delete_rest_files] using own by (simp add: delete_row_def)
  show "redis (after (DeleteFile ?s i ow) E w) (fileKey i) = None"
    unfolding aft by (rule delete_rest_uncached [OF calm(2)])
qed

text \<open>A deletion that succeeds was asked for with an identifier that Postgres can read.\<close>

lemma delete_input:
  assumes "pg_calm E" and "result (DeleteFile s i ow) E w = Value (Inr ())"
  shows "i \<noteq> [] \<and> ow \<noteq> [] \<and> (\<exists>u. pgUUID (pg E) i = Some u)"
proof -
  have none: "\<exists>e v'. run (SoftDelete i) E v = (Value (Inl e), v')" if "pgUUID (pg E) i = None" for v
    using that by (simp add: SoftDelete_def time_Now_def run_simps run_sql_calm [OF assms(1)] sql_soft_delete_def)
  have "i \<noteq> [] \<and> ow \<noteq> []"
    using assms(2) by (auto simp: DeleteFile_steps GetFile_def result_def run_tryE)
  moreover have "pgUUID (pg E) i \<noteq> None"
  proof
    assume "pgUUID (pg E) i = None"
    then show False
      using assms(2) none
      by (auto simp: DeleteFile_steps result_def run_tryE split: prod.splits outcome.splits sum.splits)
        (metis Pair_inject outcome.inject(1) sum.distinct(1))
  qed
  ultimately show ?thesis by simp
qed

text \<open>
  C14. A deleted file is gone under the identifier it was deleted by: after a deletion that
  succeeded, while Postgres and Redis answer, reading the file or asking for a download URL with
  the spelling of the identifier that the deletion used reports that it is not found; the row
  stays, marked as deleted. (For another spelling of the same identifier see the last
  observations of this theory.)
\<close>
theorem delete_then_read:
  assumes "pg_calm E" and "redis_calm E" and "env_ok E" and "svc_inv E w"
    and "result (DeleteFile (app_service c ch ps ms) i ow) E w = Value (Inr ())"
  shows "let w' = after (DeleteFile (app_service c ch ps ms) i ow) E w in
    (\<exists>u r. pgUUID (pg E) i = Some u \<and> get_row (db w') u = Some r \<and> OwnerID r = ow \<and> Status r = FileStatusDeleted) \<and>
    result (GetFile (app_service c ch ps ms) i ow) E w' = Value (Inl ErrNotFound) \<and>
    result (GetDownloadURL (app_service c ch ps ms) i ow) E w' = Value (Inl ErrNotFound)"
proof -
  let ?s = "app_service c ch ps ms"
  let ?w = "after (DeleteFile ?s i ow) E w"
  obtain u where u: "pgUUID (pg E) i = Some u" and ne: "i \<noteq> []" "ow \<noteq> []"
    using delete_input [OF assms(1,5)] by blast
  obtain r where r: "get_row (db ?w) u = Some r" "OwnerID r = ow" "Status r = FileStatusDeleted"
    using delete_run(1) [OF assms(1,2,4) u assms(5)] by blast
  have "svc_rg E {ow} (DeleteFile ?s i ow) (\<lambda>_ _. True) w"
    by (rule rg_DeleteFile [OF assms(3,4)]) simp
  then have "svc_R E w ?w" using svc.rg_run unfolding after_def by blast
  then have wf': "db_wf (pg E) (db ?w)" using svc_R_inv assms(4) by (auto simp: svc_inv_def)
  have get: "fst (run (GetFile ?s i ow) E ?w) = Value (Inl ErrNotFound)"
    using run_GetFile_miss [OF assms(1,2) wf' u ne, of ?s] r
      uncached [OF delete_run(2) [OF assms(1,2,4) u assms(5)]] by simp
  then have "fst (run (GetDownloadURL ?s i ow) E ?w) = Value (Inl ErrNotFound)"
    by (auto simp: GetDownloadURL_def run_tryE split: prod.split)
  then show ?thesis using u r get by (simp add: Let_def result_def)
qed

theorem delete_then_read_witness:
  "result (GetFile demo_service ''f1'' ''alice'') demo_env
     (after (DeleteFile demo_service ''f1'' ''alice'') demo_env demo_world) = Value (Inl ErrNotFound)"
proof -
  have "result (DeleteFile demo_service ''f1'' ''alice'') demo_env demo_world = Value (Inr ())" by code_simp
  then show ?thesis
    using delete_then_read [OF demo_pg_calm demo_redis_calm demo_env_ok demo_svc_inv]
    unfolding demo_service_def by (simp add: Let_def)
qed

subsection \<open>Creation\<close>

lemma run_Create_calm:
  assumes "pg_calm E" and "fst (run (Create f) E w) = Value (Inr ())" and "pgUUID (pg E) (ID f) = Some (ID f)"
  shows "get_row (db w) (ID f) = None \<and> get_row (db (snd (run (Create f) E w))) (ID f) =
    Some (f\<lparr>CreatedAt := pgTime (pg E) (CreatedAt f), UpdatedAt := pgTime (pg E) (UpdatedAt f)\<rparr>)"
proof -
  obtain r d where st: "sql_insert_file (pg E) f (db w) = (r, d)" by (cases "sql_insert_file (pg E) f (db w)")
  have run: "run (Create f) E w = (Value (map_sum id (\<lambda>_. ()) r), w\<lparr>db := d, tick := Suc (tick w)\<rparr>)"
    by (simp add: Create_def run_simps run_sql_calm [OF assms(1)] st)
  then obtain n where "r = Inr n" using assms(2) by (cases r) auto
  then show ?thesis using sql_insert_file_Inr [of "pg E" f "db w" n d "ID f"] st assms(3) run by simp
qed

lemma run_SetFile_calm:
  assumes "redis_calm E"
  shows "cached (snd (run (SetFile ch f) E w)) (ID f) =
    (if json_time_ok (CreatedAt f) \<and> json_time_ok (UpdatedAt f) then Some f else cached w (ID f))"
proof (cases "json_Marshal_file f")
  case (Inl e)
  then show ?thesis by (auto simp: SetFile_def json_Marshal_file_def split: if_splits)
next
  case (Inr j)
  then have "json_time_ok (CreatedAt f) \<and> json_time_ok (UpdatedAt f)"
    by (auto simp: json_Marshal_file_def split: if_splits)
  then show ?thesis
    using Inr assms json_roundtrip [OF Inr]
    by (simp add: SetFile_def redis_write_def run_atomic redis_calm_def cached_def)
qed

lemma presignUpload_keeps:
  "keeps (Adapter_PresignUpload (app_storage c) k ct) db" "keeps (Adapter_PresignUpload (app_storage c) k ct) redis"
  by (auto simp: adapter_defs url_closure_def Client_PresignUpload_def intro!: frame_intros)

lemma CreateUpload_Inr:
  assumes "result (CreateUpload (app_service c ch ps ms) ow nm ct sz) E w = Value (Inr res)"
  shows "\<exists>v n now. validateCreateInput ow nm ct sz ms = None \<and>
    Metadata res = new_single (app_service c ch ps ms) ow nm ct sz (uuids E n) now \<and>
    db v = db w \<and> redis v = redis w \<and> fst (run (Create (Metadata res)) E v) = Value (Inr ()) \<and>
    after (CreateUpload (app_service c ch ps ms) ow nm ct sz) E w =
      snd (run (PublishFileCreated (Metadata res)) E (snd (run (SetFile ch (Metadata res)) E
        (snd (run (Create (Metadata res)) E v)))))"
proof -
  let ?s = "app_service c ch ps ms"
  let ?n = "Suc (tick w)"
  let ?f = "new_single ?s ow nm ct sz (uuids E ?n) (clock E (tick w))"
  let ?w = "w\<lparr>tick := Suc ?n\<rparr>"
  have val: "validateCreateInput ow nm ct sz ms = None"
    using assms by (auto simp: CreateUpload_def result_def run_guardE split: option.splits)
  obtain q v where pre: "run (Adapter_PresignUpload (app_storage c) (ObjectKey ?f) ct) E ?w = (Value q, v)" "db v = db w"
    using run_keeps_eq [OF storage_panic_free(1) presignUpload_keeps(1), of c "ObjectKey ?f" ct E ?w] by auto
  have rv: "redis v = redis w"
    using keeps_run [OF presignUpload_keeps(2), of c "ObjectKey ?f" ct E ?w] pre by simp
  have steps: "run (CreateUpload ?s ow nm ct sz) E w = run (tryE (Adapter_PresignUpload (app_storage c) (ObjectKey ?f) ct)
      (\<lambda>(uploadURL, expiresIn). tryE (Create ?f) (\<lambda>_. discard (SetFile ch ?f) (discard (PublishFileCreated ?f)
       (Return (Inr \<lparr>Metadata = ?f, UploadURL = uploadURL, ExpiresIn = expiresIn\<rparr>)))))) E ?w"
    using val by (simp add: CreateUpload_def run_guardE run_bind time_Now_def uuid_NewString_def run_atomic Let_def)
  obtain url t where q: "q = Inr (url, t)"
    using assms pre by (cases q) (auto simp: result_def steps run_tryE)
  obtain r v' where cr: "run (Create ?f) E v = (Value r, v')"
    using panic_free_run [of "Create ?f" E v] by (metis client_panic_free(5) prod.collapse)
  have r: "r = Inr ()"
    using assms pre q cr by (cases r) (auto simp: result_def steps run_tryE)
  have "run (CreateUpload ?s ow nm ct sz) E w =
      (Value (Inr \<lparr>Metadata = ?f, UploadURL = url, ExpiresIn = t\<rparr>),
       snd (run (PublishFileCreated ?f) E (snd (run (SetFile ch ?f) E v'))))"
    using pre q cr r by (simp add: steps run_tryE run_discard_free)
  then show ?thesis
    using assms val pre(2) rv cr r
    by (intro exI [of _ v] exI [of _ ?n] exI [of _ "clock E (tick w)"]) (auto simp: result_def after_def)
qed

text \<open>The same file, up to the resolution at which the database keeps instants.\<close>

definition same_but_times :: "FileMetadata \<Rightarrow> FileMetadata \<Rightarrow> bool" where
  "same_but_times f g \<longleftrightarrow> f\<lparr>CreatedAt := 0, UpdatedAt := 0\<rparr> = g\<lparr>CreatedAt := 0, UpdatedAt := 0\<rparr>"

text \<open>
  C15. What was created can be read: after \<open>CreateUpload\<close> succeeded, while Postgres and Redis
  answer, its owner gets the file under the identifier returned, with the metadata returned (only
  the instants may be rounded as the database keeps them), pending, whether the entry of the cache
  is still there or not. The file was not there before.
\<close>
theorem create_then_get:
  assumes "pg_calm E" and "redis_calm E" and "env_ok E" and "svc_inv E w"
    and "result (CreateUpload (app_service c ch ps ms) ow nm ct sz) E w = Value (Inr res)"
  shows "let w' = after (CreateUpload (app_service c ch ps ms) ow nm ct sz) E w; i = ID (Metadata res) in
    get_row (db w) i = None \<and>
    (\<exists>f. result (GetFile (app_service c ch ps ms) i ow) E w' = Value (Inr f) \<and>
      same_but_times f (Metadata res) \<and> Status f = FileStatusPending \<and> OwnerID f = ow)"
proof -
  let ?s = "app_service c ch ps ms" and ?f = "Metadata res" and ?i = "ID (Metadata res)"
  let ?w = "after (CreateUpload ?s ow nm ct sz) E w"
  obtain v n now where val: "validateCreateInput ow nm ct sz ms = None"
    and f: "?f = new_single ?s ow nm ct sz (uuids E n) now" and v: "db v = db w" "redis v = redis w"
    and cr: "fst (run (Create ?f) E v) = Value (Inr ())"
    and w': "?w = snd (run (PublishFileCreated ?f) E (snd (run (SetFile ch ?f) E (snd (run (Create ?f) E v)))))"
    using CreateUpload_Inr [OF assms(5)] by blast
  have canon: "pgUUID (pg E) ?i = Some ?i" using assms(3) f by (simp add: env_ok_def new_single_def)
  let ?r = "?f\<lparr>CreatedAt := pgTime (pg E) (CreatedAt ?f), UpdatedAt := pgTime (pg E) (UpdatedAt ?f)\<rparr>"
  have row: "get_row (db w) ?i = None" "get_row (db ?w) ?i = Some ?r"
    using run_Create_calm [OF assms(1) cr canon] v keeps_run [OF publisher_keeps(1)] keeps_run [OF cache_keeps(1)]
    by (simp_all add: w')
  have "cached w ?i = None"
    using row(1) assms(4) unfolding svc_inv_def cache_sound_def backed_def by (metis not_Some_eq option.distinct(1))
  then have "cached (snd (run (Create ?f) E v)) ?i = None"
    using keeps_run [OF repo_keeps(13), of ?f E v] v by (simp add: cached_def)
  then have hit: "cached ?w ?i \<in> {None, Some ?f}"
    using run_SetFile_calm [OF assms(2), of ch ?f] keeps_run [OF publisher_keeps(2)]
    by (simp add: w' cached_def)
  have "svc_rg E {} (CreateUpload ?s ow nm ct sz) (\<lambda>_ _. True) w" by (rule rg_CreateUpload [OF assms(3,4)])
  then have wf: "db_wf (pg E) (db ?w)"
    using svc.rg_run svc_R_inv [OF _ assms(4)] unfolding after_def svc_inv_def by blast
  have a: "?i \<noteq> []" "ow \<noteq> []" "OwnerID ?f = ow" "Status ?f = FileStatusPending"
    using val f assms(3) by (auto simp: env_ok_def new_single_def validateCreateInput_def CreateUploadInput_def
        OwnerID_check_def ownerIDRE_def MatchString_Rep_Class split: if_splits option.splits)
  show ?thesis
  proof (cases "redisGone E (tick ?w) \<or> cached ?w ?i = None")
    case True
    then show ?thesis
      using run_GetFile_miss [OF assms(1,2) wf canon a(1,2) True, of ?s] row a
      by (simp add: Let_def result_def same_but_times_def)
  next
    case False
    then show ?thesis
      using run_GetFile_hit [OF assms(2) a(1,2), of ?w ?f ?s] hit row(1) a
      by (auto simp: Let_def result_def same_but_times_def)
  qed
qed

theorem create_then_get_witness:
  "\<exists>res f. result (CreateUpload demo_service ''bob'' ''n.txt'' ''text/plain'' 7) demo_env demo_world = Value (Inr res) \<and>
     result (GetFile demo_service (ID (Metadata res)) ''bob'') demo_env
       (after (CreateUpload demo_service ''bob'' ''n.txt'' ''text/plain'' 7) demo_env demo_world) = Value (Inr f) \<and>
     same_but_times f (Metadata res)"
proof -
  let ?p = "CreateUpload demo_service ''bob'' ''n.txt'' ''text/plain'' 7"
  have "case result ?p demo_env demo_world of Value (Inr _) \<Rightarrow> True | _ \<Rightarrow> False" by code_simp
  then obtain res where res: "result ?p demo_env demo_world = Value (Inr res)"
    by (auto split: outcome.splits sum.splits)
  then show ?thesis
    using create_then_get [OF demo_pg_calm demo_redis_calm demo_env_ok demo_svc_inv res [unfolded demo_service_def]]
    unfolding demo_service_def by (auto simp: Let_def)
qed

subsection \<open>Two observations\<close>

text \<open>Only canonical identifiers are keys of the cache.\<close>

lemma alias_uncached:
  assumes "svc_inv E w" and "pgUUID (pg E) i = Some u" and "i \<noteq> u"
  shows "cached w i = None"
proof (rule ccontr)
  assume "cached w i \<noteq> None"
  then obtain f where "cached w i = Some f" by blast
  then have "ID f = i" "backed w f" using assms(1) by (auto simp: svc_inv_def cache_sound_def)
  with backed_canonical [OF assms(1), of f] assms(2,3) show False by simp
qed

lemma run_GetFile_fill:
  assumes calm: "pg_calm E" "redis_calm E" and inv: "svc_inv E w" and u: "pgUUID (pg E) i = Some u" "i \<noteq> u"
    and ne: "i \<noteq> []" "ow \<noteq> []"
    and r: "get_row (db w) u = Some r" "OwnerID r = ow" "Status r \<noteq> FileStatusDeleted"
      "json_time_ok (CreatedAt r)" "json_time_ok (UpdatedAt r)"
  shows "\<exists>v. run (GetFile s i ow) E w = (Value (Inr r), v) \<and> db v = db w \<and> cached v u = Some r"
proof -
  let ?w = "w\<lparr>tick := Suc (tick w)\<rparr>" and ?w2 = "w\<lparr>tick := Suc (Suc (tick w))\<rparr>"
  let ?v = "snd (run (SetFile (cache s) r) E ?w2)"
  have wf: "db_wf (pg E) (db ?w)" using svc_db_wf [OF inv] by simp
  have "run (GetFile_repo s i ow) E ?w = (Value (Inr r), ?v)"
    using r by (simp add: GetFile_repo_def run_tryE run_GetByID_calm [OF calm(1) wf u(1)] IsOwnedBy_def run_discard_free)
  then have "run (GetFile s i ow) E w = (Value (Inr r), ?v)"
    using ne alias_uncached [OF inv u]
    by (auto simp: GetFile_def run_bind run_Cache_GetFile_calm [OF calm(2)] cached_def split: option.splits)
  moreover have "db ?v = db w" using keeps_run [OF cache_keeps(1), of "cache s" r E ?w2] by simp
  moreover have "ID r = u" using get_row_ID [OF r(1)] by simp
  then have "cached ?v u = Some r" using run_SetFile_calm [OF calm(2), of "cache s" r ?w2] r by simp
  ultimately show ?thesis by blast
qed

lemma redis_write_other: "k \<noteq> key \<Longrightarrow> keeps (redis_write key x) (\<lambda>w. redis w k)"
  by (auto simp: redis_write_def intro!: keeps_atomic)

lemma delete_rest_other:
  assumes "i \<noteq> u"
  shows "keeps (delete_rest (app_service c ch ps ms) i f) (\<lambda>w. redis w (fileKey u))"
proof -
  have other: "keeps p (\<lambda>w. redis w (fileKey u))" if "keeps p redis" for p :: "'z prog"
    using that by (rule keeps_comp)
  have "keeps (Adapter_RemoveObject (app_storage c) k) redis" "keeps (Adapter_AbortMultipartUpload (app_storage c) k x) redis" for k x
    by (auto simp: adapter_defs Client_RemoveObject_def Client_AbortMultipartUpload_def intro!: frame_intros)
  then show ?thesis
    using assms unfolding delete_rest_def app_service_simps InvalidateFile_def
    by (auto intro!: keeps_discard keeps_bind redis_write_other other [of "PublishFileDeleted _"] other [of time_Now]
        other [of "DeleteUploadParts _"] other [of "Adapter_RemoveObject _ _"] other [of "Adapter_AbortMultipartUpload _ _ _"])
qed

text \<open>
  C36. \<open>DeleteFile\<close> reads the file under the identifier of the request, which stores it in the cache
  under its canonical identifier, and then invalidates the entry under the identifier of the
  request. So when the owner deletes a live file under another spelling of its identifier, while
  Postgres and Redis answer and Redis keeps its entries, the deletion succeeds and the row is
  deleted, but reading the file by its canonical identifier still returns the live file from the
  cache.
\<close>
theorem deleted_file_still_served:
  assumes "pg_calm E" and "redis_calm E" and "\<forall>n. \<not> redisGone E n" and "svc_inv E w"
    and "pgUUID (pg E) i = Some u" and "i \<noteq> u" and "i \<noteq> []" and "u \<noteq> []" and "ow \<noteq> []"
    and "get_row (db w) u = Some r" and "OwnerID r = ow" and "Status r \<noteq> FileStatusDeleted"
    and "json_time_ok (CreatedAt r)" and "json_time_ok (UpdatedAt r)"
  shows "let w' = after (DeleteFile (app_service c ch ps ms) i ow) E w in
    result (DeleteFile (app_service c ch ps ms) i ow) E w = Value (Inr ()) \<and>
    map_option Status (get_row (db w') u) = Some FileStatusDeleted \<and>
    result (GetFile (app_service c ch ps ms) u ow) E w' = Value (Inr r)"
proof -
  let ?s = "app_service c ch ps ms"
  obtain v where g: "run (GetFile ?s i ow) E w = (Value (Inr r), v)" "db v = db w" "cached v u = Some r"
    using run_GetFile_fill [OF assms(1,2,4-7,9-14)] by blast
  have wf: "db_wf (pg E) (db v)" using svc_db_wf [OF assms(4)] g(2) by simp
  obtain v' n where d: "run (SoftDelete i) E v = (Value (if n = (0 :: nat) then Inl ErrNotFound else Inr ()), v')"
    and n: "n = (case get_row (db v) u of None \<Rightarrow> 0 | Some r \<Rightarrow> if Status r \<noteq> FileStatusDeleted then 1 else 0)"
    and rows: "\<forall>x. get_row (db v') x = map_option (deleted_row (pg E) (clock E (tick v)) u) (get_row (db v) x)"
    using run_SoftDelete_calm [OF assms(1) wf assms(5)] by blast
  have n1: "n = 1" using n g(2) assms(10,12) by simp
  let ?w = "snd (run (delete_rest ?s i r) E v')"
  have pf: "panic_free (delete_rest ?s i r)"
    unfolding delete_rest_def app_service_simps by (auto intro!: frame_intros)
  have ret: "returns (delete_rest ?s i r) (\<lambda>x. x = Inr ())"
    unfolding delete_rest_def by (intro returns_discard returns_bind_any) simp
  obtain x where "fst (run (delete_rest ?s i r) E v') = Value x" using panic_free_run [OF pf] by blast
  with returns_run [OF ret] have "run (delete_rest ?s i r) E v' = (Value (Inr ()), ?w)" by (metis prod.collapse)
  then have run: "run (DeleteFile ?s i ow) E w = (Value (Inr ()), ?w)"
    using g(1) d n1 by (simp add: DeleteFile_steps run_tryE)
  have "redis v' = redis v" using keeps_run [of "SoftDelete i" redis E v] d by simp
  then have "cached ?w u = cached v u"
    using keeps_run [OF delete_rest_other [OF assms(6), of c ch ps ms r], of E v'] by (simp add: cached_def)
  then have "fst (run (GetFile ?s u ow) E ?w) = Value (Inr r)"
    using run_GetFile_hit [OF assms(2,8,9), of ?w r ?s] g(3) assms(3,11,12) by simp
  moreover have "map_option Status (get_row (db ?w) u) = Some FileStatusDeleted"
    unfolding keeps_deleted_parts [OF delete_rest_files]
    using rows g(2) assms(10,12) get_row_ID [OF assms(10)] by (simp add: deleted_row_def delete_row_def)
  ultimately show ?thesis using run by (simp add: Let_def result_def after_def)
qed

theorem deleted_file_still_served_witness:
  "result (GetFile demo_service ''f1'' ''alice'') demo_env
     (after (DeleteFile demo_service ''F1'' ''alice'') demo_env demo_world) = Value (Inr demo_file)"
proof -
  have "pgUUID (pg demo_env) ''F1'' = Some ''f1''" "get_row (db demo_world) ''f1'' = Some demo_file"
    "OwnerID demo_file = ''alice''" "Status demo_file \<noteq> FileStatusDeleted"
    "json_time_ok (CreatedAt demo_file)" "json_time_ok (UpdatedAt demo_file)" by code_simp+
  then show ?thesis
    using deleted_file_still_served [OF demo_pg_calm demo_redis_calm _ demo_svc_inv, of "''F1''" "''f1''" "''alice''" demo_file]
    unfolding demo_service_def by (simp add: Let_def demo_env_def)
qed

text \<open>
  C37. \<open>ConfirmUpload\<close> accepts every pending upload in parts of its owner: while Postgres answers,
  the file becomes ready and downloadable and its upload identifier is cleared, although nothing
  was asked of the object storage, so that the parts have not been assembled and no longer can
  be.
\<close>
theorem confirm_without_completion:
  assumes "pg_calm E" and "db_wf (pg E) (db w)" and "pgUUID (pg E) i = Some u"
    and "i \<noteq> []" and "ow \<noteq> []" and "ChecksumSHA256_check ck = None"
    and "get_row (db w) u = Some r" and "OwnerID r = ow" and "Status r = FileStatusPending" and "IsMultipart r"
  shows "let w' = after (ConfirmUpload s i ow ck) E w in
    \<exists>f. result (ConfirmUpload s i ow ck) E w = Value (Inr f) \<and> get_row (db w') u = Some f \<and>
      CanDownload f \<and> UploadID f = [] \<and> minio w' = minio w"
proof -
  obtain t v where c: "run (ConfirmUpload s i ow ck) E w = (Value (Inr (confirm_row (pg E) ck t r)), v)"
    "\<forall>x. get_row (db v) x = map_option (confirmed_row (pg E) ck t u) (get_row (db w) x)"
    using run_ConfirmUpload_calm [OF assms(1-9)] by blast
  have "keeps (ConfirmUpload s i ow ck) minio" unfolding ConfirmUpload_def by (auto intro!: frame_intros)
  then have "minio v = minio w" using kept [OF _ c(1)] by blast
  then show ?thesis
    using c assms(7,9) get_row_ID [OF assms(7)]
    by (simp add: result_def after_def Let_def confirmed_row_def confirm_row_def CanDownload_def)
qed

theorem confirm_without_completion_witness:
  "minio (after (ConfirmUpload demo_service ''f2'' ''alice'' []) demo_env demo_world) = [] \<and>
   (\<exists>f. result (ConfirmUpload demo_service ''f2'' ''alice'' []) demo_env demo_world = Value (Inr f) \<and> CanDownload f)"
proof -
  have "pgUUID (pg demo_env) ''f2'' = Some ''f2''" "ChecksumSHA256_check [] = None"
    "get_row (db demo_world) ''f2'' = Some demo_upload" "OwnerID demo_upload = ''alice''"
    "Status demo_upload = FileStatusPending" "IsMultipart demo_upload" by code_simp+
  then show ?thesis
    using confirm_without_completion [OF demo_pg_calm demo_db_wf, of "''f2''" "''f2''" "''alice''" "[]" demo_upload demo_service]
    by (auto simp: Let_def demo_world_def)
qed

end
