(* ===== verification/Server_Facts.thy ===== *)
theory Server_Facts
  imports Example_Deployment
begin

text \<open>
  The interceptors and the handlers: who gets through, what is recorded of every request, how
  errors are reported, and that no request panics.
\<close>

subsection \<open>What the interceptors leave alone\<close>

text \<open>The four stores of the program, as one component of the world.\<close>

definition stores :: "world \<Rightarrow> pgdb \<times> (string \<Rightarrow> (json \<times> duration) option) \<times> kafka_msg list \<times> minio_req list" where
  "stores w = (db w, redis w, kafka w, minio w)"

lemma stores_keeps [simp]:
  "keeps time_Now stores" "keeps (emit l) stores" "keeps (limiter_get key) stores"
  "keeps (limiter_Allow rl key) stores" "keeps (jwt_ParseWithClaims t kf i a) stores"
  by (auto simp: stores_def time_Now_def emit_def limiter_get_def limiter_Allow_def jwt_ParseWithClaims_def
      intro!: keeps_atomic split: option.split)

lemma Audit_Log_frame [simp]: "keeps (Audit_Log ctx ev attrs) stores" "panic_free (Audit_Log ctx ev attrs)"
  by (simp_all add: Audit_Log_def)

lemma jwt_panic_free [simp]: "panic_free (jwt_ParseWithClaims t kf i a)"
  by (simp add: jwt_ParseWithClaims_def)

lemma extractOwner_frame [simp]:
  "keeps (extractOwnerFromMetadata ctx cfg) stores" "panic_free (extractOwnerFromMetadata ctx cfg)"
proof -
  show "keeps (extractOwnerFromMetadata ctx cfg) stores"
    by (auto simp: extractOwnerFromMetadata_def Let_def split: option.split intro!: frame_intros)
  show "panic_free (extractOwnerFromMetadata ctx cfg)"
  proof (cases "ctxMetadata ctx")
    case (Some md)
    obtain t where "bearerToken (md ''authorization'') = Some t" using bearerToken_bounded by blast
    then show ?thesis
      using Some by (auto simp: extractOwnerFromMetadata_def Let_def split: option.split
          intro!: panic_free_boundedP panic_free_bind)
  qed (simp add: extractOwnerFromMetadata_def)
qed


lemma interceptor_panic_free:
  assumes "panic_free (h ctx)"
  shows "panic_free (LoggingInterceptor m h ctx)" "panic_free (MetricsInterceptor m h ctx)"
    "panic_free (AuditDeniedInterceptor m h ctx)" "panic_free (RateLimitInterceptor rl m h ctx)"
  using assms by (auto simp: LoggingInterceptor_def MetricsInterceptor_def AuditDeniedInterceptor_def
      RateLimitInterceptor_def Let_def limiter_get_def limiter_Allow_def intro!: frame_intros)

lemma AuthInterceptor_panic_free: "(\<And>x. panic_free (h x)) \<Longrightarrow> panic_free (AuthInterceptor cfg m h ctx)"
  by (auto simp: AuthInterceptor_def intro!: frame_intros)

text \<open>The chain around a handler, from the outside.\<close>

definition guarded :: "AuthConfig \<Rightarrow> RateLimiter \<Rightarrow> 'a interceptor" where
  "guarded cfg rl m h ctx = AuthInterceptor cfg m (RateLimitInterceptor rl m (AuditDeniedInterceptor m h)) ctx"

lemma Chain_eqs:
  "ChainUnaryInterceptor [] m h = h" "ChainUnaryInterceptor (i # is) m h = i m (ChainUnaryInterceptor is m h)"
  by (rule ext, simp)+

lemma serve_chain:
  "serve s cfg rl ctx rq = RecoveryInterceptor (full_method rq) (LoggingInterceptor (full_method rq)
     (MetricsInterceptor (full_method rq) (guarded cfg rl (full_method rq) (dispatch s rq)))) ctx"
  by (simp add: serve_def app_chain_def guarded_def [abs_def] Chain_eqs)

lemma guarded_panic_free: "(\<And>x. panic_free (h x)) \<Longrightarrow> panic_free (guarded cfg rl m h ctx)"
  unfolding guarded_def by (intro AuthInterceptor_panic_free interceptor_panic_free)

lemma recover_panic_free: "panic_free p \<Longrightarrow> recover p h = p"
  by (induction p rule: prog_induct)
    (simp_all add: panic_free_Step map_prod_def split_beta fun_eq_iff)

text \<open>What the outer interceptors add to the log.\<close>

lemma run_observed:
  assumes pf: "panic_free (h ctx)"
  shows "\<exists>d1 d2. fst (run (RecoveryInterceptor m (LoggingInterceptor m (MetricsInterceptor m h)) ctx) E w) =
      fst (run (h ctx) E (w\<lparr>tick := Suc (Suc (tick w))\<rparr>)) \<and>
    (\<forall>r. fst (run (h ctx) E (w\<lparr>tick := Suc (Suc (tick w))\<rparr>)) = Value r \<longrightarrow>
      logs (snd (run (RecoveryInterceptor m (LoggingInterceptor m (MetricsInterceptor m h)) ctx) E w)) =
      logs (snd (run (h ctx) E (w\<lparr>tick := Suc (Suc (tick w))\<rparr>))) @
        [RequestCount m (code_String (result_code r)), RequestLatency m d1,
         RequestLog m (code_String (result_code r)) d2]) \<and>
    stores (snd (run (RecoveryInterceptor m (LoggingInterceptor m (MetricsInterceptor m h)) ctx) E w)) =
      stores (snd (run (h ctx) E (w\<lparr>tick := Suc (Suc (tick w))\<rparr>)))"
proof -
  obtain r v where r: "run (h ctx) E (w\<lparr>tick := Suc (Suc (tick w))\<rparr>) = (Value r, v)"
    using panic_free_run [OF pf] by (metis prod.collapse)
  have "RecoveryInterceptor m (LoggingInterceptor m (MetricsInterceptor m h)) ctx =
      LoggingInterceptor m (MetricsInterceptor m h) ctx"
    unfolding RecoveryInterceptor_def
    by (rule recover_panic_free) (intro interceptor_panic_free pf)
  then show ?thesis
    using r by (simp add: LoggingInterceptor_def MetricsInterceptor_def time_Now_def emit_def run_simps stores_def)
qed

lemma run_serve:
  "\<exists>r d1 d2. result (serve (app_service c ch ps ms) cfg rl ctx rq) E w = Value r \<and>
     fst (run (guarded cfg rl (full_method rq) (dispatch (app_service c ch ps ms) rq) ctx) E
        (w\<lparr>tick := Suc (Suc (tick w))\<rparr>)) = Value r \<and>
     logs (after (serve (app_service c ch ps ms) cfg rl ctx rq) E w) =
       logs (snd (run (guarded cfg rl (full_method rq) (dispatch (app_service c ch ps ms) rq) ctx) E
         (w\<lparr>tick := Suc (Suc (tick w))\<rparr>))) @
       [RequestCount (full_method rq) (code_String (result_code r)), RequestLatency (full_method rq) d1,
        RequestLog (full_method rq) (code_String (result_code r)) d2] \<and>
     stores (after (serve (app_service c ch ps ms) cfg rl ctx rq) E w) =
       stores (snd (run (guarded cfg rl (full_method rq) (dispatch (app_service c ch ps ms) rq) ctx) E
         (w\<lparr>tick := Suc (Suc (tick w))\<rparr>)))"
proof -
  let ?h = "guarded cfg rl (full_method rq) (dispatch (app_service c ch ps ms) rq)"
  have pf: "panic_free (?h ctx)" by (intro guarded_panic_free dispatch_panic_free)
  obtain r where "fst (run (?h ctx) E (w\<lparr>tick := Suc (Suc (tick w))\<rparr>)) = Value r"
    using panic_free_run [OF pf] by blast
  then show ?thesis
    using run_observed [of ?h ctx "full_method rq" E w] pf unfolding serve_chain result_def after_def by auto
qed

subsection \<open>Authentication\<close>

lemma run_extractOwner:
  "(\<exists>msg. fst (run (extractOwnerFromMetadata ctx cfg) E w) = Value (Inl (Unauthenticated, msg))) \<or>
   (\<exists>ow. fst (run (extractOwnerFromMetadata ctx cfg) E w) = Value (Inr ow) \<and> token_owner E cfg ctx ow)"
proof (cases "ctxMetadata ctx")
  case (Some md)
  obtain t where "bearerToken (md ''authorization'') = Some t" using bearerToken_bounded by blast
  then show ?thesis
    using Some by (auto simp: extractOwnerFromMetadata_def boundedP_def Let_def jwt_ParseWithClaims_def run_simps
        token_owner_def split: option.split)
qed (simp add: extractOwnerFromMetadata_def)





subsection \<open>Properties\<close>




text \<open>
  C18. Every request is counted and logged with its outcome: whatever happens to it, the last
  entries made for it are the counter of its method and status code, its latency, and the line of
  the request log with the same code.
\<close>
theorem every_request_is_logged:
  "\<exists>r L d1 d2. result (serve (app_service c ch ps ms) cfg rl ctx rq) E w = Value r \<and>
    logs (after (serve (app_service c ch ps ms) cfg rl ctx rq) E w) =
      L @ [RequestCount (full_method rq) (code_String (result_code r)), RequestLatency (full_method rq) d1,
           RequestLog (full_method rq) (code_String (result_code r)) d2]"
  using run_serve [of c ch ps ms cfg rl ctx rq E w] by blast

subsection \<open>Audit and rate limits\<close>

lemma clientIP_WithOwnerID [simp]: "clientIP (WithOwnerID ctx ow) = clientIP ctx"
  by (simp add: clientIP_def WithOwnerID_def)

definition denied_entry :: "rpc_context \<Rightarrow> string \<Rightarrow> string \<Rightarrow> log_entry" where
  "denied_entry ctx m ow = AuditLog ''auth.denied''
     [(''event'', ''auth.denied''), (''client_ip'', clientIP ctx), (''method'', m), (''owner_id'', ow)]"

lemma run_limited_denied:
  assumes "panic_free (h ctx)"
    and "fst (run (RateLimitInterceptor rl m (AuditDeniedInterceptor m h) ctx) E w) = Value (Inl (PermissionDenied, msg))"
  shows "\<exists>L. logs (snd (run (RateLimitInterceptor rl m (AuditDeniedInterceptor m h) ctx) E w)) =
    L @ [denied_entry ctx m (fst (OwnerIDFromContext ctx))]"
proof -
  have aud: "\<exists>L. logs (snd (run (AuditDeniedInterceptor m h ctx) E v)) = L @ [denied_entry ctx m (fst (OwnerIDFromContext ctx))]"
    if "fst (run (AuditDeniedInterceptor m h ctx) E v) = Value (Inl (PermissionDenied, msg))" for v
    using that panic_free_run [OF assms(1), of E v]
    by (auto simp: AuditDeniedInterceptor_def Audit_Log_def emit_def run_simps denied_entry_def result_code_def
        split: prod.splits outcome.splits if_splits)
  show ?thesis
    using assms(2) aud
    by (auto simp: RateLimitInterceptor_def limiter_get_def limiter_Allow_def Let_def run_simps
        split: option.splits if_splits)
qed

text \<open>
  C19. Every refusal of an authenticated request is audited: a request that ends with
  \<open>PermissionDenied\<close> leaves, just before the log entries of the request, an entry \<open>auth.denied\<close> in the
  audit log with the address of the client, the method and, with tokens required, the owner of
  the token.
\<close>
theorem denied_request_is_audited:
  assumes "result (serve (app_service c ch ps ms) cfg rl ctx rq) E w = Value (Inl (PermissionDenied, msg))"
  shows "\<exists>L ow d1 d2. (Enabled cfg \<longrightarrow> token_owner E cfg ctx ow) \<and>
    logs (after (serve (app_service c ch ps ms) cfg rl ctx rq) E w) =
      L @ [AuditLog ''auth.denied'' [(''event'', ''auth.denied''), (''client_ip'', clientIP ctx),
             (''method'', full_method rq), (''owner_id'', ow)],
           RequestCount (full_method rq) ''PermissionDenied'', RequestLatency (full_method rq) d1,
           RequestLog (full_method rq) ''PermissionDenied'' d2]"
proof -
  let ?m = "full_method rq" and ?d = "dispatch (app_service c ch ps ms) rq"
  let ?w = "w\<lparr>tick := Suc (Suc (tick w))\<rparr>"
  let ?g = "run (guarded cfg rl ?m ?d ctx) E ?w"
  obtain d1 d2 where g: "fst ?g = Value (Inl (PermissionDenied, msg))"
    and l: "logs (after (serve (app_service c ch ps ms) cfg rl ctx rq) E w) = logs (snd ?g) @
      [RequestCount ?m ''PermissionDenied'', RequestLatency ?m d1, RequestLog ?m ''PermissionDenied'' d2]"
    using run_serve [of c ch ps ms cfg rl ctx rq E w] assms by (auto simp: result_code_def)
  have pf: "panic_free (?d x)" for x by (rule dispatch_panic_free)
  have "\<exists>L ow. (Enabled cfg \<longrightarrow> token_owner E cfg ctx ow) \<and> logs (snd ?g) = L @ [denied_entry ctx ?m ow]"
  proof (cases "Enabled cfg")
    case False
    then show ?thesis
      using run_limited_denied [where h = ?d, OF pf] g by (fastforce simp: guarded_def AuthInterceptor_def)
  next
    case True
    obtain x v where x: "run (extractOwnerFromMetadata ctx cfg) E ?w = (Value x, v)"
      using run_keeps_eq [OF extractOwner_frame(2) extractOwner_frame(1)] by blast
    then obtain ow where ow: "x = Inr ow" "token_owner E cfg ctx ow"
      using g True run_extractOwner [of ctx cfg E ?w] by (auto simp: guarded_def AuthInterceptor_def run_tryE)
    then have "fst (OwnerIDFromContext (WithOwnerID ctx ow)) = ow"
      by (simp add: OwnerIDFromContext_def WithOwnerID_def)
    then show ?thesis
      using run_limited_denied [where h = ?d and ctx = "WithOwnerID ctx ow", OF pf] g True x ow
      by (fastforce simp: guarded_def AuthInterceptor_def run_tryE denied_entry_def)
  qed
  then show ?thesis using l by (auto simp: denied_entry_def)
qed

theorem denied_request_is_audited_witness:
  "\<exists>L ow d1 d2. (Enabled demo_auth \<longrightarrow> token_owner demo_env demo_auth (bearer_ctx ''HS256:keybob'') ow) \<and>
    logs (after (serve demo_service demo_auth demo_limiter (bearer_ctx ''HS256:keybob'')
      (GetFileRequest ''f1'' ''alice'')) demo_env demo_world) =
      L @ [AuditLog ''auth.denied'' [(''event'', ''auth.denied''), (''client_ip'', ''10.0.0.1:4242''),
             (''method'', ''/file.v1.FileService/GetFile''), (''owner_id'', ow)],
           RequestCount ''/file.v1.FileService/GetFile'' ''PermissionDenied'',
           RequestLatency ''/file.v1.FileService/GetFile'' d1,
           RequestLog ''/file.v1.FileService/GetFile'' ''PermissionDenied'' d2]"
proof -
  let ?p = "serve demo_service demo_auth demo_limiter (bearer_ctx ''HS256:keybob'') (GetFileRequest ''f1'' ''alice'')"
  have "case result ?p demo_env demo_world of Value (Inl (code, _)) \<Rightarrow> code = PermissionDenied | _ \<Rightarrow> False"
    by code_simp
  then obtain msg where "result ?p demo_env demo_world = Value (Inl (PermissionDenied, msg))"
    by (auto split: outcome.splits sum.splits)
  from denied_request_is_audited [OF this [unfolded demo_service_def]] show ?thesis
    unfolding demo_service_def by (simp add: clientIP_def bearer_ctx_def)
qed

lemma limiter_other:
  "k \<noteq> key \<Longrightarrow> keeps (limiter_get k) (\<lambda>w. limits w key)" "k \<noteq> key \<Longrightarrow> keeps (limiter_Allow rl k) (\<lambda>w. limits w key)"
  by (auto simp: limiter_get_def limiter_Allow_def intro!: keeps_atomic split: option.split)

lemma limited_other:
  assumes "keeps (h ctx) (\<lambda>w. limits w key)" and "OwnerIDFromContext ctx = (ow, True)" and "ow \<noteq> key"
  shows "keeps (RateLimitInterceptor rl m (AuditDeniedInterceptor m h) ctx) (\<lambda>w. limits w key)"
  using assms limiter_other [of ow key] keeps_comp [OF step_limits(8), where f = "\<lambda>l. l key"]
  by (auto simp: RateLimitInterceptor_def AuditDeniedInterceptor_def Audit_Log_def Let_def intro!: frame_intros)

lemma jwt_limits: "keeps (extractOwnerFromMetadata ctx cfg) limits"
  by (auto simp: extractOwnerFromMetadata_def Let_def jwt_ParseWithClaims_def
      split: option.split intro!: frame_intros keeps_atomic)

lemma serve_limits:
  "limits (after (serve (app_service c ch ps ms) cfg rl ctx rq) E w) =
     limits (snd (run (guarded cfg rl (full_method rq) (dispatch (app_service c ch ps ms) rq) ctx) E
       (w\<lparr>tick := Suc (Suc (tick w))\<rparr>)))"
proof -
  let ?h = "guarded cfg rl (full_method rq) (dispatch (app_service c ch ps ms) rq)"
  have pf: "panic_free (?h ctx)" by (intro guarded_panic_free dispatch_panic_free)
  obtain r v where r: "run (?h ctx) E (w\<lparr>tick := Suc (Suc (tick w))\<rparr>) = (Value r, v)"
    using panic_free_run [OF pf] by (metis prod.collapse)
  have "serve (app_service c ch ps ms) cfg rl ctx rq =
      LoggingInterceptor (full_method rq) (MetricsInterceptor (full_method rq) ?h) ctx"
    unfolding serve_chain RecoveryInterceptor_def
    by (rule recover_panic_free) (intro interceptor_panic_free pf)
  then show ?thesis
    using r by (simp add: after_def LoggingInterceptor_def MetricsInterceptor_def time_Now_def emit_def run_simps)
qed

text \<open>
  C20. Rate limits are per owner: with tokens required, requests of other owners leave the limiter
  of an owner, and with it what that owner may still send, as it is.
\<close>
theorem rate_limits_are_per_owner:
  assumes "Enabled cfg" and "\<And>ow. token_owner E cfg ctx ow \<Longrightarrow> ow \<noteq> key"
  shows "limits (after (serve (app_service c ch ps ms) cfg rl ctx rq) E w) key = limits w key"
proof -
  let ?w = "w\<lparr>tick := Suc (Suc (tick w))\<rparr>" and ?m = "full_method rq" and ?d = "dispatch (app_service c ch ps ms) rq"
  obtain x v where x: "run (extractOwnerFromMetadata ctx cfg) E ?w = (Value x, v)" and v: "limits v = limits ?w"
    using run_keeps_eq [OF extractOwner_frame(2) jwt_limits] by blast
  have "limits (snd (run (guarded cfg rl ?m ?d ctx) E ?w)) key = limits w key"
  proof (cases x)
    case (Inl e)
    then show ?thesis using assms(1) x v by (simp add: guarded_def AuthInterceptor_def run_tryE)
  next
    case (Inr ow)
    then have t: "token_owner E cfg ctx ow" using x run_extractOwner [of ctx cfg E ?w] by auto
    then have "OwnerIDFromContext (WithOwnerID ctx ow) = (ow, True)"
      by (auto simp: OwnerIDFromContext_def WithOwnerID_def token_owner_def)
    from limited_other [where h = ?d, OF keeps_comp [OF dispatch_limits] this assms(2) [OF t]]
    have "limits (snd (run (RateLimitInterceptor rl ?m (AuditDeniedInterceptor ?m ?d) (WithOwnerID ctx ow)) E v)) key =
        limits v key" by (rule keeps_run)
    then show ?thesis using assms(1) x v Inr by (simp add: guarded_def AuthInterceptor_def run_tryE)
  qed
  then show ?thesis by (simp add: serve_limits)
qed

theorem rate_limits_are_per_owner_witness:
  "limits (after (serve demo_service demo_auth demo_limiter (bearer_ctx ''HS256:keybob'')
      (GetFileRequest ''f1'' [])) demo_env demo_world) ''alice'' = None"
proof -
  have "ow \<noteq> ''alice''" if "token_owner demo_env demo_auth (bearer_ctx ''HS256:keybob'') ow" for ow
    using demo_token_owner [OF that] by simp
  moreover have "Enabled demo_auth" "limits demo_world ''alice'' = None"
    by (simp_all add: demo_auth_def demo_world_def)
  ultimately show ?thesis
    using rate_limits_are_per_owner [of demo_auth demo_env "bearer_ctx ''HS256:keybob''" "''alice''"]
    unfolding demo_service_def by simp
qed

subsection \<open>Errors\<close>

text \<open>
  C21. The status of an error is decided by the sentinel it wraps, however deep: the four domain
  errors get their own codes with the text of the error, and every other error, of the database
  or of a server, becomes \<open>Internal\<close> with a fixed text that shows nothing of it.
\<close>
theorem error_status:
  "mapError e =
     (case root_err e of
        ErrNotFound \<Rightarrow> (NotFound, Error e)
      | ErrAccessDenied \<Rightarrow> (PermissionDenied, Error e)
      | ErrInvalidInput \<Rightarrow> (InvalidArgument, Error e)
      | ErrAlreadyExists \<Rightarrow> (AlreadyExists, Error e)
      | _ \<Rightarrow> (Internal, ''internal error''))"
  by (simp add: mapError_def errors_Is_sentinel split: err.split)

end
