(* ===== verification/Object_Keys.thy ===== *)
theory Object_Keys
  imports File_Facts
begin

text \<open>
  The names of the objects: what \<open>sanitizeFilename\<close> leaves of a name, and where
  \<open>path.Join\<close> puts the object of a file.
\<close>

lemma sanitizeFilename_chars:
  "CHR ''/'' \<notin> set (sanitizeFilename nm)" "CHR 0x5C \<notin> set (sanitizeFilename nm)" "sanitizeFilename nm \<noteq> []"
proof -
  let ?b = "ReplaceAll (CHR ''/'') (CHR ''_'') (ReplaceAll (CHR 0x5C) (CHR ''_'') nm)"
  have "CHR ''/'' \<notin> set ?b" by (rule set_ReplaceAll) simp
  moreover have "CHR 0x5C \<notin> set ?b"
    by (rule set_ReplaceAll_other, simp, rule set_ReplaceAll) simp
  ultimately have t: "CHR ''/'' \<notin> set (TrimSpace ?b)" "CHR 0x5C \<notin> set (TrimSpace ?b)"
    using set_TrimSpace [of ?b] by blast+
  show "CHR ''/'' \<notin> set (sanitizeFilename nm)" "CHR 0x5C \<notin> set (sanitizeFilename nm)" "sanitizeFilename nm \<noteq> []"
    using t by (auto simp: sanitizeFilename_def Let_def split: if_splits)
qed

lemma objectKeyFor_cases:
  assumes "OwnerID_check ow = None" and "plain_elem i"
  shows "objectKeyFor ow i nm =
    (if sanitizeFilename nm = ''.'' then ow @ ''/'' @ i
     else if sanitizeFilename nm = ''..'' then ow
     else ow @ ''/'' @ i @ ''/'' @ sanitizeFilename nm)"
proof -
  have o: "plain_elem ow" by (rule OwnerID_plain [OF assms(1)])
  then have "ow \<noteq> []" "i \<noteq> []" "i \<noteq> ''..''" using assms(2) by (auto simp: plain_elem_def)
  then show ?thesis
    using path_Clean_three [OF o assms(2) sanitizeFilename_chars(1) [of nm]] sanitizeFilename_chars(3) [of nm]
    by (simp add: objectKeyFor_def path_Join_def clean_elem_def)
qed

text \<open>The first element of the key is the owner, whatever the name is.\<close>

lemma objectKeyFor_owner:
  assumes "OwnerID_check ow = None" and "plain_elem i"
  shows "hd (split_on (CHR ''/'') (objectKeyFor ow i nm)) = ow"
proof -
  have "CHR ''/'' \<notin> set ow" using OwnerID_plain [OF assms(1)] by (simp add: plain_elem_def)
  then show ?thesis
    unfolding objectKeyFor_cases [OF assms]
    using split_on_append [of "CHR ''/''" ow] split_on_free [of "CHR ''/''" ow] by simp
qed

subsection \<open>Properties\<close>

text \<open>
  C22. A file name cannot leave the name space of its owner: with a valid owner and an identifier
  that is a plain path element, the first element of the object key is the owner whatever the
  file name holds, so objects of different owners never share a key, and unless the cleaned name
  is \<open>.\<close> or \<open>..\<close>, the key is the owner, the identifier and the cleaned name, separated by
  slashes. The cleaned name is never empty and holds neither a slash nor a backslash.
\<close>
theorem object_key_stays_with_owner:
  assumes "OwnerID_check ow = None" and "plain_elem i"
  shows "hd (split_on (CHR ''/'') (objectKeyFor ow i nm)) = ow \<and>
    (\<forall>ow' i' nm'. OwnerID_check ow' = None \<longrightarrow> plain_elem i' \<longrightarrow> ow' \<noteq> ow \<longrightarrow>
       objectKeyFor ow' i' nm' \<noteq> objectKeyFor ow i nm) \<and>
    (sanitizeFilename nm \<notin> {''.'', ''..''} \<longrightarrow>
       objectKeyFor ow i nm = ow @ ''/'' @ i @ ''/'' @ sanitizeFilename nm) \<and>
    CHR ''/'' \<notin> set (sanitizeFilename nm) \<and> CHR 0x5C \<notin> set (sanitizeFilename nm) \<and> sanitizeFilename nm \<noteq> []"
proof (intro conjI allI impI)
  show o: "hd (split_on (CHR ''/'') (objectKeyFor ow i nm)) = ow" by (rule objectKeyFor_owner [OF assms])
  show "objectKeyFor ow' i' nm' \<noteq> objectKeyFor ow i nm"
    if "OwnerID_check ow' = None" "plain_elem i'" "ow' \<noteq> ow" for ow' i' nm'
    using o objectKeyFor_owner [OF that(1,2), of nm'] that(3) by metis
qed (simp_all add: objectKeyFor_cases [OF assms] sanitizeFilename_chars)

theorem object_key_stays_with_owner_witness:
  "objectKeyFor ''alice'' ''0b1e'' ''../../bob/x'' = ''alice/0b1e/.._.._bob_x''"
proof -
  have "OwnerID_check ''alice'' = None" by code_simp
  moreover have "plain_elem ''0b1e''" by (simp add: plain_elem_def)
  moreover have "sanitizeFilename ''../../bob/x'' = ''.._.._bob_x''" by code_simp
  ultimately show ?thesis using object_key_stays_with_owner [of "''alice''" "''0b1e''" "''../../bob/x''"] by simp
qed

text \<open>A successful insertion had no row with the same object key before.\<close>

lemma Create_key_free:
  assumes "fst (run (Create f) E v) = Value (Inr ())" and "r \<in> set (files (db v))"
  shows "ObjectKey r \<noteq> ObjectKey f"
proof -
  from assms(1) obtain n where "fst (sql_insert_file (pg E) f (db v)) = Inr n"
    by (cases "pgFault E (tick v)"; cases "fst (sql_insert_file (pg E) f (db v))")
      (auto simp: Create_def sql_def run_simps sql_act_def Let_def split_beta faulty_def)
  then show ?thesis
    using assms(2) by (auto simp: sql_insert_file_def Let_def split: option.splits if_splits)
qed

text \<open>
  C39. A file whose cleaned name is \<open>..\<close> loses the identifier from its object key: the key of
  every such file of an owner is the name of the owner, so that all of them have the same key.
  As the table keeps object keys unique, once there is one such file no other upload with such a
  name is ever created for that owner, whatever the servers answer.
\<close>
theorem dotdot_key:
  assumes "OwnerID_check ow = None" and "plain_elem i" and "\<forall>n. plain_elem (uuids E n)"
    and "sanitizeFilename nm = ''..''" and "sanitizeFilename nm' = ''..''"
  shows "objectKeyFor ow i nm = ow \<and>
    ((\<exists>r \<in> set (files (db w)). ObjectKey r = objectKeyFor ow i nm) \<longrightarrow>
      (\<forall>res. result (CreateUpload (app_service c ch ps ms) ow nm' ct sz) E w \<noteq> Value (Inr res)))"
proof (intro conjI impI allI notI)
  show k: "objectKeyFor ow i nm = ow" using assms(4) by (simp add: objectKeyFor_cases [OF assms(1,2)])
  fix res
  assume "\<exists>r \<in> set (files (db w)). ObjectKey r = objectKeyFor ow i nm"
  then obtain r where r: "r \<in> set (files (db w))" "ObjectKey r = ow" using k by auto
  assume "result (CreateUpload (app_service c ch ps ms) ow nm' ct sz) E w = Value (Inr res)"
  then obtain v n now where f: "Metadata res = new_single (app_service c ch ps ms) ow nm' ct sz (uuids E n) now"
    and v: "db v = db w" "fst (run (Create (Metadata res)) E v) = Value (Inr ())"
    using CreateUpload_Inr by blast
  have "ObjectKey (Metadata res) = ow"
    using objectKeyFor_cases [OF assms(1), of "uuids E n" nm'] assms(3,5) by (simp add: f new_single_def)
  then show False using Create_key_free [OF v(2), of r] v(1) r by simp
qed

theorem dotdot_key_witness:
  "objectKeyFor ''alice'' ''0b1e'' ''..'' = ''alice'' \<and> objectKeyFor ''alice'' ''77aa'' ''..'' = ''alice''"
proof -
  have "OwnerID_check ''alice'' = None" "sanitizeFilename ''..'' = ''..''" by code_simp+
  moreover have "plain_elem ''0b1e''" "plain_elem ''77aa''" by (simp_all add: plain_elem_def)
  moreover have "\<forall>n. plain_elem (uuids (demo_env\<lparr>uuids := \<lambda>_. ''0b1e''\<rparr>) n)" by (simp add: plain_elem_def)
  ultimately show ?thesis
    using dotdot_key [of "''alice''" _ "demo_env\<lparr>uuids := \<lambda>_. ''0b1e''\<rparr>" "''..''" "''..''"] by metis
qed

end
