(* ===== verification/Submatch.thy ===== *)
theory Submatch
  imports Go_Strings
begin

text \<open>
  Package \<open>regexp\<close> with submatches: the leftmost match and, among the matches there, the one
  that a backtracking search finds first, which is what the package documents. An expression has
  literals, the end of the text, greedy and lazy repetitions of a class of characters, one
  capturing group, alternatives and sequences. Bytes stand for characters: a class that holds
  every character of a multi-byte encoding steps through its bytes.
\<close>

datatype rx =
    RxLit string
  | RxEnd
  | RxMany bool "char \<Rightarrow> bool"
  | RxGroup rx
  | RxAlt rx rx
  | RxSeq rx rx

text \<open>
  A matcher takes what is to follow as a continuation. \<open>many_k greedy P k s\<close> takes characters
  of \<open>P\<close> from \<open>s\<close>: as many as possible first, or as few as possible first.
\<close>

fun many_k :: "bool \<Rightarrow> (char \<Rightarrow> bool) \<Rightarrow> (string \<Rightarrow> 'r option) \<Rightarrow> string \<Rightarrow> 'r option" where
  "many_k greedy P k [] = k []"
| "many_k greedy P k (c # s) =
     (if greedy
      then (case if P c then many_k greedy P k s else None of None \<Rightarrow> k (c # s) | Some r \<Rightarrow> Some r)
      else (case k (c # s) of None \<Rightarrow> if P c then many_k greedy P k s else None | Some r \<Rightarrow> Some r))"

text \<open>The state of a match: the text still to be read and the text of the group, if set.\<close>

type_synonym rx_state = "string \<times> string option"

primrec rx_k :: "rx \<Rightarrow> (rx_state \<Rightarrow> rx_state option) \<Rightarrow> rx_state \<Rightarrow> rx_state option" where
  "rx_k (RxLit p) k st = (if HasPrefix (fst st) p then k (drop (length p) (fst st), snd st) else None)"
| "rx_k RxEnd k st = (if fst st = [] then k st else None)"
| "rx_k (RxMany greedy P) k st = many_k greedy P (\<lambda>s. k (s, snd st)) (fst st)"
| "rx_k (RxGroup r) k st =
     rx_k r (\<lambda>st'. k (fst st', Some (take (length (fst st) - length (fst st')) (fst st)))) st"
| "rx_k (RxAlt a b) k st = (case rx_k a k st of None \<Rightarrow> rx_k b k st | Some x \<Rightarrow> Some x)"
| "rx_k (RxSeq a b) k st = rx_k a (rx_k b k) st"

text \<open>The whole match and the group, or the empty list when there is no match.\<close>

definition submatches :: "string \<Rightarrow> rx_state \<Rightarrow> string list" where
  "submatches s st = [take (length s - length (fst st)) s, case snd st of None \<Rightarrow> [] | Some g \<Rightarrow> g]"

fun FindStringSubmatch :: "rx \<Rightarrow> string \<Rightarrow> string list" where
  "FindStringSubmatch r [] = (case rx_k r Some ([], None) of None \<Rightarrow> [] | Some st \<Rightarrow> submatches [] st)"
| "FindStringSubmatch r (c # s) =
     (case rx_k r Some (c # s, None) of
        None \<Rightarrow> FindStringSubmatch r s
      | Some st \<Rightarrow> submatches (c # s) st)"

subsection \<open>The first occurrence of a text\<close>

text \<open>The text before and after the first occurrence of \<open>p\<close>.\<close>

fun cut_at :: "string \<Rightarrow> string \<Rightarrow> (string \<times> string) option" where
  "cut_at p [] = (if p = [] then Some ([], []) else None)"
| "cut_at p (c # s) =
     (if HasPrefix (c # s) p then Some ([], drop (length p) (c # s))
      else map_option (apfst (Cons c)) (cut_at p s))"

definition upto_mark :: "string \<Rightarrow> string \<Rightarrow> string" where
  "upto_mark p s = (case cut_at p s of None \<Rightarrow> s | Some (u, _) \<Rightarrow> u)"

lemma upto_mark_simps:
  "upto_mark p [] = []"
  "upto_mark p (c # s) = (if HasPrefix (c # s) p then [] else c # upto_mark p s)"
  by (auto simp: upto_mark_def split: option.split)

lemma take_upto_mark: "take (length (upto_mark p s)) s = upto_mark p s"
  by (induction s) (simp_all add: upto_mark_simps)

subsection \<open>What repetitions take\<close>

text \<open>A greedy repetition takes all it can when the rest then matches.\<close>

lemma many_greedy: "k (dropWhile P s) \<noteq> None \<Longrightarrow> many_k True P k s = k (dropWhile P s)"
  by (induction s) (auto split: option.split)

text \<open>A lazy repetition of every character stops where the rest matches for the first time.\<close>

lemma many_lazy:
  assumes "\<And>t. t \<noteq> [] \<Longrightarrow> \<not> HasPrefix t p \<Longrightarrow> k t = None"
    and "\<And>t. t = [] \<or> HasPrefix t p \<Longrightarrow> k t \<noteq> None"
  shows "many_k False (\<lambda>_. True) k s = k (drop (length (upto_mark p s)) s)"
proof (induction s)
  case (Cons c s)
  show ?case
  proof (cases "HasPrefix (c # s) p")
    case True
    then show ?thesis using assms(2) [of "c # s"] by (auto simp: upto_mark_simps)
  next
    case False
    then show ?thesis using assms(1) [of "c # s"] Cons by (simp add: upto_mark_simps)
  qed
qed (simp add: upto_mark_simps)

text \<open>
  An expression that starts with a mark, skips space, and captures lazily up to a second mark or
  the end of the text.
\<close>

definition section_rx :: "string \<Rightarrow> (char \<Rightarrow> bool) \<Rightarrow> string \<Rightarrow> rx" where
  "section_rx mark sp till = RxSeq (RxLit mark) (RxSeq (RxMany True sp)
     (RxSeq (RxGroup (RxMany False (\<lambda>_. True))) (RxAlt (RxLit till) RxEnd)))"

lemma section_here:
  "\<exists>rest. rx_k (section_rx mark sp till) Some (s, g) =
     (if HasPrefix s mark then Some (rest, Some (upto_mark till (dropWhile sp (drop (length mark) s)))) else None)"
proof (cases "HasPrefix s mark")
  case True
  let ?b = "dropWhile sp (drop (length mark) s)"
  let ?fin = "rx_k (RxAlt (RxLit till) RxEnd) Some"
  let ?lazy = "\<lambda>b. rx_k (RxGroup (RxMany False (\<lambda>_. True))) ?fin (b, g)"
  have lazy: "\<exists>rest. ?lazy b = Some (rest, Some (upto_mark till b))" for b
  proof -
    let ?k = "\<lambda>t. ?fin (t, Some (take (length b - length t) b))"
    have "?lazy b = many_k False (\<lambda>_. True) ?k b" by (simp only: rx_k.simps(3,4) fst_conv snd_conv)
    also have "\<dots> = ?k (drop (length (upto_mark till b)) b)"
      by (rule many_lazy [of till]) (auto split: option.split)
    finally have "?lazy b = ?k (drop (length (upto_mark till b)) b)" .
    moreover have "drop (length (upto_mark till b)) b = [] \<or> HasPrefix (drop (length (upto_mark till b)) b) till"
      by (induction b) (simp_all add: upto_mark_simps)
    moreover have "length (upto_mark till b) \<le> length b"
      by (induction b) (simp_all add: upto_mark_simps)
    then have "length b - length (drop (length (upto_mark till b)) b) = length (upto_mark till b)" by simp
    ultimately show ?thesis
      using take_upto_mark [of till b] by (auto split: option.split)
  qed
  have "rx_k (section_rx mark sp till) Some (s, g) = many_k True sp ?lazy (drop (length mark) s)"
    using True by (simp add: section_rx_def)
  also have "\<dots> = ?lazy ?b" using lazy [of ?b] by (intro many_greedy) auto
  finally show ?thesis using lazy [of ?b] True by simp
qed (simp add: section_rx_def)

text \<open>The submatch is found at the first mark and ends before the first end mark after it.\<close>

lemma section_find:
  assumes "mark \<noteq> []"
  shows "\<exists>whole. FindStringSubmatch (section_rx mark sp till) s =
    (case cut_at mark s of None \<Rightarrow> [] | Some (_, rest) \<Rightarrow> [whole, upto_mark till (dropWhile sp rest)])"
proof (induction s)
  case Nil
  have "\<not> HasPrefix [] mark" using assms by (simp add: HasPrefix_iff)
  then show ?case using section_here [of mark sp till "[]" None] assms by simp
next
  case (Cons c s)
  show ?case
  proof (cases "HasPrefix (c # s) mark")
    case True
    then show ?thesis using section_here [of mark sp till "c # s" None] by (auto simp: submatches_def)
  next
    case False
    then show ?thesis
      using section_here [of mark sp till "c # s" None] Cons by (auto split: option.split)
  qed
qed

end
