(* ===== verification/Migrations.thy ===== *)
theory Migrations
  imports Example_Deployment Submatch
begin

text \<open>
  \<open>src/internal/repository/postgres/migrate.go\<close>: the scripts embedded in the binary, the
  extraction of their up sections and their execution in the order of their names. A script is
  sent as one text, which Postgres executes as a whole or refuses; what it does to the schema is
  up to the engine, so that of a script that was executed the database keeps its text, in the
  list \<open>scripts\<close>. Every embedded script only creates what is missing, and the tables of the
  model exist from the start.
\<close>

subsection \<open>Package embed\<close>

text \<open>
  A file system is the list of its paths with their contents. A directory is listed by name; an
  entry is a directory when its path goes on.
\<close>

type_synonym embed_FS = "(string \<times> string) list"

definition ReadDir :: "embed_FS \<Rightarrow> string \<Rightarrow> err + (string \<times> bool) list" where
  "ReadDir fs dir =
     (let rests = map (drop (length dir + 1)) (filter (\<lambda>p. HasPrefix p (dir @ ''/'')) (map fst fs))
      in if rests = [] then Inl (External (''open '' @ dir @ '': file does not exist''))
         else Inr (sort_key fst (remdups
                (map (\<lambda>r. (takeWhile (\<lambda>c. c \<noteq> CHR ''/'') r, CHR ''/'' \<in> set r)) rests))))"

definition ReadFile :: "embed_FS \<Rightarrow> string \<Rightarrow> err + string" where
  "ReadFile fs p =
     (case map_of fs p of None \<Rightarrow> Inl (External (''open '' @ p @ '': file does not exist'')) | Some c \<Rightarrow> Inr c)"

subsection \<open>The up section of a script\<close>

definition goose_up :: string where "goose_up = ''-- +goose Up''"
definition goose_down :: string where "goose_down = ''-- +goose Down''"

text \<open>The class \<open>\s\<close> of package \<open>regexp\<close>.\<close>

definition re_space :: "char \<Rightarrow> bool" where
  "re_space c \<longleftrightarrow> c \<in> {CHR 0x09, CHR 0x0A, CHR 0x0C, CHR 0x0D, CHR 0x20}"

text \<open>\<open>(?s)-- \+goose Up\s*(.*?)(?:-- \+goose Down|$)\<close>; without the flag \<open>m\<close>, \<open>$\<close> is the end.\<close>

definition gooseUpRE :: rx where
  "gooseUpRE = RxSeq (RxLit goose_up) (RxSeq (RxMany True re_space)
     (RxSeq (RxGroup (RxMany False (\<lambda>_. True))) (RxAlt (RxLit goose_down) RxEnd)))"

definition extractGooseUp :: "string \<Rightarrow> string" where
  "extractGooseUp raw =
     (let match = FindStringSubmatch gooseUpRE raw
      in if length match < 2 then TrimSpace raw else TrimSpace (match ! 1))"

text \<open>What the pattern finds: the text from the first up mark to the first down mark after it.\<close>

lemma extractGooseUp_cut:
  "extractGooseUp raw = TrimSpace (case cut_at goose_up raw of None \<Rightarrow> raw
     | Some (_, rest) \<Rightarrow> upto_mark goose_down (dropWhile re_space rest))"
proof -
  have "gooseUpRE = section_rx goose_up re_space goose_down" by (simp add: gooseUpRE_def section_rx_def)
  moreover have "goose_up \<noteq> []" by (simp add: goose_up_def)
  ultimately show ?thesis
    using section_find [of goose_up re_space goose_down raw]
    by (auto simp: extractGooseUp_def Let_def split: option.split)
qed

subsection \<open>Execution\<close>

definition sql_exec :: "string \<Rightarrow> pg_engine \<Rightarrow> pgdb \<Rightarrow> (err + unit) \<times> pgdb" where
  "sql_exec script P d =
     (case pgRefuses P (scripts d) script of
        Some e \<Rightarrow> (Inl (External e), d)
      | None \<Rightarrow> (Inr (), d\<lparr>scripts := scripts d @ [script]\<rparr>))"

definition migration_names :: "(string \<times> bool) list \<Rightarrow> string list" where
  "migration_names entries = sort (map fst (filter (\<lambda>(n, isDir). \<not> isDir \<and> HasSuffix n ''.sql'') entries))"

fun apply_migrations :: "embed_FS \<Rightarrow> string list \<Rightarrow> (err + unit) prog" where
  "apply_migrations fs [] = Return (Inr ())"
| "apply_migrations fs (name # names) =
     (case ReadFile fs (''migrations/'' @ name) of
        Inl e \<Rightarrow> Return (Inl (Wrapf (''read migration '' @ name @ '': '') e []))
      | Inr raw \<Rightarrow>
          (let script = extractGooseUp raw
           in if TrimSpace script = [] then apply_migrations fs names
              else bindP (sql (sql_exec script)) (\<lambda>r.
                case r of
                  Inl e \<Rightarrow> Return (Inl (Wrapf (''apply migration '' @ name @ '': '') e []))
                | Inr _ \<Rightarrow> apply_migrations fs names)))"

definition RunMigrations :: "embed_FS \<Rightarrow> (err + unit) prog" where
  "RunMigrations fs =
     (case ReadDir fs ''migrations'' of
        Inl e \<Rightarrow> Return (Inl (Wrapf ''read migrations dir: '' e []))
      | Inr entries \<Rightarrow> apply_migrations fs (migration_names entries))"

subsection \<open>The embedded scripts\<close>

definition lines_text :: "string list \<Rightarrow> string" where
  "lines_text ls = concat (map (\<lambda>l. l @ [CHR 0x0A]) ls)"

definition init_up :: "string list" where
  "init_up =
    [''CREATE TABLE IF NOT EXISTS files ('',
     ''    id UUID PRIMARY KEY,'',
     ''    owner_id TEXT NOT NULL,'',
     ''    bucket TEXT NOT NULL,'',
     ''    object_key TEXT NOT NULL UNIQUE,'',
     ''    original_name TEXT NOT NULL,'',
     ''    content_type TEXT NOT NULL,'',
     ''    size_bytes BIGINT NOT NULL CHECK (size_bytes >= 0),'',
     ''    checksum_sha256 TEXT NOT NULL DEFAULT '' @ [CHR 0x27, CHR 0x27] @ '','',
     ''    status TEXT NOT NULL CHECK (status IN ('pending', 'ready', 'deleted')),'',
     ''    upload_mode TEXT NOT NULL DEFAULT 'single' CHECK (upload_mode IN ('single', 'multipart')),'',
     ''    upload_id TEXT NOT NULL DEFAULT '' @ [CHR 0x27, CHR 0x27] @ '','',
     ''    part_size BIGINT NOT NULL DEFAULT 0,'',
     ''    created_at TIMESTAMPTZ NOT NULL DEFAULT NOW(),'',
     ''    updated_at TIMESTAMPTZ NOT NULL DEFAULT NOW()'',
     '');'',
     [],
     ''CREATE INDEX IF NOT EXISTS idx_files_owner_created ON files (owner_id, created_at DESC)'',
     ''    WHERE status != 'deleted';'']"

definition multipart_up :: "string list" where
  "multipart_up =
    [''CREATE TABLE IF NOT EXISTS upload_parts ('',
     ''    file_id UUID NOT NULL REFERENCES files(id) ON DELETE CASCADE,'',
     ''    part_number INT NOT NULL CHECK (part_number > 0),'',
     ''    etag TEXT NOT NULL,'',
     ''    uploaded_at TIMESTAMPTZ NOT NULL DEFAULT NOW(),'',
     ''    PRIMARY KEY (file_id, part_number)'',
     '');'']"

definition migrationFS :: embed_FS where
  "migrationFS =
    [(''migrations/001_init.sql'', lines_text ([goose_up] @ init_up @
        [[], goose_down, ''DROP TABLE IF EXISTS files;''])),
     (''migrations/002_multipart.sql'', lines_text ([goose_up] @ multipart_up @
        [[], goose_down, ''DROP TABLE IF EXISTS upload_parts;'']))]"

subsection \<open>The first occurrence of a mark\<close>

text \<open>\<open>p\<close> does not start at any of the first \<open>n\<close> positions of \<open>s\<close>.\<close>

definition not_before :: "nat \<Rightarrow> string \<Rightarrow> string \<Rightarrow> bool" where
  "not_before n p s \<longleftrightarrow> (\<forall>k \<in> set [0..<n]. \<not> HasPrefix (drop k s) p)"

lemma cut_at_first:
  assumes "p \<noteq> []" and "not_before (length pre) p (pre @ p @ post)"
  shows "cut_at p (pre @ p @ post) = Some (pre, post)"
  using assms(2)
proof (induction pre)
  case Nil
  then show ?case using assms(1) by (cases p) (auto simp: HasPrefix_def)
next
  case (Cons c pre)
  have none: "\<not> HasPrefix (drop k (c # pre @ p @ post)) p" if "k < Suc (length pre)" for k
    using Cons.prems that by (simp add: not_before_def del: upt_Suc)
  have "not_before (length pre) p (pre @ p @ post)"
    using none [of "Suc _"] by (simp add: not_before_def del: drop_append)
  with Cons.IH none [of 0] show ?case by simp
qed

lemma not_before_free: "c \<notin> set pre \<Longrightarrow> not_before (length pre) (c # p) (pre @ s)"
proof -
  assume a: "c \<notin> set pre"
  have "\<not> HasPrefix (drop k (pre @ s)) (c # p)" if "k < length pre" for k
  proof -
    have "drop k (pre @ s) = pre ! k # drop (Suc k) pre @ s" using that by (simp add: Cons_nth_drop_Suc)
    then show ?thesis using a that by (auto simp: HasPrefix_Cons)
  qed
  then show ?thesis by (simp add: not_before_def)
qed

lemma cut_at_None: "cut_at p s = None \<Longrightarrow> \<not> HasPrefix (drop k s) p"
proof (induction p s arbitrary: k rule: cut_at.induct)
  case (1 p)
  then show ?case by (auto simp: HasPrefix_def split: if_splits)
next
  case (2 p c s)
  then show ?case by (cases k) (auto split: if_splits)
qed

subsection \<open>Space at the front of a section\<close>

lemma strip_space:
  assumes "re_space c"
  shows "strip_prefixes white_space (c # s) = strip_prefixes white_space s"
proof -
  have "find (\<lambda>p. p \<noteq> [] \<and> HasPrefix (c # s) p) white_space = Some [c]"
    using assms unfolding re_space_def
    by (elim insertE emptyE) (simp_all add: white_space_def HasPrefix_def)
  then show ?thesis by (subst strip_prefixes.simps) simp
qed

lemma TrimSpace_dropWhile: "TrimSpace (dropWhile re_space s) = TrimSpace s"
  by (induction s) (simp_all add: TrimSpace_def TrimLeftSpace_def strip_space)

lemma mem_strip_prefixes:
  assumes "\<forall>p \<in> set ps. c \<notin> set p"
  shows "c \<in> set (strip_prefixes ps s) \<longleftrightarrow> c \<in> set s"
  using assms
proof (induction ps s rule: strip_prefixes.induct)
  case (1 ps s)
  show ?case
  proof (cases "find (\<lambda>p. p \<noteq> [] \<and> HasPrefix s p) ps")
    case None
    then show ?thesis by (subst strip_prefixes.simps) simp
  next
    case (Some p)
    then have "p \<in> set ps" "HasPrefix s p" by (auto dest!: find_Some_mem)
    then obtain t where "s = p @ t" by (auto simp: HasPrefix_iff)
    moreover have "c \<notin> set p" using \<open>p \<in> set ps\<close> 1(2) by blast
    ultimately show ?thesis using Some 1(1) [OF Some 1(2)] by (subst strip_prefixes.simps) simp
  qed
qed

lemma TrimSpace_keeps:
  assumes "\<forall>p \<in> set white_space. c \<notin> set p" and "c \<in> set s"
  shows "c \<in> set (TrimSpace s)"
  using assms by (simp add: TrimSpace_def TrimRightSpace_def TrimLeftSpace_def mem_strip_prefixes)

lemma extract_between_marks:
  assumes "not_before (length pre) goose_up (pre @ goose_up @ body @ goose_down @ post)"
    and "not_before (length body) goose_down (body @ goose_down @ post)"
  shows "extractGooseUp (pre @ goose_up @ body @ goose_down @ post) = TrimSpace body"
proof -
  let ?b = "dropWhile re_space body"
  have drop: "dropWhile re_space (body @ goose_down @ post) = ?b @ goose_down @ post"
    by (simp add: dropWhile_append goose_down_def re_space_def)
  obtain n where b: "?b = drop n body" "n \<le> length body"
    using dropWhile_eq_drop length_takeWhile_le by metis
  have "not_before (length ?b) goose_down (?b @ goose_down @ post)"
  proof -
    have "\<not> HasPrefix (drop k (?b @ goose_down @ post)) goose_down" if "k < length ?b" for k
    proof -
      have "drop k (?b @ goose_down @ post) = drop (n + k) (body @ goose_down @ post)"
        using b that by (simp add: add.commute)
      then show ?thesis using assms(2) b that by (simp add: not_before_def)
    qed
    then show ?thesis by (simp add: not_before_def)
  qed
  then have "cut_at goose_down (?b @ goose_down @ post) = Some (?b, post)"
    by (intro cut_at_first) (simp_all add: goose_down_def)
  moreover have "cut_at goose_up (pre @ goose_up @ body @ goose_down @ post) = Some (pre, body @ goose_down @ post)"
    using assms(1) by (intro cut_at_first) (simp_all add: goose_up_def)
  ultimately show ?thesis
    unfolding extractGooseUp_cut by (simp add: drop TrimSpace_dropWhile upto_mark_def)
qed

subsection \<open>Execution\<close>

definition up_section :: "embed_FS \<Rightarrow> string \<Rightarrow> string list" where
  "up_section fs name =
     (case ReadFile fs (''migrations/'' @ name) of Inl _ \<Rightarrow> []
      | Inr raw \<Rightarrow> if TrimSpace (extractGooseUp raw) = [] then [] else [extractGooseUp raw])"

definition migration_plan :: "embed_FS \<Rightarrow> string list \<Rightarrow> string list" where
  "migration_plan fs names = concat (map (up_section fs) names)"

definition executed :: "string list \<Rightarrow> world \<Rightarrow> world \<Rightarrow> bool" where
  "executed ss w v \<longleftrightarrow> db v = (db w)\<lparr>scripts := scripts (db w) @ ss\<rparr>"

text \<open>Postgres accepts the scripts one after the other.\<close>

fun accepts :: "pg_engine \<Rightarrow> string list \<Rightarrow> string list \<Rightarrow> bool" where
  "accepts P done_scripts [] = True"
| "accepts P done_scripts (s # ss) \<longleftrightarrow> pgRefuses P done_scripts s = None \<and> accepts P (done_scripts @ [s]) ss"

lemma run_sql_exec:
  "\<exists>r v. run (sql (sql_exec s)) E w = (Value r, v) \<and>
     (if r = Inr () then executed [s] w v else executed [] w v \<or> executed [s] w v) \<and>
     (pg_calm E \<and> pgRefuses (pg E) (scripts (db w)) s = None \<longrightarrow> r = Inr ())"
proof (cases "pgFault E (tick w)")
  case NoFault
  then show ?thesis
    by (auto simp: sql_def run_atomic sql_act_def sql_exec_def faulty_def executed_def split: option.split)
next
  case (FaultBefore x)
  then have "\<not> pg_calm E" unfolding pg_calm_def by (metis fault.distinct(1))
  with FaultBefore show ?thesis
    by (auto simp: sql_def run_atomic sql_act_def sql_exec_def faulty_def executed_def split: option.split)
next
  case (FaultAfter x)
  then have "\<not> pg_calm E" unfolding pg_calm_def by (metis fault.distinct(3))
  with FaultAfter show ?thesis
    by (auto simp: sql_def run_atomic sql_act_def sql_exec_def faulty_def executed_def split: option.split)
qed

lemma apply_migrations_prefix:
  "\<exists>r v k. run (apply_migrations fs names) E w = (Value r, v) \<and>
     executed (take k (migration_plan fs names)) w v \<and>
     (r = Inr () \<longrightarrow> length (migration_plan fs names) \<le> k) \<and>
     (pg_calm E \<and> accepts (pg E) (scripts (db w)) (migration_plan fs names) \<and>
       (\<forall>n \<in> set names. \<exists>raw. ReadFile fs (''migrations/'' @ n) = Inr raw) \<longrightarrow> r = Inr ())"
proof (induction names arbitrary: w)
  case Nil
  then show ?case by (simp add: executed_def migration_plan_def)
next
  case (Cons n ns)
  show ?case
  proof (cases "ReadFile fs (''migrations/'' @ n)")
    case (Inl e)
    then show ?thesis by (auto simp: executed_def intro!: exI [of _ 0])
  next
    case (Inr raw)
    show ?thesis
    proof (cases "TrimSpace (extractGooseUp raw) = []")
      case True
      then have "migration_plan fs (n # ns) = migration_plan fs ns"
        using Inr by (simp add: migration_plan_def up_section_def)
      then show ?thesis using Cons.IH [of w] Inr True by (simp add: Let_def)
    next
      case False
      let ?s = "extractGooseUp raw"
      have plan: "migration_plan fs (n # ns) = ?s # migration_plan fs ns"
        using Inr False by (simp add: migration_plan_def up_section_def)
      obtain r v where s: "run (sql (sql_exec ?s)) E w = (Value r, v)"
        "if r = Inr () then executed [?s] w v else executed [] w v \<or> executed [?s] w v"
        "pg_calm E \<and> pgRefuses (pg E) (scripts (db w)) ?s = None \<longrightarrow> r = Inr ()" using run_sql_exec by blast
      show ?thesis
      proof (cases r)
        case (Inl e)
        then obtain k where "executed (take k (?s # migration_plan fs ns)) w v" "k \<le> 1"
          using s(2) by (metis One_nat_def le_refl sum.distinct(1) take0 take_Suc_Cons zero_le)
        then show ?thesis using s \<open>ReadFile _ _ = Inr raw\<close> False Inl unfolding plan
          by (auto simp: Let_def run_bind)
      next
        case (Inr u)
        obtain r' v' k where ih: "run (apply_migrations fs ns) E v = (Value r', v')"
          "executed (take k (migration_plan fs ns)) v v'" "r' = Inr () \<longrightarrow> length (migration_plan fs ns) \<le> k"
          "pg_calm E \<and> accepts (pg E) (scripts (db v)) (migration_plan fs ns) \<and>
            (\<forall>n \<in> set ns. \<exists>raw. ReadFile fs (''migrations/'' @ n) = Inr raw) \<longrightarrow> r' = Inr ()"
          using Cons.IH by blast
        have "scripts (db v) = scripts (db w) @ [?s]" using s(2) Inr by (simp add: executed_def)
        moreover have "executed (take (Suc k) (?s # migration_plan fs ns)) w v'"
          using s(2) ih(2) Inr by (simp add: executed_def)
        ultimately show ?thesis using s ih \<open>ReadFile _ _ = Inr raw\<close> False Inr unfolding plan
          by (intro exI [of _ r'] exI [of _ v'] exI [of _ "Suc k"]) (simp add: Let_def run_bind)
      qed
    qed
  qed
qed


lemma ReadDir_ReadFile:
  assumes "ReadDir fs dir = Inr es" and "(n, False) \<in> set es"
  shows "\<exists>raw. ReadFile fs (dir @ ''/'' @ n) = Inr raw"
proof -
  obtain p c where p: "(p, c) \<in> set fs" "HasPrefix p (dir @ ''/'')"
    and n: "n = takeWhile (\<lambda>c. c \<noteq> CHR ''/'') (drop (Suc (length dir)) p)" "CHR ''/'' \<notin> set (drop (Suc (length dir)) p)"
    using assms by (auto simp: ReadDir_def Let_def split: if_splits)
  have "n = drop (Suc (length dir)) p" using n by (auto simp: takeWhile_eq_all_conv)
  then have "dir @ ''/'' @ n = p" using p(2) by (auto simp: HasPrefix_iff)
  moreover obtain c' where "map_of fs p = Some c'" using p(1) weak_map_of_SomeI by metis
  ultimately show ?thesis by (simp add: ReadFile_def)
qed

lemma migration_names_mem: "n \<in> set (migration_names es) \<Longrightarrow> (n, False) \<in> set es"
  by (auto simp: migration_names_def)

lemma RunMigrations_prefix:
  assumes "ReadDir fs ''migrations'' = Inr entries"
  shows "\<exists>r v k. run (RunMigrations fs) E w = (Value r, v) \<and>
     executed (take k (migration_plan fs (migration_names entries))) w v \<and>
     (r = Inr () \<longrightarrow> length (migration_plan fs (migration_names entries)) \<le> k) \<and>
     (pg_calm E \<and> accepts (pg E) (scripts (db w)) (migration_plan fs (migration_names entries)) \<longrightarrow> r = Inr ())"
  using apply_migrations_prefix [of fs "migration_names entries" E w] ReadDir_ReadFile [OF assms migration_names_mem]
  unfolding RunMigrations_def assms by simp

lemma sorted_migration_names: "sorted (migration_names es)"
  by (simp add: migration_names_def)

lemma set_migration_names: "set (migration_names es) = {n. (n, False) \<in> set es \<and> HasSuffix n ''.sql''}"
  by (auto simp: migration_names_def image_iff)

lemma distinct_migration_names:
  assumes "ReadDir fs dir = Inr es"
  shows "distinct (migration_names es)"
proof -
  have "distinct es" using assms by (auto simp: ReadDir_def Let_def split: if_splits)
  then show ?thesis by (auto simp: migration_names_def distinct_map inj_on_def)
qed

lemma lines_text_Cons: "lines_text (l # ls) = l @ CHR 0x0A # lines_text ls"
  by (simp add: lines_text_def)

lemma lines_text_append: "lines_text (ls @ ms) = lines_text ls @ lines_text ms"
  by (simp add: lines_text_def)

lemma up_script:
  assumes "CHR ''-'' \<notin> set (lines_text ls)" and "CHR ''C'' \<in> set (lines_text ls)"
    and "map_of fs (''migrations/'' @ n) = Some (lines_text ([goose_up] @ ls @ [[], goose_down, d]))"
  shows "up_section fs n = [TrimSpace (lines_text ls @ [CHR 0x0A])]"
proof -
  let ?b = "CHR 0x0A # lines_text ls @ [CHR 0x0A]" and ?d = "CHR 0x0A # d @ [CHR 0x0A]"
  have raw: "lines_text ([goose_up] @ ls @ [[], goose_down, d]) = [] @ goose_up @ ?b @ goose_down @ ?d"
    by (simp add: lines_text_Cons lines_text_append) (simp add: lines_text_def)
  have "not_before (length ?b) goose_down (?b @ goose_down @ ?d)"
    unfolding goose_down_def by (rule not_before_free) (use assms(1) in simp)
  then have e: "extractGooseUp ([] @ goose_up @ ?b @ goose_down @ ?d) = TrimSpace ?b"
    by (intro extract_between_marks) (simp add: not_before_def)
  have t: "TrimSpace ?b = TrimSpace (lines_text ls @ [CHR 0x0A])"
    by (simp add: TrimSpace_def TrimLeftSpace_def strip_space re_space_def)
  have "CHR ''C'' \<in> set (TrimSpace (TrimSpace ?b))"
    by (intro TrimSpace_keeps) (use assms(2) in \<open>simp_all add: white_space_def\<close>)
  then have ne: "TrimSpace (TrimSpace (lines_text ls @ [CHR 0x0A])) \<noteq> []" unfolding t by auto
  show ?thesis
    unfolding up_section_def ReadFile_def assms(3) option.case sum.case raw e t if_not_P [OF ne] ..
qed

lemma embedded_names:
  "case ReadDir migrationFS ''migrations'' of Inl _ \<Rightarrow> False
   | Inr es \<Rightarrow> migration_names es = [''001_init.sql'', ''002_multipart.sql'']"
  by code_simp

lemma scripts_plain:
  "CHR ''-'' \<notin> set (lines_text init_up)" "CHR ''C'' \<in> set (lines_text init_up)"
  "CHR ''-'' \<notin> set (lines_text multipart_up)" "CHR ''C'' \<in> set (lines_text multipart_up)"
  by code_simp+

lemma embedded_plan:
  "migration_plan migrationFS [''001_init.sql'', ''002_multipart.sql''] =
     [TrimSpace (lines_text init_up @ [CHR 0x0A]), TrimSpace (lines_text multipart_up @ [CHR 0x0A])]"
proof -
  have "map_of migrationFS (''migrations/'' @ ''001_init.sql'') =
      Some (lines_text ([goose_up] @ init_up @ [[], goose_down, ''DROP TABLE IF EXISTS files;'']))"
    "map_of migrationFS (''migrations/'' @ ''002_multipart.sql'') =
      Some (lines_text ([goose_up] @ multipart_up @ [[], goose_down, ''DROP TABLE IF EXISTS upload_parts;'']))"
    by (simp_all add: migrationFS_def)
  then show ?thesis using scripts_plain by (simp add: migration_plan_def up_script)
qed

subsection \<open>Properties\<close>

text \<open>
  C32. Of a script with an up and a down mark, exactly the text between the first up mark and the
  first down mark after it is executed, without the space around it: no statement of the down
  section ever runs.
\<close>
theorem up_section_is_between_marks:
  assumes "not_before (length pre) goose_up (pre @ goose_up @ body @ goose_down @ post)"
    and "not_before (length body) goose_down (body @ goose_down @ post)"
  shows "extractGooseUp (pre @ goose_up @ body @ goose_down @ post) = TrimSpace body"
  using assms by (rule extract_between_marks)

theorem up_section_is_between_marks_witness:
  "extractGooseUp (''-- first'' @ CHR 0x0A # goose_up @ [CHR 0x0A] @ ''CREATE TABLE t;'' @ [CHR 0x0A] @
     goose_down @ [CHR 0x0A] @ ''DROP TABLE t;'') = ''CREATE TABLE t;''"
proof -
  let ?pre = "''-- first'' @ [CHR 0x0A]" and ?post = "[CHR 0x0A] @ ''DROP TABLE t;''"
  let ?b = "[CHR 0x0A] @ ''CREATE TABLE t;'' @ [CHR 0x0A]"
  have "not_before (length ?pre) goose_up (?pre @ goose_up @ ?b @ goose_down @ ?post)"
    "not_before (length ?b) goose_down (?b @ goose_down @ ?post)" "TrimSpace ?b = ''CREATE TABLE t;''"
    by code_simp+
  then show ?thesis using up_section_is_between_marks [of ?pre ?b ?post] by simp
qed

text \<open>
  C33. The migrations run in the order of their names and only ever append. The names that are run
  are in ascending byte order whatever the order of the directory listing, and for the listing of
  a directory they are exactly its files that end in \<open>.sql\<close>, each once. Whatever Postgres
  answers, the scripts executed are the up sections of the first of these files; they are all of
  them if \<open>RunMigrations\<close> succeeds, and it succeeds whenever Postgres answers and accepts
  them.
\<close>
theorem migrations_run_in_order:
  assumes "ReadDir fs ''migrations'' = Inr entries"
  shows "(\<forall>es. sorted (migration_names es)) \<and>
    (\<exists>names r v k. sorted names \<and> distinct names \<and>
     set names = {n. (n, False) \<in> set entries \<and> HasSuffix n ''.sql''} \<and>
     run (RunMigrations fs) E w = (Value r, v) \<and>
     executed (take k (migration_plan fs names)) w v \<and>
     (r = Inr () \<longrightarrow> length (migration_plan fs names) \<le> k) \<and>
     (pg_calm E \<and> accepts (pg E) (scripts (db w)) (migration_plan fs names) \<longrightarrow> r = Inr ()))"
  using RunMigrations_prefix [OF assms, of E w] sorted_migration_names set_migration_names
    distinct_migration_names [OF assms] by blast

theorem migrations_run_in_order_witness:
  "\<exists>v. run (RunMigrations migrationFS) demo_env demo_world = (Value (Inr ()), v) \<and>
     scripts (db v) = [TrimSpace (lines_text init_up @ [CHR 0x0A]), TrimSpace (lines_text multipart_up @ [CHR 0x0A])] \<and>
     files (db v) = files (db demo_world)"
proof -
  obtain es where es: "ReadDir migrationFS ''migrations'' = Inr es"
    "migration_names es = [''001_init.sql'', ''002_multipart.sql'']"
    using embedded_names by (auto split: sum.split_asm)
  have names: "names = [''001_init.sql'', ''002_multipart.sql'']"
    if "sorted names" "distinct names" "set names = {n. (n, False) \<in> set es \<and> HasSuffix n ''.sql''}" for names
    using that sorted_distinct_set_unique [of names "migration_names es"] sorted_migration_names
      distinct_migration_names [OF es(1)] set_migration_names [of es] es(2) by metis
  have acc: "accepts (pg demo_env) ds ss" for ds ss
    by (induction ss arbitrary: ds) (simp_all add: demo_env_def demo_engine_def)
  obtain ns r v k where ns: "sorted ns" "distinct ns" "set ns = {n. (n, False) \<in> set es \<and> HasSuffix n ''.sql''}"
    and run: "run (RunMigrations migrationFS) demo_env demo_world = (Value r, v)"
      "executed (take k (migration_plan migrationFS ns)) demo_world v"
      "r = Inr () \<longrightarrow> length (migration_plan migrationFS ns) \<le> k"
      "pg_calm demo_env \<and> accepts (pg demo_env) (scripts (db demo_world)) (migration_plan migrationFS ns) \<longrightarrow> r = Inr ()"
    using migrations_run_in_order [OF es(1), of demo_env demo_world] by blast
  have r: "r = Inr ()" using run(4) demo_pg_calm acc by simp
  have "scripts (db demo_world) = []" by (simp add: demo_world_def)
  then show ?thesis using run(1-3) r unfolding names [OF ns] embedded_plan by (simp add: executed_def)
qed

end
