(* ===== verification/Startup.thy ===== *)
theory Startup
  imports Migrations Config
begin

text \<open>
  The life of the process: \<open>src/internal/app/app.go\<close> with the constructors it calls
  (\<open>src/internal/repository/postgres/connect.go\<close>, the constructors of the MinIO client, the
  cache and the publisher, \<open>src/internal/tlsutil/credentials.go\<close>), and
  \<open>src/cmd/server/main.go\<close>. Every call of a library or of the operating system is one step
  \<open>sys\<close>, recorded with whether it succeeded; its answer comes from the environment. The
  metrics server runs in a goroutine beside the rest of the process (\<open>goP\<close>), scheduled by the
  environment. A goroutine that only makes one call and hands its end over by a channel is that
  call; the answer to a \<open>select\<close> says which of its channels is ready first.
\<close>

subsection \<open>Constructors\<close>

definition wrapE :: "string \<Rightarrow> (err + 'a) prog \<Rightarrow> (err + 'a) prog" where
  "wrapE msg m = bindP m (\<lambda>r. Return (wrap_err msg r))"

definition Connect :: "string \<Rightarrow> (err + unit) prog" where
  "Connect dsn =
     tryE (wrapE ''parse postgres dsn: '' (sys (PgxParseConfig dsn))) (\<lambda>_.
     tryE (wrapE ''connect postgres: '' (sys (PgxNewPool dsn))) (\<lambda>_.
     bindP (sys PgxPing) (\<lambda>r.
     case r of
       Inl e \<Rightarrow> discard (sys PgxClose) (Return (Inl (Wrapf ''ping postgres: '' e [])))
     | Inr _ \<Rightarrow> Return (Inr ()))))"

definition minio_NewClient :: "Config \<Rightarrow> (err + Client) prog" where
  "minio_NewClient cfg =
     tryE (wrapE ''create minio client: ''
       (sys (MinioNew (MinioEndpoint cfg) (MinioAccessKey cfg) (MinioSecretKey cfg) (MinioUseSSL cfg)))) (\<lambda>_.
     Return (Inr \<lparr>bucket = MinioBucket cfg, presignTTL = PresignTTL cfg\<rparr>))"

definition NewCache :: "Config \<Rightarrow> Cache prog" where
  "NewCache cfg =
     discard (sys (RedisNewClient (RedisAddr cfg) (RedisPassword cfg) (RedisDB cfg)))
       (Return \<lparr>ttl = CacheTTL cfg\<rparr>)"

definition Cache_Ping :: "Cache \<Rightarrow> (err + unit) prog" where
  "Cache_Ping c = bindP (sys RedisPing) (\<lambda>r. Return (map_sum id (\<lambda>_. ()) r))"

definition NewPublisher :: "Config \<Rightarrow> unit prog" where
  "NewPublisher cfg = discard (sys (KafkaNewWriter (KafkaBrokers cfg) (KafkaTopic cfg))) (Return ())"

definition Publisher_Close :: "(err + unit) prog" where
  "Publisher_Close = bindP (sys KafkaClose) (\<lambda>r. Return (map_sum id (\<lambda>_. ()) r))"

text \<open>The certificate is what \<open>LoadX509KeyPair\<close> returns; \<open>0x0303\<close> is TLS 1.2.\<close>

record tls_Config =
  Certificate :: string
  MinVersion :: int

definition LoadServerCredentials :: "string \<Rightarrow> string \<Rightarrow> (err + tls_Config) prog" where
  "LoadServerCredentials certFile keyFile =
     tryE (wrapE ''load tls key pair: '' (sys (LoadX509KeyPair certFile keyFile))) (\<lambda>cert.
     Return (Inr \<lparr>Certificate = cert, MinVersion = 0x0303\<rparr>))"

subsection \<open>New\<close>

text \<open>
  The gRPC server holds its credentials, the configuration of its chain of interceptors, the
  registered service and whether reflection is registered.
\<close>

record GrpcServer =
  Creds :: "tls_Config option"
  chain_auth :: AuthConfig
  chain_limiter :: RateLimiter
  registered :: FileService
  reflection :: bool

record App =
  app_cfg :: Config
  grpcServer :: GrpcServer
  metricsAddr :: string

text \<open>\<open>pool.Close()\<close> before an error is returned.\<close>

definition closing :: "err \<Rightarrow> (err + 'a) prog" where
  "closing e = discard (sys PgxClose) (Return (Inl e))"

definition server_creds :: "Config \<Rightarrow> (err + tls_Config option) prog" where
  "server_creds cfg =
     (if GRPCInsecure cfg then Return (Inr None)
      else bindP (LoadServerCredentials (GRPCTLSCertFile cfg) (GRPCTLSKeyFile cfg)) (\<lambda>r.
           Return (map_sum id Some r)))"

definition new_server :: "float_lib \<Rightarrow> Config \<Rightarrow> FileService \<Rightarrow> tls_Config option \<Rightarrow> App prog" where
  "new_server F cfg svc creds =
     discard (sys (GrpcNewServer (creds \<noteq> None))) (
     discard (sys (SetServing True)) (
     discard (if GRPCEnableReflection cfg then discard (sys RegisterReflection) (Return ()) else Return ()) (
     Return \<lparr>app_cfg = cfg,
       grpcServer = \<lparr>Creds = creds, chain_auth = cfg_auth cfg, chain_limiter = cfg_limiter F cfg,
         registered = svc, reflection = GRPCEnableReflection cfg\<rparr>,
       metricsAddr = '':'' @ int_to_string (MetricsPort cfg)\<rparr>)))"

definition New :: "float_lib \<Rightarrow> Config \<Rightarrow> (err + App) prog" where
  "New F cfg =
     tryE (Connect (PostgresDSN cfg)) (\<lambda>_.
     bindP (RunMigrations migrationFS) (\<lambda>r.
     case r of Inl e \<Rightarrow> closing (Wrapf ''run migrations: '' e [])
     | Inr _ \<Rightarrow>
     bindP (minio_NewClient cfg) (\<lambda>r.
     case r of Inl e \<Rightarrow> closing e
     | Inr minioClient \<Rightarrow>
     bindP (EnsureBucket minioClient) (\<lambda>r.
     case r of Inl e \<Rightarrow> closing e
     | Inr _ \<Rightarrow>
     bindP (NewCache cfg) (\<lambda>ch.
     bindP (Cache_Ping ch) (\<lambda>r.
     case r of Inl e \<Rightarrow> closing (Wrapf ''redis ping: '' e [])
     | Inr _ \<Rightarrow>
     discard (NewPublisher cfg) (
     let fileSvc = app_service minioClient ch (MultipartPartSize cfg) (MaxFileSizeBytes cfg) in
     bindP (server_creds cfg) (\<lambda>r.
     case r of Inl e \<Rightarrow> closing e
     | Inr creds \<Rightarrow> bindP (new_server F cfg fileSvc creds) (\<lambda>a. Return (Inr a))))))))))"

subsection \<open>Run and Close\<close>

text \<open>The goroutine of the metrics server.\<close>

definition metrics_goroutine :: "App \<Rightarrow> unit prog" where
  "metrics_goroutine a =
     discard (emit (AppLog ''starting metrics server'' [(''addr'', metricsAddr a)])) (
     bindP (sys (MetricsListen (metricsAddr a))) (\<lambda>r.
     case r of
       Inl e \<Rightarrow> if e \<noteq> External ''http: Server closed''
               then emit (AppLog ''metrics server'' [(''error'', Error e)])
               else Return ()
     | Inr _ \<Rightarrow> Return ()))"

definition bool_text :: "bool \<Rightarrow> string" where
  "bool_text b = (if b then ''true'' else ''false'')"

text \<open>
  After the cancellation: the health status goes down, the server drains, and is stopped at once
  if it has not drained within the timeout.
\<close>

definition shutdown :: "App \<Rightarrow> (err + unit) prog" where
  "shutdown a =
     discard (emit (AppLog ''shutting down'' [])) (
     discard (sys (SetServing False)) (
     discard (sys GracefulStop) (
     bindP (sys (SelectStopped (ShutdownTimeout (app_cfg a)))) (\<lambda>r.
     discard (if r = Inr ''stopped'' then Return () else discard (sys GrpcStop) (Return ())) (
     discard (sys MetricsShutdown) (
     Return (Inr ())))))))"

text \<open>\<open>Run\<close> after it has started the goroutine of the metrics server.\<close>

definition Run_grpc :: "App \<Rightarrow> (err + unit) prog" where
  "Run_grpc a =
     (let addr = '':'' @ int_to_string (GRPCPort (app_cfg a)) in
      tryE (wrapE (''listen '' @ addr @ '': '') (sys (NetListen addr))) (\<lambda>_.
      discard (emit (AppLog ''starting gRPC server'' [(''addr'', addr),
         (''jwt_enabled'', bool_text (JWTEnabled (app_cfg a))),
         (''tls'', bool_text (\<not> GRPCInsecure (app_cfg a)))])) (
      discard (sys GrpcServe) (
      bindP (sys SelectDone) (\<lambda>r.
      case r of
        Inl e \<Rightarrow> Return (Inl e)
      | Inr ready \<Rightarrow> if ready = ''done'' then shutdown a else Return (Inr ()))))))"

text \<open>\<open>Run\<close> returns its result and what the goroutine it has started still has to do.\<close>

definition App_Run :: "App \<Rightarrow> ((err + unit) \<times> unit prog) prog" where
  "App_Run a = goP (metrics_goroutine a) (Run_grpc a)"

definition App_Close :: "App \<Rightarrow> unit prog" where
  "App_Close a =
     discard (sys (SetServing False)) (
     discard (sys GracefulStop) (
     discard (sys MetricsShutdown) (
     discard Publisher_Close (
     discard (sys PgxClose) (
     Return ())))))"

subsection \<open>The process\<close>

text \<open>
  A port that is not a sequence of digits makes the URL invalid. The answer to a request is the
  status line, whose first three bytes are the code.
\<close>

definition checkLive :: "(string \<Rightarrow> string) \<Rightarrow> (err + unit) prog" where
  "checkLive env =
     tryE (Return (if env ''METRICS_PORT'' = [] then Inr 9090
       else case ParseInt (env ''METRICS_PORT'') of
              None \<Rightarrow> Inl (Wrapf ''METRICS_PORT: '' (External ''parse error'') [])
            | Some n \<Rightarrow> Inr n)) (\<lambda>port.
     if port < 0 then Return (Inl (External ''invalid port''))
     else
       tryE (sys (HttpGet (''http://127.0.0.1:'' @ int_to_string port @ ''/healthz''))) (\<lambda>st.
       if take 3 st \<noteq> ''200'' then Return (Inl (NewError (''healthz: '' @ st)))
       else Return (Inr ())))"

text \<open>
  The exit code of the process. \<open>env0\<close> is the environment it was started with, \<open>env\<close>
  the one after \<open>godotenv.Load\<close>. \<open>os.Exit\<close> runs no deferred call, so \<open>Close\<close> only
  runs when \<open>Run\<close> returned no error. The goroutine of the metrics server goes on beside what
  follows \<open>Run\<close>.
\<close>

definition main_process :: "float_lib \<Rightarrow> string list \<Rightarrow> (string \<Rightarrow> string) \<Rightarrow> (string \<Rightarrow> string) \<Rightarrow> int prog" where
  "main_process F args env0 env =
     (if 1 < length args \<and> args ! 1 = ''health''
      then bindP (checkLive env0) (\<lambda>r. Return (case r of Inl _ \<Rightarrow> 1 | Inr _ \<Rightarrow> 0))
      else
        case Load F env of
          Inl e \<Rightarrow> discard (emit (AppLog ''load config'' [(''error'', Error e)])) (Return 1)
        | Inr cfg \<Rightarrow>
            bindP (New F cfg) (\<lambda>r.
            case r of
              Inl e \<Rightarrow> discard (emit (AppLog ''init app'' [(''error'', Error e)])) (Return 1)
            | Inr a \<Rightarrow>
                bindP (App_Run a) (\<lambda>(q, background).
                case q of
                  Inl e \<Rightarrow> discard (goP background (emit (AppLog ''run app'' [(''error'', Error e)]))) (Return 1)
                | Inr _ \<Rightarrow> discard (goP background (App_Close a)) (Return 0))))"

end
