(* ===== verification/Startup_Facts.thy ===== *)
theory Startup_Facts
  imports Startup
begin

text \<open>
  What \<open>Startup\<close> guarantees: connection pools are opened and closed in pairs on every path
  of the start, a start with every server up succeeds and gives the service its configuration
  describes, and the order of a shutdown. \<open>pools p \<delta>\<close> says that \<open>p\<close> returns and
  changes the number of open pools by \<open>\<delta>\<close> of its result; \<open>fine p E\<close> that \<open>p\<close> returns
  without an error.
\<close>

subsection \<open>Open connection pools\<close>

fun pool_change :: "sys_call \<times> bool \<Rightarrow> int" where
  "pool_change (PgxNewPool dsn, ok) = (if ok then 1 else 0)"
| "pool_change (PgxClose, ok) = - 1"
| "pool_change (q, ok) = 0"

definition open_pools :: "world \<Rightarrow> int" where
  "open_pools w = sum_list (map pool_change (trace w))"

definition pools :: "'a prog \<Rightarrow> ('a \<Rightarrow> int) \<Rightarrow> bool" where
  "pools p \<delta> \<longleftrightarrow> (\<forall>E w. \<exists>x v. run p E w = (Value x, v) \<and> open_pools v = open_pools w + \<delta> x)"

named_theorems pool_rules

lemma pools_Return [pool_rules]: "\<delta> x = 0 \<Longrightarrow> pools (Return x) \<delta>"
  by (simp add: pools_def)

lemma pools_bind:
  assumes "pools p \<delta>" and "\<And>x. pools (k x) (\<lambda>y. \<gamma> y - \<delta> x)"
  shows "pools (bindP p k) \<gamma>"
  unfolding pools_def
proof (intro allI)
  fix E w
  obtain x v where p: "run p E w = (Value x, v)" "open_pools v = open_pools w + \<delta> x"
    using assms(1) unfolding pools_def by blast
  obtain y u where "run (k x) E v = (Value y, u)" "open_pools u = open_pools v + (\<gamma> y - \<delta> x)"
    using assms(2) unfolding pools_def by blast
  with p show "\<exists>y u. run (bindP p k) E w = (Value y, u) \<and> open_pools u = open_pools w + \<gamma> y"
    by (simp add: run_bind)
qed

lemma pools_bind_still [pool_rules]:
  "pools p (\<lambda>_. 0) \<Longrightarrow> (\<And>x. pools (k x) \<gamma>) \<Longrightarrow> pools (bindP p k) \<gamma>"
  using pools_bind [of p "\<lambda>_. 0" k \<gamma>] by simp

text \<open>A call that opens a pool unless it fails.\<close>

lemma pools_tryE_open:
  assumes "pools m (\<lambda>r. if isl r then 0 else 1)" and "\<And>e. \<gamma> (Inl e) = 0" and "\<And>x. pools (k x) (\<lambda>y. \<gamma> y - 1)"
  shows "pools (tryE m k) \<gamma>"
  unfolding tryE_def
proof (rule pools_bind [OF assms(1)])
  show "pools (case r of Inl e \<Rightarrow> Return (Inl e) | Inr x \<Rightarrow> k x) (\<lambda>y. \<gamma> y - (if isl r then 0 else 1))" for r
    using assms(2,3) by (cases r) (simp_all add: pools_Return)
qed

lemma pools_tryE_still [pool_rules]:
  "pools p (\<lambda>_. 0) \<Longrightarrow> (\<And>e. \<gamma> (Inl e) = 0) \<Longrightarrow> (\<And>x. pools (k x) \<gamma>) \<Longrightarrow> pools (tryE p k) \<gamma>"
  unfolding tryE_def by (rule pools_bind_still) (auto split: sum.split intro: pools_Return)

lemma pools_discard_still [pool_rules]:
  "pools p (\<lambda>_. 0) \<Longrightarrow> pools q \<gamma> \<Longrightarrow> pools (discard p q) \<gamma>"
  unfolding discard_def by (rule pools_bind_still)

lemma pools_quiet: "panic_free p \<Longrightarrow> keeps p trace \<Longrightarrow> pools p (\<lambda>_. 0)"
  unfolding pools_def open_pools_def using run_keeps_eq [of p trace] by (metis add.right_neutral)

lemma run_sys:
  "run (sys q) E w = (Value (case sysReply E (tick w) q of Inl s \<Rightarrow> Inl (External s) | Inr s \<Rightarrow> Inr s),
     w\<lparr>trace := trace w @ [(q, \<not> isl (sysReply E (tick w) q))], tick := Suc (tick w)\<rparr>)"
  by (simp add: sys_def run_atomic)

lemma pools_sys [pool_rules]:
  "(\<And>ok. pool_change (q, ok) = 0) \<Longrightarrow> pools (sys q) (\<lambda>_. 0)"
  by (simp add: pools_def run_sys open_pools_def)

lemma pools_close: "pools (sys PgxClose) (\<lambda>_. - 1)"
  by (simp add: pools_def run_sys open_pools_def)

lemma pools_open: "pools (sys (PgxNewPool dsn)) (\<lambda>r. if isl r then 0 else 1)"
  by (auto simp: pools_def run_sys open_pools_def split: sum.split)

lemma pools_wrapE [pool_rules]: "pools m (\<lambda>_. 0) \<Longrightarrow> pools (wrapE msg m) (\<lambda>_. 0)"
  unfolding wrapE_def by (rule pools_bind_still) (simp_all add: pools_Return)

lemma pools_emit [pool_rules]: "pools (emit l) (\<lambda>_. 0)"
  by (rule pools_quiet) (simp_all add: emit_def keeps_atomic)

subsection \<open>Every way out of New\<close>

lemma step_trace [simp]:
  "keeps (sql st) trace" "keeps (minio_call q) trace" "keeps (emit l) trace"
  by (simp_all add: step_defs keeps_atomic sql_act_def Let_def split_beta)

lemma RunMigrations_quiet: "panic_free (RunMigrations fs)" "keeps (RunMigrations fs) trace"
proof -
  have "panic_free (apply_migrations fs ns) \<and> keeps (apply_migrations fs ns) trace" for ns
    by (induction ns) (auto simp: Let_def split: sum.split intro!: frame_intros)
  then show "panic_free (RunMigrations fs)" "keeps (RunMigrations fs) trace"
    by (simp_all add: RunMigrations_def split: sum.split)
qed

lemma EnsureBucket_quiet: "panic_free (EnsureBucket c)" "keeps (EnsureBucket c) trace"
  by (auto simp: EnsureBucket_def split: sum.split intro!: frame_intros)

lemma pools_close_Return: "\<delta> x = - 1 \<Longrightarrow> pools (discard (sys PgxClose) (Return x)) \<delta>"
  unfolding discard_def by (rule pools_bind [OF pools_close]) (simp add: pools_Return)

lemma pools_closing: "(\<And>e. \<delta> (Inl e) = - 1) \<Longrightarrow> pools (closing e) \<delta>"
  unfolding closing_def by (rule pools_close_Return)

lemma pools_Connect: "pools (Connect dsn) (\<lambda>r. if isl r then 0 else 1)"
proof -
  have opened: "pools (wrapE msg (sys (PgxNewPool dsn))) (\<lambda>r. if isl r then 0 else 1)" for msg
    unfolding wrapE_def
    by (rule pools_bind [OF pools_open]) (auto simp: wrap_err_def split: sum.split intro!: pools_Return)
  show ?thesis
    unfolding Connect_def
  proof (rule pools_tryE_still, goal_cases)
    case (3 x)
    show ?case
      by (rule pools_tryE_open [OF opened]) (auto split: sum.split intro!: pool_rules pools_close_Return)
  qed (auto intro!: pool_rules)
qed

lemma pools_server:
  "pools (minio_NewClient cfg) (\<lambda>_. 0)" "pools (NewCache cfg) (\<lambda>_. 0)" "pools (Cache_Ping ch) (\<lambda>_. 0)"
  "pools (NewPublisher cfg) (\<lambda>_. 0)" "pools (server_creds cfg) (\<lambda>_. 0)" "pools (new_server F cfg s cr) (\<lambda>_. 0)"
  by (auto simp: minio_NewClient_def NewCache_def Cache_Ping_def NewPublisher_def server_creds_def
      LoadServerCredentials_def new_server_def intro!: pool_rules)

lemma pools_New: "pools (New F cfg) (\<lambda>r. if isl r then 0 else 1)"
  unfolding New_def
  by (rule pools_tryE_open [OF pools_Connect])
    (auto simp: Let_def split: sum.split intro!: pool_rules pools_server pools_closing pools_quiet
      RunMigrations_quiet EnsureBucket_quiet)

lemma pools_run:
  "pools p \<delta> \<Longrightarrow> run p E w = (Value x, v) \<Longrightarrow> open_pools v = open_pools w + \<delta> x"
  unfolding pools_def by (metis Pair_inject outcome.inject(1))

subsection \<open>A start that succeeds\<close>

lemma closing_not_Inr: "run (closing e) E w \<noteq> (Value (Inr x), v)"
  by (simp add: closing_def run_discard run_sys)

text \<open>A step that closes the pool and fails unless its result is \<open>Inr\<close>.\<close>

lemma run_or_close:
  assumes "run (bindP m (\<lambda>r. case r of Inl e \<Rightarrow> closing (h e) | Inr y \<Rightarrow> k y)) E w = (Value (Inr x), v)"
  shows "\<exists>y u. run m E w = (Value (Inr y), u) \<and> run (k y) E u = (Value (Inr x), v)"
proof -
  obtain r u where r: "run m E w = (Value r, u)"
    and k: "run (case r of Inl e \<Rightarrow> closing (h e) | Inr y \<Rightarrow> k y) E u = (Value (Inr x), v)"
    using run_bind_Value [OF assms] by blast
  then show ?thesis by (cases r) (auto simp: closing_not_Inr)
qed

lemma sys_keeps [simp]: "keeps (sys q) db" "keeps (sys q) minio"
  by (simp_all add: sys_def keeps_atomic)

lemma keeps_wrapE: "keeps m g \<Longrightarrow> keeps (wrapE msg m) g"
  unfolding wrapE_def by (rule keeps_bind) simp_all

lemma start_keeps:
  "keeps (Connect dsn) db" "keeps (Connect dsn) minio"
  "keeps (minio_NewClient cfg) db" "keeps (minio_NewClient cfg) minio"
  "keeps (NewCache cfg) db" "keeps (NewCache cfg) minio" "keeps (Cache_Ping ch) db" "keeps (Cache_Ping ch) minio"
  "keeps (NewPublisher cfg) db" "keeps (NewPublisher cfg) minio"
  "keeps (server_creds cfg) db" "keeps (server_creds cfg) minio"
  "keeps (new_server F cfg s cr) db" "keeps (new_server F cfg s cr) minio"
  by (auto simp: Connect_def minio_NewClient_def NewCache_def Cache_Ping_def NewPublisher_def server_creds_def
      LoadServerCredentials_def new_server_def split: sum.split intro!: frame_intros keeps_wrapE)

lemma RunMigrations_minio: "keeps (RunMigrations fs) minio"
proof -
  have "keeps (apply_migrations fs ns) minio" for ns
    by (induction ns) (auto simp: Let_def split: sum.split intro!: frame_intros)
  then show ?thesis by (simp add: RunMigrations_def split: sum.split)
qed

lemma EnsureBucket_db: "keeps (EnsureBucket c) db"
  by (auto simp: EnsureBucket_def split: sum.split intro!: frame_intros)

definition tls_as_configured :: "Config \<Rightarrow> tls_Config option \<Rightarrow> bool" where
  "tls_as_configured cfg cr \<longleftrightarrow> (if GRPCInsecure cfg then cr = None else (\<exists>c. cr = Some c \<and> MinVersion c = 0x0303))"

lemma server_creds_Inr:
  assumes "run (server_creds cfg) E w = (Value (Inr cr), v)"
  shows "tls_as_configured cfg cr"
proof -
  have l: "returns (LoadServerCredentials cf kf) (\<lambda>r. case r of Inl _ \<Rightarrow> True | Inr c \<Rightarrow> MinVersion c = 0x0303)" for cf kf
    unfolding LoadServerCredentials_def by (rule returns_tryE_any) simp_all
  have "returns (server_creds cfg) (\<lambda>r. case r of Inl _ \<Rightarrow> True | Inr c \<Rightarrow> tls_as_configured cfg c)"
    unfolding server_creds_def tls_as_configured_def
    by (auto intro!: returns_bind returns_mono [OF l] split: sum.splits)
  from returns_run [OF this, of E w "Inr cr"] assms show ?thesis by simp
qed

text \<open>
  From the requests \<open>m\<close> on the storage was asked for the bucket at tick \<open>n\<close>, and asked to make
  it unless it said that the bucket is there; neither request failed.
\<close>

definition bucket_ready :: "env \<Rightarrow> nat \<Rightarrow> string \<Rightarrow> minio_req list \<Rightarrow> minio_req list \<Rightarrow> bool" where
  "bucket_ready E n b m m' \<longleftrightarrow>
     (minioReply E n (BucketExists b) = Inr ''true'' \<and> m' = m @ [BucketExists b]) \<or>
     (\<exists>s t. minioReply E n (BucketExists b) = Inr s \<and> minioReply E (Suc n) (MakeBucket b) = Inr t \<and>
        m' = m @ [BucketExists b, MakeBucket b])"

lemma EnsureBucket_Inr:
  "run (EnsureBucket c) E w = (Value (Inr x), v) \<Longrightarrow> bucket_ready E (tick w) (bucket c) (minio w) (minio v)"
  by (auto simp: EnsureBucket_def run_simps minio_call_def bucket_ready_def wrap_err_def split: sum.splits if_splits)

lemma NewClient_Inr:
  "run (minio_NewClient cfg) E w = (Value (Inr c), v) \<Longrightarrow> c = \<lparr>bucket = MinioBucket cfg, presignTTL = PresignTTL cfg\<rparr>"
  unfolding minio_NewClient_def by (drule run_tryE_Inr) auto

lemma NewCache_Value: "run (NewCache cfg) E w = (Value c, v) \<Longrightarrow> c = \<lparr>ttl = CacheTTL cfg\<rparr>"
  unfolding NewCache_def discard_def by (drule run_bind_Value) auto

lemma new_server_Value:
  "run (new_server F cfg svc cr) E w = (Value a, v) \<Longrightarrow>
   a = \<lparr>app_cfg = cfg, grpcServer = \<lparr>Creds = cr, chain_auth = cfg_auth cfg, chain_limiter = cfg_limiter F cfg,
     registered = svc, reflection = GRPCEnableReflection cfg\<rparr>, metricsAddr = '':'' @ int_to_string (MetricsPort cfg)\<rparr>"
  unfolding new_server_def discard_def by (auto dest!: run_bind_Value)

text \<open>What a successful start has gone through.\<close>

lemma New_Inr:
  assumes "run (New F cfg) E w = (Value (Inr a), v)"
  shows "\<exists>w1 w2. db w1 = db w \<and> run (RunMigrations migrationFS) E w1 = (Value (Inr ()), w2) \<and> db v = db w2 \<and>
    (\<exists>n. bucket_ready E n (MinioBucket cfg) (minio w) (minio v)) \<and> app_cfg a = cfg \<and>
    registered (grpcServer a) = cfg_service cfg \<and> chain_auth (grpcServer a) = cfg_auth cfg \<and>
    chain_limiter (grpcServer a) = cfg_limiter F cfg \<and> tls_as_configured cfg (Creds (grpcServer a))"
  using assms unfolding New_def discard_def Let_def
  apply (drule_tac run_tryE_Inr, elim exE conjE)
  apply (drule run_or_close, elim exE conjE)
  apply (drule run_or_close, elim exE conjE)
  apply (drule run_or_close, elim exE conjE)
  apply (drule run_bind_Value, elim exE conjE)
  apply (drule run_or_close, elim exE conjE)
  apply (drule run_bind_Value, elim exE conjE)
  apply (drule run_or_close, elim exE conjE)
  apply (drule run_bind_Value, elim exE conjE)
  apply (frule NewClient_Inr, frule NewCache_Value, frule EnsureBucket_Inr, frule server_creds_Inr, frule new_server_Value)
  apply (frule kept [OF start_keeps(1)], frule kept [OF start_keeps(2)])
  apply (frule kept [OF start_keeps(3)], frule kept [OF start_keeps(4)])
  apply (frule kept [OF EnsureBucket_db], frule kept [OF RunMigrations_minio])
  apply (frule kept [OF start_keeps(5)], frule kept [OF start_keeps(6)])
  apply (frule kept [OF start_keeps(7)], frule kept [OF start_keeps(8)])
  apply (frule kept [OF start_keeps(9)], frule kept [OF start_keeps(10)])
  apply (frule kept [OF start_keeps(11)], frule kept [OF start_keeps(12)])
  apply (frule kept [OF start_keeps(13)], frule kept [OF start_keeps(14)])
  apply (auto simp: cfg_service_def)
  apply metis
  done

subsection \<open>A start with every server up succeeds\<close>

fun startup_call :: "sys_call \<Rightarrow> bool" where
  "startup_call (PgxParseConfig dsn) = True"
| "startup_call (PgxNewPool dsn) = True"
| "startup_call PgxPing = True"
| "startup_call (MinioNew ep ak sk ssl) = True"
| "startup_call RedisPing = True"
| "startup_call (LoadX509KeyPair c k) = True"
| "startup_call q = False"

definition servers_up :: "env \<Rightarrow> bool" where
  "servers_up E \<longleftrightarrow> pg_calm E \<and> (\<forall>ds s. pgRefuses (pg E) ds s = None) \<and> (\<forall>n q. \<not> isl (minioReply E n q)) \<and>
     (\<forall>n q. startup_call q \<longrightarrow> \<not> isl (sysReply E n q))"

lemma servers_up_sys:
  assumes "servers_up E" and "startup_call q"
  shows "\<exists>s v. run (sys q) E w = (Value (Inr s), v)"
proof -
  have "\<not> isl (sysReply E (tick w) q)" using assms by (simp add: servers_up_def)
  then obtain s where "sysReply E (tick w) q = Inr s" by (metis sum.collapse(2))
  then show ?thesis by (simp add: run_sys)
qed

lemma servers_up_minio:
  assumes "servers_up E"
  shows "\<exists>s v. run (minio_call q) E w = (Value (Inr s), v)"
proof -
  have "\<not> isl (minioReply E (tick w) q)" using assms by (simp add: servers_up_def)
  then obtain s where "minioReply E (tick w) q = Inr s" by (metis sum.collapse(2))
  then show ?thesis by (simp add: minio_call_def run_atomic)
qed

text \<open>\<open>fine p E\<close>: from every world, \<open>p\<close> returns without an error.\<close>

definition fine :: "(err + 'a) prog \<Rightarrow> env \<Rightarrow> bool" where
  "fine p E \<longleftrightarrow> (\<forall>w. \<exists>x v. run p E w = (Value (Inr x), v))"

lemma fine_Return: "fine (Return (Inr x)) E"
  by (simp add: fine_def)

lemma fine_bind:
  assumes "fine p E" and "\<And>x. fine (k (Inr x)) E"
  shows "fine (bindP p k) E"
  unfolding fine_def
proof
  fix w
  obtain x v where "run p E w = (Value (Inr x), v)" using assms(1) unfolding fine_def by blast
  moreover obtain y u where "run (k (Inr x)) E v = (Value (Inr y), u)" using assms(2) unfolding fine_def by blast
  ultimately show "\<exists>y u. run (bindP p k) E w = (Value (Inr y), u)" by (simp add: run_bind)
qed

lemma fine_tryE: "fine p E \<Longrightarrow> (\<And>x. fine (k x) E) \<Longrightarrow> fine (tryE p k) E"
  unfolding tryE_def by (rule fine_bind) simp_all

lemma fine_wrapE: "fine p E \<Longrightarrow> fine (wrapE msg p) E"
  unfolding wrapE_def by (rule fine_bind) (simp_all add: wrap_err_def fine_Return)

lemma fine_after: "panic_free p \<Longrightarrow> (\<And>x. fine (k x) E) \<Longrightarrow> fine (bindP p k) E"
proof -
  assume a: "panic_free p" "\<And>x. fine (k x) E"
  have "\<exists>y u. run (bindP p k) E w = (Value (Inr y), u)" for w
  proof -
    obtain x v where "run p E w = (Value x, v)" using panic_free_run [OF a(1), of E w] by (metis prod.collapse)
    then show ?thesis using a(2) by (simp add: run_bind fine_def)
  qed
  then show ?thesis by (simp add: fine_def)
qed

lemma fine_discard: "panic_free p \<Longrightarrow> fine q E \<Longrightarrow> fine (discard p q) E"
  unfolding discard_def by (rule fine_after)

lemmas fine_rules = fine_Return fine_tryE fine_wrapE fine_bind

lemma fine_sys: "servers_up E \<Longrightarrow> startup_call q \<Longrightarrow> fine (sys q) E"
  unfolding fine_def using servers_up_sys by blast

lemma fine_minio: "servers_up E \<Longrightarrow> fine (minio_call q) E"
  unfolding fine_def using servers_up_minio by blast

lemma fine_parts:
  assumes "servers_up E"
  shows "fine (Connect dsn) E" and "fine (minio_NewClient cfg) E" and "fine (EnsureBucket c) E"
    and "fine (Cache_Ping ch) E" and "fine (server_creds cfg) E"
  using assms
  by (auto simp: Connect_def minio_NewClient_def EnsureBucket_def Cache_Ping_def server_creds_def wrap_err_def
      LoadServerCredentials_def intro!: fine_rules fine_sys fine_minio)

lemma fine_RunMigrations: "servers_up E \<Longrightarrow> fine (RunMigrations migrationFS) E"
proof -
  assume "servers_up E"
  then have calm: "pg_calm E" and acc: "accepts (pg E) ds ss" for ds ss
    by (induction ss arbitrary: ds) (simp_all add: servers_up_def)
  obtain es where "ReadDir migrationFS ''migrations'' = Inr es"
    using embedded_names by (auto split: sum.split_asm)
  then show ?thesis using RunMigrations_prefix calm acc unfolding fine_def by metis
qed

lemma sys_panic_free [simp]: "panic_free (sys q)"
  by (simp add: sys_def)

lemma start_panic_free:
  "panic_free (NewCache cfg)" "panic_free (NewPublisher cfg)" "panic_free (new_server F cfg s cr)"
  by (auto simp: NewCache_def NewPublisher_def new_server_def intro!: frame_intros)

lemma New_fine: "servers_up E \<Longrightarrow> fine (New F cfg) E"
  unfolding New_def Let_def
  by (auto intro!: fine_tryE [OF fine_parts(1)] fine_bind [OF fine_RunMigrations] fine_bind [OF fine_parts(2)]
     fine_bind [OF fine_parts(3)] fine_bind [OF fine_parts(4)] fine_bind [OF fine_parts(5)]
     fine_after [OF start_panic_free(1)] fine_after [OF start_panic_free(3)]
     fine_discard [OF start_panic_free(2)] fine_Return)

subsection \<open>Run beside the metrics server\<close>

text \<open>The calls of the process other than the one that the goroutine of the metrics server makes.\<close>

definition main_trace :: "App \<Rightarrow> world \<Rightarrow> (sys_call \<times> bool) list" where
  "main_trace a w = filter (\<lambda>c. fst c \<noteq> MetricsListen (metricsAddr a)) (trace w)"

lemma open_pools_main: "open_pools w = sum_list (map pool_change (main_trace a w))"
proof -
  have "sum_list (map pool_change t) = sum_list (map pool_change (filter (\<lambda>c. fst c \<noteq> MetricsListen s) t))" for t s
    by (induction t) auto
  then show ?thesis by (simp add: open_pools_def main_trace_def)
qed

lemma metrics_goroutine_frame:
  "panic_free (metrics_goroutine a)" "keeps (metrics_goroutine a) (main_trace a)"
proof -
  show "panic_free (metrics_goroutine a)"
    by (auto simp: metrics_goroutine_def emit_def split: sum.split intro!: frame_intros)
  have "keeps (sys (MetricsListen (metricsAddr a))) (main_trace a)" "keeps (emit l) (main_trace a)" for l
    by (auto simp: sys_def emit_def main_trace_def intro!: keeps_atomic)
  then show "keeps (metrics_goroutine a) (main_trace a)"
    by (auto simp: metrics_goroutine_def split: sum.split intro!: frame_intros)
qed

lemma beside_sys:
  assumes "q \<noteq> MetricsListen (metricsAddr a)"
    and "\<And>n u. main_trace a u = main_trace a w @ [(q, \<not> isl (sysReply E n q))] \<Longrightarrow>
      Q (case sysReply E n q of Inl s \<Rightarrow> Inl (External s) | Inr s \<Rightarrow> Inr s) u"
  shows "beside_rg E (main_trace a) (sys q) Q w"
  unfolding sys_def
proof (rule beside.rg_atomic)
  fix v u
  assume wv: "main_trace a v = main_trace a w"
    and vu: "main_trace a u = main_trace a ((snd (case sysReply E (tick v) q of Inl s \<Rightarrow> Inl (External s) | Inr s \<Rightarrow> Inr s,
      v\<lparr>trace := trace v @ [(q, \<not> isl (sysReply E (tick v) q))]\<rparr>))\<lparr>tick := Suc (tick v)\<rparr>)"
  have "main_trace a u = main_trace a w @ [(q, \<not> isl (sysReply E (tick v) q))]"
    using wv vu assms(1) by (simp add: main_trace_def)
  then show "Q (fst (case sysReply E (tick v) q of Inl s \<Rightarrow> Inl (External s) | Inr s \<Rightarrow> Inr s,
      v\<lparr>trace := trace v @ [(q, \<not> isl (sysReply E (tick v) q))]\<rparr>)) u"
    using assms(2) by simp
qed simp

lemma beside_emit:
  assumes "\<And>u. main_trace a u = main_trace a w \<Longrightarrow> Q () u"
  shows "beside_rg E (main_trace a) (emit l) Q w"
  unfolding emit_def by (rule beside.rg_atomic) (simp, simp only: fst_conv, rule assms, simp add: main_trace_def)

lemmas beside_rules = beside.rg_bind beside.rg_tryE beside.rg_discard beside_sys beside_emit beside.rg_Return

text \<open>The calls of \<open>Run\<close>, with the result it returns.\<close>

definition run_calls :: "App \<Rightarrow> err + unit \<Rightarrow> sys_call list \<Rightarrow> bool" where
  "run_calls a r t \<longleftrightarrow>
     (let addr = '':'' @ int_to_string (GRPCPort (app_cfg a)); up = [NetListen addr, GrpcServe, SelectDone];
          down = [SetServing False, GracefulStop, SelectStopped (ShutdownTimeout (app_cfg a))]
      in if isl r then t = [NetListen addr] \<or> t = up
         else t = up \<or> t = up @ down @ [MetricsShutdown] \<or> t = up @ down @ [GrpcStop, MetricsShutdown])"

definition grpc_addr :: "Config \<Rightarrow> string" where
  "grpc_addr cfg = '':'' @ int_to_string (GRPCPort cfg)"

text \<open>What \<open>Run\<close> started in \<open>w\<close> establishes.\<close>

definition run_post :: "App \<Rightarrow> env \<Rightarrow> world \<Rightarrow> err + unit \<Rightarrow> world \<Rightarrow> bool" where
  "run_post a E w r v \<longleftrightarrow>
     (\<exists>t. map fst (main_trace a v) = map fst (main_trace a w) @ t \<and> run_calls a r t) \<and>
     open_pools v = open_pools w \<and>
     ((\<forall>n. isl (sysReply E n (NetListen (grpc_addr (app_cfg a))))) \<longrightarrow> isl r) \<and>
     ((\<forall>n. \<not> isl (sysReply E n (NetListen (grpc_addr (app_cfg a))))) \<and> (\<forall>n. sysReply E n SelectDone = Inr ''done'') \<longrightarrow>
       r = Inr ())"

lemma beside_shutdown:
  "beside_rg E (main_trace a) (shutdown a) (\<lambda>r v. r = Inr () \<and> (\<exists>t. main_trace a v = main_trace a w @ t \<and>
     (map fst t = [SetServing False, GracefulStop, SelectStopped (ShutdownTimeout (app_cfg a)), MetricsShutdown] \<or>
      map fst t = [SetServing False, GracefulStop, SelectStopped (ShutdownTimeout (app_cfg a)), GrpcStop, MetricsShutdown]))) w"
  unfolding shutdown_def by (auto intro!: beside_rules)

lemma beside_Run:
  "beside_rg E (main_trace a) (Run_grpc a) (run_post a E w) w"
proof -
  have down: "beside_rg E (main_trace a) (shutdown a) (run_post a E w) v"
    if v: "main_trace a v = main_trace a w @ [(NetListen (grpc_addr (app_cfg a)), True), (GrpcServe, b), (SelectDone, True)]"
      and n: "\<not> isl (sysReply E n (NetListen (grpc_addr (app_cfg a))))" for v b n
    by (rule beside.rg_conseq [OF beside_shutdown])
      (use v n in \<open>auto simp: run_post_def run_calls_def Let_def grpc_addr_def open_pools_main [of _ a]\<close>)
  have up: "beside_rg E (main_trace a) (discard (emit l) (discard (sys GrpcServe) (bindP (sys SelectDone) (\<lambda>r.
      case r of Inl e \<Rightarrow> Return (Inl e)
      | Inr ready \<Rightarrow> if ready = ''done'' then shutdown a else Return (Inr ()))))) (run_post a E w) v"
    if v: "main_trace a v = main_trace a w @ [(NetListen (grpc_addr (app_cfg a)), True)]"
      and n: "\<not> isl (sysReply E n (NetListen (grpc_addr (app_cfg a))))" for v l n
  proof (intro beside_rules, goal_cases)
    case (3 u n' u' m u'')
    then have t: "main_trace a u'' = main_trace a w @ [(NetListen (grpc_addr (app_cfg a)), True),
        (GrpcServe, \<not> isl (sysReply E n' GrpcServe)), (SelectDone, \<not> isl (sysReply E m SelectDone))]"
      using v by simp
    have stop: "run_post a E w r x" if "main_trace a x = main_trace a u''" "isl r \<longleftrightarrow> isl (sysReply E m SelectDone)"
      "\<not> isl r \<longrightarrow> sysReply E m SelectDone \<noteq> Inr ''done''" for r x
      using that t n by (cases r) (auto simp: run_post_def run_calls_def Let_def grpc_addr_def open_pools_main [of _ a])
    show ?case
      using down [OF _ n, of u''] t stop by (auto split: sum.split)
  qed simp_all
  have fail: "run_post a E w (Inl e) x" if "main_trace a x = main_trace a w @ [(NetListen (grpc_addr (app_cfg a)), False)]"
    "isl (sysReply E n (NetListen (grpc_addr (app_cfg a))))" for e x n
    using that by (auto simp: run_post_def run_calls_def Let_def grpc_addr_def open_pools_main [of _ a])
  show ?thesis
    unfolding Run_grpc_def Let_def wrapE_def grpc_addr_def [symmetric]
  proof (intro beside_rules, goal_cases)
    case (2 n u v)
    show ?case
    proof (cases "sysReply E n (NetListen (grpc_addr (app_cfg a)))")
      case (Inl s)
      then show ?thesis using 2 fail [of _ n] by (simp add: wrap_err_def)
    next
      case (Inr s)
      then show ?thesis using 2 up [of v n] by (simp add: wrap_err_def)
    qed
  qed simp
qed

lemma shutdown_panic_free: "panic_free (Run_grpc a)" "panic_free (App_Close a)"
  by (auto simp: Run_grpc_def shutdown_def App_Close_def Publisher_Close_def wrapE_def Let_def emit_def sys_def
      split: sum.split intro!: frame_intros)

lemma run_Run:
  "\<exists>r bg v. run (App_Run a) E w = (Value (r, bg), v) \<and> run_post a E w r v \<and> panic_free bg \<and> keeps bg (main_trace a)"
  unfolding App_Run_def by (rule run_goP [OF metrics_goroutine_frame shutdown_panic_free(1) beside_Run])

lemma run_Close:
  assumes "panic_free bg" and "keeps bg (main_trace a)"
  shows "\<exists>x v. run (goP bg (App_Close a)) E w = (Value x, v) \<and> open_pools v = open_pools w - 1"
proof -
  have "beside_rg E (main_trace a) (App_Close a) (\<lambda>_ v. open_pools v = open_pools w - 1) w"
    unfolding App_Close_def Publisher_Close_def
    by (auto intro!: beside_rules simp: open_pools_main [of _ a])
  from run_goP [OF assms shutdown_panic_free(2) this] show ?thesis by blast
qed

lemma run_exit_log:
  assumes "panic_free bg" and "keeps bg (main_trace a)"
  shows "\<exists>x v. run (goP bg (emit l)) E w = (Value x, v) \<and> open_pools v = open_pools w"
proof -
  have "beside_rg E (main_trace a) (emit l) (\<lambda>_ v. open_pools v = open_pools w) w"
    by (rule beside_emit) (simp add: open_pools_main [of _ a])
  moreover have "panic_free (emit l)" by (simp add: emit_def)
  ultimately show ?thesis using run_goP [OF assms] by blast
qed

subsection \<open>The process\<close>

definition serving_args :: "string list \<Rightarrow> bool" where
  "serving_args args \<longleftrightarrow> \<not> (1 < length args \<and> args ! 1 = ''health'')"

lemma New_up:
  assumes "servers_up E"
  shows "\<exists>a v. run (New F cfg) E w = (Value (Inr a), v) \<and> app_cfg a = cfg \<and> open_pools v = open_pools w + 1"
proof -
  obtain a v where n: "run (New F cfg) E w = (Value (Inr a), v)" using New_fine [OF assms] unfolding fine_def by blast
  from New_Inr [OF n] pools_run [OF pools_New n] n show ?thesis by auto
qed

text \<open>The process from the configuration on, once the service has started.\<close>

lemma main_started:
  assumes "serving_args args" and "Load F env = Inr cfg" and "run (New F cfg) E w = (Value (Inr a), v)"
    and "run (App_Run a) E v = (Value (q, bg), u)"
  shows "run (main_process F args env0 env) E w =
    (case q of Inl e \<Rightarrow> run (discard (goP bg (emit (AppLog ''run app'' [(''error'', Error e)]))) (Return 1)) E u
     | Inr _ \<Rightarrow> run (discard (goP bg (App_Close a)) (Return 0)) E u)"
  using assms by (auto simp: main_process_def serving_args_def run_bind split: sum.split)

definition demo_config :: Config where
  "demo_config = projr (Load demo_floats production_env)"

lemma demo_config: "Load demo_floats production_env = Inr demo_config"
  using production_loads by (auto simp: demo_config_def split: sum.split_asm)

lemma demo_servers_up: "servers_up demo_env"
  by (simp add: servers_up_def demo_env_def demo_engine_def pg_calm_def)

lemma Load_metrics_port:
  assumes "Load F env = Inr cfg"
  shows "getEnvInt env ''METRICS_PORT'' 9090 = Inr (MetricsPort cfg)"
proof -
  have "MetricsPort c = p7" if "Load_checked env p1 p2 p3 p4 p5 p6 p7 p8 p9 = Inr c" for c p1 p2 p3 p4 p5 p6 p7 p8 p9
    using that by (auto simp: Load_checked_def Let_def split: option.split_asm if_split_asm)
  with assms show ?thesis by (auto simp: Load_def bindE_Inr split: if_split_asm)
qed

definition probe_url :: "Config \<Rightarrow> string" where
  "probe_url cfg = ''http://127.0.0.1:'' @ int_to_string (MetricsPort cfg) @ ''/healthz''"

subsection \<open>Properties\<close>

text \<open>
  C27. Starting the service either fails and leaves no connection pool open, whatever step
  failed, or succeeds and holds exactly one; it never panics.
\<close>
theorem failed_start_leaves_no_pool:
  "\<exists>r v. run (New F cfg) E w = (Value r, v) \<and> open_pools v = open_pools w + (if isl r then 0 else 1)"
  using pools_New unfolding pools_def by blast

text \<open>
  C28. A service that has started has executed every migration in order and has its bucket: the only
  requests that the object storage got were whether the bucket exists and, unless it said so, to
  make it, and neither failed. It serves the file service that its configuration describes behind the configured authentication
  and rate limit, and speaks TLS 1.2 or later unless the configuration says insecure.
\<close>
theorem started_as_configured:
  assumes "run (New F cfg) E w = (Value (Inr a), v)"
  shows "scripts (db v) = scripts (db w) @ [TrimSpace (lines_text init_up @ [CHR 0x0A]),
       TrimSpace (lines_text multipart_up @ [CHR 0x0A])] \<and>
    files (db v) = files (db w) \<and>
    (\<exists>n. (minioReply E n (BucketExists (MinioBucket cfg)) = Inr ''true'' \<and>
          minio v = minio w @ [BucketExists (MinioBucket cfg)]) \<or>
       (\<exists>s t. minioReply E n (BucketExists (MinioBucket cfg)) = Inr s \<and>
          minioReply E (Suc n) (MakeBucket (MinioBucket cfg)) = Inr t \<and>
          minio v = minio w @ [BucketExists (MinioBucket cfg), MakeBucket (MinioBucket cfg)])) \<and>
    registered (grpcServer a) = cfg_service cfg \<and> chain_auth (grpcServer a) = cfg_auth cfg \<and>
    chain_limiter (grpcServer a) = cfg_limiter F cfg \<and> tls_as_configured cfg (Creds (grpcServer a))"
proof -
  obtain w1 w2 where m: "db w1 = db w" "run (RunMigrations migrationFS) E w1 = (Value (Inr ()), w2)" "db v = db w2"
    and rest: "\<exists>n. bucket_ready E n (MinioBucket cfg) (minio w) (minio v)" "registered (grpcServer a) = cfg_service cfg"
      "chain_auth (grpcServer a) = cfg_auth cfg" "chain_limiter (grpcServer a) = cfg_limiter F cfg"
      "tls_as_configured cfg (Creds (grpcServer a))"
    using New_Inr [OF assms] by blast
  obtain es where es: "ReadDir migrationFS ''migrations'' = Inr es"
    "migration_names es = [''001_init.sql'', ''002_multipart.sql'']"
    using embedded_names by (auto split: sum.split_asm)
  have "executed (migration_plan migrationFS (migration_names es)) w1 w2"
    using RunMigrations_prefix [OF es(1), of E w1] m(2) by auto
  then show ?thesis using m rest(2-) rest(1) [unfolded bucket_ready_def] unfolding es(2) embedded_plan executed_def by simp
qed

theorem started_as_configured_witness:
  "\<exists>a v. run (New demo_floats demo_config) demo_env demo_world = (Value (Inr a), v) \<and>
     chain_auth (grpcServer a) = cfg_auth demo_config \<and> length (scripts (db v)) = 2"
proof -
  obtain a v where n: "run (New demo_floats demo_config) demo_env demo_world = (Value (Inr a), v)"
    using New_up [OF demo_servers_up] by blast
  have "scripts (db demo_world) = []" by (simp add: demo_world_def)
  then show ?thesis using started_as_configured [OF n] n by auto
qed

text \<open>
  C29. A process that finds its servers up, can listen and is asked to stop exits with code 0 and
  has closed the connection pool it opened.
\<close>
theorem clean_exit:
  assumes "servers_up E" and "Load F env = Inr cfg" and "serving_args args"
    and "\<forall>n. \<not> isl (sysReply E n (NetListen (grpc_addr cfg)))" and "\<forall>n. sysReply E n SelectDone = Inr ''done''"
  shows "\<exists>v. run (main_process F args env0 env) E w = (Value 0, v) \<and> open_pools v = open_pools w"
proof -
  obtain a w1 where n: "run (New F cfg) E w = (Value (Inr a), w1)" "app_cfg a = cfg" "open_pools w1 = open_pools w + 1"
    using New_up [OF assms(1)] by blast
  obtain q bg w2 where r: "run (App_Run a) E w1 = (Value (q, bg), w2)" "run_post a E w1 q w2"
    and bg: "panic_free bg" "keeps bg (main_trace a)" using run_Run by blast
  have q: "q = Inr ()" "open_pools w2 = open_pools w1" using r(2) assms(4,5) n(2) by (auto simp: run_post_def)
  obtain x w3 where c: "run (goP bg (App_Close a)) E w2 = (Value x, w3)" "open_pools w3 = open_pools w2 - 1"
    using run_Close [OF bg] by blast
  show ?thesis
    using main_started [OF assms(3,2) n(1) r(1)] c n(3) q by (simp add: run_discard)
qed

definition cancelled_env :: env where
  "cancelled_env = demo_env\<lparr>sysReply := (\<lambda>_ _. Inr ''done'')\<rparr>"

theorem clean_exit_witness:
  "\<exists>v. run (main_process demo_floats [''server''] (\<lambda>_. []) production_env) cancelled_env demo_world = (Value 0, v) \<and>
     open_pools v = open_pools demo_world"
  using clean_exit [of cancelled_env demo_floats production_env demo_config "[''server'']" "\<lambda>_. []" demo_world]
    demo_config demo_pg_calm
  by (simp add: cancelled_env_def servers_up_def serving_args_def demo_env_def demo_engine_def pg_calm_def)


text \<open>
  C38. When the address of the service cannot be listened on, the process exits with code 1 and
  leaves the connection pool open: \<open>os.Exit\<close> skips the deferred \<open>Close\<close>.
\<close>
theorem listen_failure_skips_close:
  assumes "servers_up E" and "Load F env = Inr cfg" and "serving_args args"
    and "\<forall>n. isl (sysReply E n (NetListen (grpc_addr cfg)))"
  shows "\<exists>v. run (main_process F args env0 env) E w = (Value 1, v) \<and> open_pools v = open_pools w + 1"
proof -
  obtain a w1 where n: "run (New F cfg) E w = (Value (Inr a), w1)" "app_cfg a = cfg" "open_pools w1 = open_pools w + 1"
    using New_up [OF assms(1)] by blast
  obtain q bg w2 where r: "run (App_Run a) E w1 = (Value (q, bg), w2)" "run_post a E w1 q w2"
    and bg: "panic_free bg" "keeps bg (main_trace a)" using run_Run by blast
  then obtain e where q: "q = Inl e" "open_pools w2 = open_pools w1"
    using assms(4) n(2) by (cases q) (auto simp: run_post_def)
  obtain x w3 where "run (goP bg (emit (AppLog ''run app'' [(''error'', Error e)]))) E w2 = (Value x, w3)"
    "open_pools w3 = open_pools w2" using run_exit_log [OF bg] by blast
  then show ?thesis
    using main_started [OF assms(3,2) n(1) r(1)] n(3) q by (simp add: run_discard)
qed

definition port_taken_env :: env where
  "port_taken_env = demo_env\<lparr>sysReply := (\<lambda>_ q. case q of NetListen _ \<Rightarrow> Inl ''address already in use'' | _ \<Rightarrow> Inr ''ok'')\<rparr>"

theorem listen_failure_skips_close_witness:
  "\<exists>v. run (main_process demo_floats [''server''] (\<lambda>_. []) production_env) port_taken_env demo_world = (Value 1, v) \<and>
     open_pools v = open_pools demo_world + 1"
proof -
  have "servers_up port_taken_env"
    using demo_pg_calm by (auto simp: port_taken_env_def servers_up_def demo_env_def demo_engine_def pg_calm_def split: sys_call.split)
  moreover have "isl (sysReply port_taken_env n (NetListen s))" for n s by (simp add: port_taken_env_def)
  ultimately show ?thesis
    using listen_failure_skips_close [of port_taken_env demo_floats production_env demo_config "[''server'']"] demo_config
    by (simp add: serving_args_def)
qed

text \<open>
  C31. The health probe asks the metrics port that the configuration of the same environment gives
  the server, once, and succeeds exactly when it is answered with status 200.
\<close>
theorem probe_asks_the_server:
  assumes "Load F env = Inr cfg" and "0 \<le> MetricsPort cfg"
  shows "map fst (trace (after (checkLive env) E w)) = map fst (trace w) @ [HttpGet (probe_url cfg)] \<and>
    (result (checkLive env) E w = Value (Inr ()) \<longleftrightarrow>
      (case sysReply E (tick w) (HttpGet (probe_url cfg)) of Inl _ \<Rightarrow> False | Inr st \<Rightarrow> take 3 st = ''200''))"
proof -
  have p: "(if env ''METRICS_PORT'' = [] then Inr 9090
       else case ParseInt (env ''METRICS_PORT'') of
              None \<Rightarrow> Inl (Wrapf ''METRICS_PORT: '' (External ''parse error'') [])
            | Some n \<Rightarrow> Inr n) = Inr (MetricsPort cfg)"
    using Load_metrics_port [OF assms(1)] by (auto simp: getEnvInt_def split: if_splits option.splits)
  show ?thesis
    unfolding checkLive_def p using assms(2)
    by (auto simp: after_def result_def run_simps run_sys probe_url_def split: sum.split)
qed

theorem probe_asks_the_server_witness:
  "result (checkLive production_env) (demo_env\<lparr>sysReply := \<lambda>_ _. Inr ''200 OK''\<rparr>) demo_world = Value (Inr ())"
proof -
  have "MetricsPort demo_config = 9090"
    using Load_metrics_port [OF demo_config] by (simp add: getEnvInt_def production_env_def)
  then show ?thesis
    using probe_asks_the_server [OF demo_config, of "demo_env\<lparr>sysReply := \<lambda>_ _. Inr ''200 OK''\<rparr>" demo_world] by simp
qed

end
