(* ===== verification/Sha256.thy ===== *)
theory Sha256
  imports Go_Strings
begin

text \<open>
  The parts of \<open>crypto/sha256\<close>, \<open>crypto/hmac\<close> and \<open>encoding/hex\<close> of Go's standard
  library that \<open>src/internal/auth/jwt.go\<close> uses. A byte is a \<open>char\<close>.
\<close>

unbundle bit_operations_syntax

subsection \<open>Package sha256\<close>

definition sha256_init :: "32 word list" where
  "sha256_init =
    [0x6A09E667, 0xBB67AE85, 0x3C6EF372, 0xA54FF53A, 0x510E527F, 0x9B05688C, 0x1F83D9AB, 0x5BE0CD19]"

definition sha256_K :: "32 word list" where
  "sha256_K =
    [0x428A2F98, 0x71374491, 0xB5C0FBCF, 0xE9B5DBA5, 0x3956C25B, 0x59F111F1, 0x923F82A4, 0xAB1C5ED5,
     0xD807AA98, 0x12835B01, 0x243185BE, 0x550C7DC3, 0x72BE5D74, 0x80DEB1FE, 0x9BDC06A7, 0xC19BF174,
     0xE49B69C1, 0xEFBE4786, 0x0FC19DC6, 0x240CA1CC, 0x2DE92C6F, 0x4A7484AA, 0x5CB0A9DC, 0x76F988DA,
     0x983E5152, 0xA831C66D, 0xB00327C8, 0xBF597FC7, 0xC6E00BF3, 0xD5A79147, 0x06CA6351, 0x14292967,
     0x27B70A85, 0x2E1B2138, 0x4D2C6DFC, 0x53380D13, 0x650A7354, 0x766A0ABB, 0x81C2C92E, 0x92722C85,
     0xA2BFE8A1, 0xA81A664B, 0xC24B8B70, 0xC76C51A3, 0xD192E819, 0xD6990624, 0xF40E3585, 0x106AA070,
     0x19A4C116, 0x1E376C08, 0x2748774C, 0x34B0BCB5, 0x391C0CB3, 0x4ED8AA4A, 0x5B9CCA4F, 0x682E6FF3,
     0x748F82EE, 0x78A5636F, 0x84C87814, 0x8CC70208, 0x90BEFFFA, 0xA4506CEB, 0xBEF9A3F7, 0xC67178F2]"

definition rotr32 :: "nat \<Rightarrow> 32 word \<Rightarrow> 32 word" where
  "rotr32 n x = drop_bit n x OR push_bit (32 - n) x"

definition byte_word :: "char \<Rightarrow> 32 word" where
  "byte_word c = word_of_nat (of_char c)"

definition word_bytes :: "32 word \<Rightarrow> string" where
  "word_bytes x = map (\<lambda>n. char_of (unat (drop_bit n x AND 0xFF))) [24, 16, 8, 0]"

fun bytes_words :: "string \<Rightarrow> 32 word list" where
  "bytes_words (a # b # c # d # s) =
     (push_bit 24 (byte_word a) OR push_bit 16 (byte_word b) OR push_bit 8 (byte_word c) OR byte_word d)
     # bytes_words s"
| "bytes_words _ = []"

text \<open>The message, a one bit, zeros and the number of bits of the message in eight bytes.\<close>

definition sha256_pad :: "string \<Rightarrow> string" where
  "sha256_pad s =
     (let n = length s; z = (119 - n mod 64) mod 64
      in s @ [CHR 0x80] @ replicate z (CHR 0x00) @
         word_bytes (word_of_nat (8 * n div 2 ^ 32)) @ word_bytes (word_of_nat (8 * n)))"

definition schedule_step :: "32 word list \<Rightarrow> 32 word list" where
  "schedule_step ws =
     (let t = length ws; x = ws ! (t - 15); y = ws ! (t - 2);
          s0 = rotr32 7 x XOR rotr32 18 x XOR drop_bit 3 x;
          s1 = rotr32 17 y XOR rotr32 19 y XOR drop_bit 10 y
      in ws @ [ws ! (t - 16) + s0 + ws ! (t - 7) + s1])"

definition sha256_schedule :: "32 word list \<Rightarrow> 32 word list" where
  "sha256_schedule ws = (schedule_step ^^ 48) ws"

fun sha256_round :: "32 word \<times> 32 word \<Rightarrow> 32 word list \<Rightarrow> 32 word list" where
  "sha256_round (k, w) [a, b, c, d, e, f, g, h] =
     (let t1 = h + (rotr32 6 e XOR rotr32 11 e XOR rotr32 25 e) + ((e AND f) XOR (NOT e AND g)) + k + w;
          t2 = (rotr32 2 a XOR rotr32 13 a XOR rotr32 22 a) + ((a AND b) XOR (a AND c) XOR (b AND c))
      in [t1 + t2, a, b, c, d + t1, e, f, g])"
| "sha256_round _ st = st"

definition sha256_block :: "32 word list \<Rightarrow> 32 word list \<Rightarrow> 32 word list" where
  "sha256_block st ws = map2 (+) st (fold sha256_round (zip sha256_K (sha256_schedule ws)) st)"

fun sha256_blocks :: "nat \<Rightarrow> 32 word list \<Rightarrow> 32 word list \<Rightarrow> 32 word list" where
  "sha256_blocks 0 ws st = st"
| "sha256_blocks (Suc n) ws st = sha256_blocks n (drop 16 ws) (sha256_block st (take 16 ws))"

definition Sum256 :: "string \<Rightarrow> string" where
  "Sum256 s =
     (let ws = bytes_words (sha256_pad s)
      in concat (map word_bytes (sha256_blocks (length ws div 16) ws sha256_init)))"

subsection \<open>Package hmac\<close>

definition xor_byte :: "nat \<Rightarrow> char \<Rightarrow> char" where
  "xor_byte n c = char_of (n XOR of_char c)"

definition hmac_sha256 :: "string \<Rightarrow> string \<Rightarrow> string" where
  "hmac_sha256 key message =
     (let k0 = (if 64 < length key then Sum256 key else key);
          k = k0 @ replicate (64 - length k0) (CHR 0x00)
      in Sum256 (map (xor_byte 0x5C) k @ Sum256 (map (xor_byte 0x36) k @ message)))"

subsection \<open>Package hex\<close>

definition hex_digit :: "nat \<Rightarrow> char" where
  "hex_digit n = (if n < 10 then char_of (48 + n) else char_of (87 + n))"

definition hex_value :: "char \<Rightarrow> nat option" where
  "hex_value c =
     (let n = (of_char c :: nat)
      in if 48 \<le> n \<and> n \<le> 57 then Some (n - 48)
         else if 97 \<le> n \<and> n \<le> 102 then Some (n - 87)
         else if 65 \<le> n \<and> n \<le> 70 then Some (n - 55)
         else None)"

definition hex_EncodeToString :: "string \<Rightarrow> string" where
  "hex_EncodeToString s = concat (map (\<lambda>c. [hex_digit (of_char c div 16), hex_digit (of_char c mod 16)]) s)"

fun hex_DecodeString :: "string \<Rightarrow> string option" where
  "hex_DecodeString [] = Some []"
| "hex_DecodeString [c] = None"
| "hex_DecodeString (c # d # s) =
     (case (hex_value c, hex_value d, hex_DecodeString s) of
        (Some a, Some b, Some t) \<Rightarrow> Some (char_of (16 * a + b) # t)
      | _ \<Rightarrow> None)"

subsection \<open>Hexadecimal digits\<close>

lemma of_char_hex_digit: "n < 16 \<Longrightarrow> hex_value (hex_digit n) = Some n"
  by (auto simp: hex_value_def hex_digit_def Let_def)

lemma hex_roundtrip: "hex_DecodeString (hex_EncodeToString s) = Some s"
proof (induction s)
  case (Cons c s)
  have "(of_char c :: nat) < 256" by simp
  then have "(of_char c :: nat) div 16 < 16" by (simp add: less_mult_imp_div_less)
  then show ?case using Cons by (simp add: hex_EncodeToString_def of_char_hex_digit)
qed (simp add: hex_EncodeToString_def)

lemma hex_value_range: "hex_value c = Some n \<Longrightarrow> n < 16"
  by (auto simp: hex_value_def Let_def split: if_splits)

lemma hex_value_lower:
  assumes "hex_value c = Some n"
  shows "hex_digit n = lower_char c"
proof -
  have "char_of (of_char c :: nat) = c" by simp
  with assms show ?thesis
    by (auto simp: hex_value_def hex_digit_def lower_char_def Let_def split: if_splits)
qed

lemma hex_value_lower_char [simp]: "hex_value (lower_char c) = hex_value c"
  by (auto simp: hex_value_def lower_char_def Let_def)

lemma hex_encode_decode: "hex_DecodeString t = Some s \<Longrightarrow> hex_EncodeToString s = ToLower t"
proof (induction t arbitrary: s rule: hex_DecodeString.induct)
  case (3 c d t)
  then obtain a b u where ab: "hex_value c = Some a" "hex_value d = Some b" "hex_DecodeString t = Some u"
    and s: "s = char_of (16 * a + b) # u" by (auto split: option.splits)
  have "a < 16" "b < 16" using ab by (auto dest: hex_value_range)
  then have "(of_char (char_of (16 * a + b) :: char) :: nat) = 16 * a + b" by simp
  then show ?case
    using 3(1) [OF ab(3)] ab \<open>b < 16\<close> unfolding s
    by (simp add: hex_EncodeToString_def ToLower_def hex_value_lower)
qed (simp_all add: hex_EncodeToString_def ToLower_def)

lemma decode_iff: "hex_DecodeString t = Some s \<longleftrightarrow> hex_EncodeToString s = ToLower t"
proof
  assume "hex_EncodeToString s = ToLower t"
  moreover have "hex_DecodeString (ToLower t) = hex_DecodeString t"
    by (induction t rule: hex_DecodeString.induct) (simp_all add: ToLower_def hex_value_lower_char)
  ultimately show "hex_DecodeString t = Some s" using hex_roundtrip [of s] by simp
qed (rule hex_encode_decode)

subsection \<open>Lengths\<close>

lemma length_sha256_round: "length st = 8 \<Longrightarrow> length (sha256_round kw st) = 8"
  by (cases "(kw, st)" rule: sha256_round.cases) (simp_all add: Let_def)

lemma length_sha256_blocks: "length st = 8 \<Longrightarrow> length (sha256_blocks n ws st) = 8"
proof (induction n arbitrary: ws st)
  case (Suc n)
  have "length (fold sha256_round kws st) = 8" for kws
    using Suc.prems by (induction kws arbitrary: st) (simp_all add: length_sha256_round)
  then show ?case using Suc by (simp add: sha256_block_def)
qed simp

lemma length_concat_word_bytes: "length (concat (map word_bytes ws)) = 4 * length ws"
  by (induction ws) (simp_all add: word_bytes_def)

lemma length_Sum256 [simp]: "length (Sum256 s) = 32"
  by (simp add: Sum256_def Let_def length_concat_word_bytes length_sha256_blocks sha256_init_def)

lemma length_hex [simp]: "length (hex_EncodeToString s) = 2 * length s"
  by (induction s) (simp_all add: hex_EncodeToString_def)

end
