(* ===== verification/Tokens.thy ===== *)
theory Tokens
  imports Example_Deployment Sha256
begin

text \<open>
  \<open>src/internal/auth/jwt.go\<close>: the helpers for development tokens and for message
  authentication codes. The JWT library is a parameter.
\<close>

subsection \<open>The helpers\<close>

record Claims =
  ClaimOwnerID :: string
  Subject :: string
  ClaimIssuer :: string
  ClaimAudience :: "string list"
  IssuedAt :: time
  ExpiresAt :: time

text \<open>
  What is used of \<open>github.com/golang-jwt/jwt\<close>: the numeric date of an instant, and the
  token with given claims signed with \<open>HS256\<close> under a key.
\<close>

record jwt_lib =
  NewNumericDate :: "time \<Rightarrow> time"
  SignedString :: "Claims \<Rightarrow> string \<Rightarrow> err + string"

definition GenerateDevToken ::
  "jwt_lib \<Rightarrow> string \<Rightarrow> string \<Rightarrow> string \<Rightarrow> string \<Rightarrow> duration \<Rightarrow> (err + string) prog" where
  "GenerateDevToken J secret issuer audience ownerID lifetime =
     (if secret = [] then Return (Inl (NewError ''secret is required''))
      else bindP time_Now (\<lambda>now.
        Return (SignedString J \<lparr>ClaimOwnerID = ownerID, Subject = ownerID, ClaimIssuer = issuer,
          ClaimAudience = [audience], IssuedAt = NewNumericDate J now,
          ExpiresAt = NewNumericDate J (now + lifetime)\<rparr> secret)))"

definition DevSecretFromString :: "string \<Rightarrow> string" where
  "DevSecretFromString s = (if s \<noteq> [] then s else hex_EncodeToString (Sum256 ''garchive-dev-secret''))"

definition ValidateHMAC :: "string \<Rightarrow> string \<Rightarrow> string \<Rightarrow> bool" where
  "ValidateHMAC secret message signature =
     (case hex_DecodeString signature of
        None \<Rightarrow> False
      | Some got \<Rightarrow> hmac_sha256 secret message = got)"

subsection \<open>A bearer token in the metadata\<close>

definition printable :: "char \<Rightarrow> bool" where
  "printable c \<longleftrightarrow> 0x21 \<le> (of_char c :: nat) \<and> (of_char c :: nat) < 0x7F"

lemma printable_no_space:
  assumes "p \<in> set white_space" and "printable c"
  shows "hd p \<noteq> c" and "last p \<noteq> c"
  using assms unfolding white_space_def by (auto simp: printable_def)

lemma HasPrefix_hd: "p \<noteq> [] \<Longrightarrow> HasPrefix s p \<Longrightarrow> s \<noteq> [] \<and> hd p = hd s"
  by (auto simp: HasPrefix_iff)

lemma TrimSpace_printable:
  assumes "s \<noteq> []" and "printable (hd s)" and "printable (last s)"
  shows "TrimSpace s = s"
proof -
  have "\<not> HasPrefix s p" if "p \<in> set white_space" for p
    using HasPrefix_hd [of p s] white_space_nonempty [OF that] printable_no_space(1) [OF that assms(2)] by blast
  then have l: "TrimLeftSpace s = s" unfolding TrimLeftSpace_def by (intro strip_prefixes_id)
  have "\<not> HasPrefix (rev s) (rev p)" if "p \<in> set white_space" for p
    using HasPrefix_hd [of "rev p" "rev s"] white_space_nonempty [OF that] printable_no_space(2) [OF that assms(3)]
    by (auto simp: hd_rev)
  then have "strip_prefixes (map rev white_space) (rev s) = rev s" by (intro strip_prefixes_id) auto
  then show ?thesis by (simp add: TrimSpace_def TrimRightSpace_def l)
qed

lemma lower_B: "lower_char (CHR ''B'') = CHR ''b''"
  by code_simp

lemma bearerToken_Bearer:
  assumes "tok \<noteq> []" and "\<forall>c \<in> set tok. printable c"
  shows "bearerToken [''Bearer '' @ tok] = Some tok"
proof -
  have t: "TrimSpace tok = tok" using assms by (intro TrimSpace_printable) auto
  have "TrimSpace (''Bearer '' @ tok) = ''Bearer '' @ tok"
    using assms by (intro TrimSpace_printable) (auto simp: printable_def)
  moreover have "HasPrefix (ToLower (''Bearer '' @ tok)) ''bearer ''"
    using lower_B by (simp add: HasPrefix_def ToLower_def) (simp add: lower_char_def)
  moreover have "slice_from (''Bearer '' @ tok) 7 = Some tok" by (simp add: slice_from_def)
  ultimately show ?thesis using t by (simp del: append.simps(2))
qed

definition ascii :: "string \<Rightarrow> bool" where
  "ascii s \<longleftrightarrow> (\<forall>c \<in> set s. (of_char c :: nat) < 128)"

text \<open>
  What is relied on of the JWT library. A numeric date is an instant truncated to seconds. Claims
  that JSON carries exactly are those whose texts are ASCII, with audiences that are not empty,
  and whose expiry is a whole number of seconds that a \<open>float64\<close> holds exactly. A signed token
  with such claims is a non-empty text of printable ASCII, and parsing it with the key it was
  signed with, its issuer and one of its audiences gives back its owner and its subject before it
  expires and fails from then on.
\<close>

definition plain_claims :: "Claims \<Rightarrow> bool" where
  "plain_claims c \<longleftrightarrow> ascii (ClaimOwnerID c) \<and> ascii (Subject c) \<and> ascii (ClaimIssuer c) \<and>
     (\<forall>a \<in> set (ClaimAudience c). a \<noteq> [] \<and> ascii a) \<and>
     ExpiresAt c mod 1000000000 = 0 \<and> 0 < ExpiresAt c \<and> ExpiresAt c < 2 ^ 53 * 1000000000"

definition jwt_lib_ok :: "jwt_lib \<Rightarrow> env \<Rightarrow> bool" where
  "jwt_lib_ok J E \<longleftrightarrow> (\<forall>t. NewNumericDate J t = t - t mod 1000000000) \<and>
     (\<forall>claims key tok. SignedString J claims key = Inr tok \<and> plain_claims claims \<longrightarrow>
     tok \<noteq> [] \<and> (\<forall>c \<in> set tok. printable c) \<and>
     (\<forall>n kf aud. kf ''HS256'' = Inr key \<and> aud \<in> set (ClaimAudience claims) \<longrightarrow>
        jwtParse E n tok kf (ClaimIssuer claims) aud =
          (if clock E n < ExpiresAt claims then Some (ClaimOwnerID claims, Subject claims) else None)))"

definition auth_metadata :: "rpc_context \<Rightarrow> string \<Rightarrow> bool" where
  "auth_metadata ctx tok \<longleftrightarrow>
     (case ctxMetadata ctx of None \<Rightarrow> False | Some md \<Rightarrow> md ''authorization'' = [''Bearer '' @ tok])"

lemma run_extractOwner_bearer:
  assumes "auth_metadata ctx tok" and "tok \<noteq> []" and "\<forall>c \<in> set tok. printable c"
    and "jwtParse E (tick u) tok (keyFor cfg) (Issuer cfg) (Audience cfg) = p"
  shows "run (extractOwnerFromMetadata ctx cfg) E u =
    (Value (case p of None \<Rightarrow> Inl (Unauthenticated, ''invalid token'')
      | Some cl \<Rightarrow> if claims_owner cl = [] then Inl (Unauthenticated, ''token missing owner identity'')
                   else Inr (claims_owner cl)), u\<lparr>tick := Suc (tick u)\<rparr>)"
proof -
  obtain md where md: "ctxMetadata ctx = Some md" "md ''authorization'' = [''Bearer '' @ tok]"
    using assms(1) by (auto simp: auth_metadata_def split: option.splits)
  show ?thesis
    unfolding extractOwnerFromMetadata_def md option.case bearerToken_Bearer [OF assms(2,3)] boundedP_def Let_def
    using assms(2,4) by (simp add: run_simps jwt_ParseWithClaims_def split: option.split)
qed

subsection \<open>Properties\<close>

text \<open>
  C24. A development token opens the service for the owner it was generated for, and only until it
  expires: when it was made with the secret, issuer and audience of the server, a request that
  carries it goes on to the next handler as that owner until the second in which its lifetime
  ends begins, and is refused as unauthenticated from then on. The handlers resolve the owner of
  such a request to that owner, and refuse another one that the request names.
\<close>
theorem dev_token_authenticates:
  assumes "jwt_lib_ok J E" and "ownerID \<noteq> []" and "ascii ownerID" and "ascii (Issuer cfg)"
    and "Audience cfg \<noteq> []" and "ascii (Audience cfg)"
    and "run (GenerateDevToken J (HMACSecret cfg) (Issuer cfg) (Audience cfg) ownerID lifetime) E w = (Value (Inr tok), v)"
    and "expiry = (clock E (tick w) + lifetime) - (clock E (tick w) + lifetime) mod 1000000000"
    and "0 < expiry" and "expiry < 2 ^ 53 * 1000000000"
    and "auth_metadata ctx tok" and "Enabled cfg" and "\<not> isPublicMethod m"
  shows "(clock E (tick u) < expiry \<longrightarrow>
      run (AuthInterceptor cfg m h ctx) E u = run (h (WithOwnerID ctx ownerID)) E (u\<lparr>tick := Suc (tick u)\<rparr>)) \<and>
    (expiry \<le> clock E (tick u) \<longrightarrow>
      result (AuthInterceptor cfg m h ctx) E u = Value (Inl (Unauthenticated, ''invalid token''))) \<and>
    ResolveOwnerID (WithOwnerID ctx ownerID) req =
      (if req \<in> {[], ownerID} then Inr ownerID else Inl (NewError ''owner_id mismatch''))"
proof -
  let ?claims = "\<lparr>ClaimOwnerID = ownerID, Subject = ownerID, ClaimIssuer = Issuer cfg, ClaimAudience = [Audience cfg],
    IssuedAt = NewNumericDate J (clock E (tick w)), ExpiresAt = expiry\<rparr>"
  have "NewNumericDate J (clock E (tick w) + lifetime) = expiry"
    using assms(1,8) by (simp add: jwt_lib_ok_def)
  then have sig: "SignedString J ?claims (HMACSecret cfg) = Inr tok"
    using assms(7) by (auto simp: GenerateDevToken_def run_simps time_Now_def split: if_splits)
  have plain: "plain_claims ?claims"
    using assms(3-6,8-10) by (simp add: plain_claims_def mod_diff_left_eq)
  have tok: "tok \<noteq> []" "\<forall>c \<in> set tok. printable c"
    and parse: "jwtParse E (tick u) tok (keyFor cfg) (Issuer cfg) (Audience cfg) =
      (if clock E (tick u) < expiry then Some (ownerID, ownerID) else None)"
    using assms(1) sig plain unfolding jwt_lib_ok_def by (force simp: keyFor_def)+
  note ext = run_extractOwner_bearer [OF assms(11) tok parse]
  have "run (AuthInterceptor cfg m h ctx) E u = run (h (WithOwnerID ctx ownerID)) E (u\<lparr>tick := Suc (tick u)\<rparr>)"
    if "clock E (tick u) < expiry"
    using that assms(2,12,13) by (simp add: AuthInterceptor_def run_tryE ext claims_owner_def)
  moreover have "result (AuthInterceptor cfg m h ctx) E u = Value (Inl (Unauthenticated, ''invalid token''))"
    if "expiry \<le> clock E (tick u)"
    using that assms(12,13) by (simp add: result_def AuthInterceptor_def run_tryE ext)
  moreover have "ResolveOwnerID (WithOwnerID ctx ownerID) req =
      (if req \<in> {[], ownerID} then Inr ownerID else Inl (NewError ''owner_id mismatch''))"
    using assms(2) by (auto simp: ResolveOwnerID_def WithOwnerID_def OwnerIDFromContext_def)
  ultimately show ?thesis by blast
qed

text \<open>A library that writes the expiry in unary between the key and the owner.\<close>

definition demo_jwt :: jwt_lib where
  "demo_jwt = \<lparr>NewNumericDate = (\<lambda>t. t - t mod 1000000000),
     SignedString = (\<lambda>c key. if Subject c = ClaimOwnerID c \<and> list_all printable (key @ Subject c)
       then Inr (''HS256:'' @ key @ replicate (nat (ExpiresAt c div 1000000000)) (CHR ''+'') @ ''.'' @ Subject c)
       else Inl (External ''not encodable''))\<rparr>"

definition demo_parse :: "time \<Rightarrow> string \<Rightarrow> (string \<times> string) option" where
  "demo_parse now rest =
     (let k = length (takeWhile (\<lambda>c. c = CHR ''+'') rest); sub = drop (Suc k) rest
      in if now < int k * 1000000000 then Some (sub, sub) else None)"

definition jwt_env :: env where
  "jwt_env = demo_env\<lparr>jwtParse := (\<lambda>n token kf iss aud. case kf ''HS256'' of Inl _ \<Rightarrow> None
     | Inr key \<Rightarrow> if HasPrefix token (''HS256:'' @ key)
         then demo_parse (clock demo_env n) (drop (6 + length key) token) else None)\<rparr>"

lemma demo_parse_eq:
  "demo_parse now (replicate k (CHR ''+'') @ ''.'' @ s) = (if now < int k * 1000000000 then Some (s, s) else None)"
proof -
  have "takeWhile (\<lambda>c. c = CHR ''+'') (replicate k (CHR ''+'') @ ''.'' @ s) = replicate k (CHR ''+'')"
    by (simp add: takeWhile_append)
  then show ?thesis by (simp add: demo_parse_def)
qed

lemma demo_jwt_ok: "jwt_lib_ok demo_jwt jwt_env"
proof -
  have key: "jwtParse jwt_env n tok kf iss aud = (if clock jwt_env n < ExpiresAt c then Some (ClaimOwnerID c, Subject c) else None) \<and>
      tok \<noteq> [] \<and> (\<forall>x \<in> set tok. printable x)"
    if sig: "SignedString demo_jwt c key = Inr tok" and p: "plain_claims c" and kf: "kf ''HS256'' = Inr key"
    for c key tok n kf iss aud
  proof -
    let ?k = "nat (ExpiresAt c div 1000000000)" and ?h = "''HS256:'' @ key"
    have k: "int ?k * 1000000000 = ExpiresAt c" using p by (auto simp: plain_claims_def)
    have t: "tok = ?h @ replicate ?k (CHR ''+'') @ ''.'' @ Subject c" and e: "Subject c = ClaimOwnerID c"
      and pr: "list_all printable (key @ Subject c)"
      using sig by (auto simp: demo_jwt_def split: if_splits)
    have "HasPrefix tok ?h" unfolding t by (simp add: HasPrefix_iff)
    moreover have "drop (6 + length key) tok = replicate ?k (CHR ''+'') @ ''.'' @ Subject c"
      unfolding t by (simp add: eval_nat_numeral)
    ultimately have "jwtParse jwt_env n tok kf iss aud = demo_parse (clock jwt_env n) (replicate ?k (CHR ''+'') @ ''.'' @ Subject c)"
      using kf by (simp add: jwt_env_def)
    moreover have "\<forall>x \<in> set ''HS256:+.''. printable x" by (simp add: printable_def)
    then have "\<forall>x \<in> set tok. printable x" using pr unfolding t by (auto simp: list_all_iff)
    ultimately show ?thesis using e unfolding demo_parse_eq k by (simp add: t)
  qed
  have "NewNumericDate demo_jwt t = t - t mod 1000000000" for t by (simp add: demo_jwt_def)
  moreover have "tok \<noteq> [] \<and> (\<forall>x \<in> set tok. printable x)"
    if "SignedString demo_jwt c key = Inr tok" "plain_claims c" for c key tok
    using key [OF that, of "\<lambda>_. Inr key"] by simp
  ultimately show ?thesis unfolding jwt_lib_ok_def using key by (intro conjI allI impI) blast+
qed

theorem dev_token_authenticates_witness:
  "run (AuthInterceptor demo_auth ''/file.v1.FileService/GetFile'' (\<lambda>ctx. Return (Inr (OwnerIDFromContext ctx)))
      (bearer_ctx ''HS256:key++.bob'')) jwt_env demo_world = (Value (Inr (''bob'', True)), demo_world\<lparr>tick := 1\<rparr>)"
proof -
  have "list_all printable (''key'' @ ''bob'')" by (simp add: printable_def)
  then have "fst (run (GenerateDevToken demo_jwt (HMACSecret demo_auth) (Issuer demo_auth) (Audience demo_auth) ''bob''
      2000000000) jwt_env demo_world) = Value (Inr ''HS256:key++.bob'')"
    by (simp add: GenerateDevToken_def run_simps time_Now_def demo_jwt_def demo_auth_def jwt_env_def demo_env_def
        demo_world_def numeral_2_eq_2)
  then obtain v where g: "run (GenerateDevToken demo_jwt (HMACSecret demo_auth) (Issuer demo_auth) (Audience demo_auth)
      ''bob'' 2000000000) jwt_env demo_world = (Value (Inr ''HS256:key++.bob''), v)" by (metis prod.collapse)
  have c: "clock jwt_env (tick demo_world) = 0" by (simp add: jwt_env_def demo_env_def demo_world_def)
  have "ascii ''bob''" "ascii (Issuer demo_auth)" "Audience demo_auth \<noteq> []" "ascii (Audience demo_auth)"
    "Enabled demo_auth" "\<not> isPublicMethod ''/file.v1.FileService/GetFile''"
    "auth_metadata (bearer_ctx ''HS256:key++.bob'') ''HS256:key++.bob''"
    by (simp_all add: ascii_def demo_auth_def isPublicMethod_def HasPrefix_def auth_metadata_def bearer_ctx_def)
  then have "run (AuthInterceptor demo_auth ''/file.v1.FileService/GetFile'' (\<lambda>ctx. Return (Inr (OwnerIDFromContext ctx)))
      (bearer_ctx ''HS256:key++.bob'')) jwt_env demo_world =
     run (Return (Inr (OwnerIDFromContext (WithOwnerID (bearer_ctx ''HS256:key++.bob'') ''bob'')))) jwt_env
       (demo_world\<lparr>tick := Suc (tick demo_world)\<rparr>)"
    using dev_token_authenticates [OF demo_jwt_ok _ _ _ _ _ g, of 2000000000 "bearer_ctx ''HS256:key++.bob''"
      "''/file.v1.FileService/GetFile''" demo_world "\<lambda>ctx. Return (Inr (OwnerIDFromContext ctx))"] c by simp
  then show ?thesis by (simp add: OwnerIDFromContext_def WithOwnerID_def demo_world_def)
qed

text \<open>
  C34. \<open>ValidateHMAC\<close> accepts exactly one signature up to the case of its letters: the
  64 hexadecimal digits of the HMAC-SHA256 of the message.
\<close>
theorem ValidateHMAC_exact:
  "(ValidateHMAC secret message signature \<longleftrightarrow>
      ToLower signature = hex_EncodeToString (hmac_sha256 secret message)) \<and>
   length (hex_EncodeToString (hmac_sha256 secret message)) = 64"
proof -
  have "ValidateHMAC secret message signature \<longleftrightarrow> hex_DecodeString signature = Some (hmac_sha256 secret message)"
    by (auto simp: ValidateHMAC_def split: option.split)
  then show ?thesis by (auto simp: decode_iff hmac_sha256_def Let_def)
qed

end
