(* ===== verification/Life_Cycle.thy ===== *)
theory Life_Cycle
  imports Postgres_Facts
begin

text \<open>
  An abstract specification of the table of files: every identifier is in one phase, and an event
  moves it on. The locale \<open>life_cycle_store\<close> states when a store implements it, and derives
  what every history of events looks like; the SQL statements of the repository are the
  interpretation.
\<close>

subsection \<open>The specification\<close>

datatype phase = Absent | Pending | Ready | Deleted

datatype event = Created (event_id: string) | Confirmed (event_id: string) | Removed (event_id: string)

inductive life_step :: "event \<Rightarrow> (string \<Rightarrow> phase) \<Rightarrow> (string \<Rightarrow> phase) \<Rightarrow> bool" where
  created: "a u = Absent \<Longrightarrow> p \<noteq> Absent \<Longrightarrow> life_step (Created u) a (a(u := p))"
| confirmed: "a u = Pending \<Longrightarrow> life_step (Confirmed u) a (a(u := Ready))"
| removed: "a u \<in> {Pending, Ready} \<Longrightarrow> life_step (Removed u) a (a(u := Deleted))"

inductive life_run :: "event list \<Rightarrow> (string \<Rightarrow> phase) \<Rightarrow> (string \<Rightarrow> phase) \<Rightarrow> bool" where
  stop: "life_run [] a a"
| step: "life_step e a b \<Longrightarrow> life_run es b c \<Longrightarrow> life_run (e # es) a c"

inductive_cases life_step_elims:
  "life_step (Created u) a b" "life_step (Confirmed u) a b" "life_step (Removed u) a b"

inductive_simps life_run_simps: "life_run [] a b" "life_run (e # es) a b"

text \<open>What can still happen to an identifier in a given phase.\<close>

primrec futures :: "phase \<Rightarrow> string \<Rightarrow> event list set" where
  "futures Deleted u = {[]}"
| "futures Ready u = {[], [Removed u]}"
| "futures Pending u = {[], [Removed u], [Confirmed u], [Confirmed u, Removed u]}"
| "futures Absent u = insert [] (Cons (Created u) ` {[], [Removed u], [Confirmed u], [Confirmed u, Removed u]})"

lemma life_run_futures:
  "life_run es a b \<Longrightarrow> filter (\<lambda>e. event_id e = u) es \<in> futures (a u) u"
proof (induction rule: life_run.induct)
  case (stop a)
  then show ?case by (cases "a u") simp_all
next
  case (step e a b es c)
  from step.hyps(1) step.IH show ?case
  proof (cases rule: life_step.cases)
    case (created v p)
    then show ?thesis using step.IH by (cases p) auto
  qed auto
qed

subsection \<open>Stores that implement it\<close>

text \<open>The events of a sequence of commands, in order.\<close>

primrec exec_all :: "('c \<Rightarrow> 's \<Rightarrow> event option \<times> 's) \<Rightarrow> 'c list \<Rightarrow> 's \<Rightarrow> event list \<times> 's" where
  "exec_all exec [] s = ([], s)"
| "exec_all exec (c # cs) s =
     (case exec c s of (e, s') \<Rightarrow> case exec_all exec cs s' of (es, s'') \<Rightarrow>
        ((case e of None \<Rightarrow> es | Some x \<Rightarrow> x # es), s''))"

locale life_cycle_store =
  fixes inv :: "'s \<Rightarrow> bool" and phase :: "'s \<Rightarrow> string \<Rightarrow> phase"
    and exec :: "'c \<Rightarrow> 's \<Rightarrow> event option \<times> 's"
  assumes inv_exec: "inv s \<Longrightarrow> inv (snd (exec c s))"
    and quiet: "inv s \<Longrightarrow> exec c s = (None, s') \<Longrightarrow> phase s' = phase s"
    and simulated: "inv s \<Longrightarrow> exec c s = (Some e, s') \<Longrightarrow> life_step e (phase s) (phase s')"
begin

lemma exec_all_refines:
  "inv s \<Longrightarrow> exec_all exec cs s = (es, s') \<Longrightarrow> life_run es (phase s) (phase s') \<and> inv s'"
proof (induction cs arbitrary: s es)
  case Nil
  then show ?case by (simp add: life_run_simps)
next
  case (Cons c cs)
  obtain e t fs where c: "exec c s = (e, t)" and cs: "exec_all exec cs t = (fs, s')"
    and es: "es = (case e of None \<Rightarrow> fs | Some x \<Rightarrow> x # fs)"
    using Cons.prems(2) by (auto split: prod.splits)
  have "inv t" using inv_exec [OF Cons.prems(1), of c] c by simp
  then have "life_run fs (phase t) (phase s') \<and> inv s'" using Cons.IH cs by blast
  moreover have "case e of None \<Rightarrow> phase t = phase s | Some x \<Rightarrow> life_step x (phase s) (phase t)"
    using c quiet [OF Cons.prems(1)] simulated [OF Cons.prems(1)] by (cases e) simp_all
  ultimately show ?case unfolding es by (cases e) (auto intro: life_run.step)
qed

lemma history:
  "inv s \<Longrightarrow> filter (\<lambda>e. event_id e = u) (fst (exec_all exec cs s)) \<in> futures (phase s u) u"
  using exec_all_refines [of s cs] life_run_futures by (metis prod.collapse)

end

subsection \<open>The statements of the repository\<close>

datatype statement =
    InsertFile FileMetadata
  | ConfirmFile string string time
  | SoftDeleteFile string time
  | UpsertPart string UploadPart
  | DeleteParts string

text \<open>The event that the answer of a statement reports to its caller.\<close>

fun exec_statement :: "pg_engine \<Rightarrow> statement \<Rightarrow> pgdb \<Rightarrow> event option \<times> pgdb" where
  "exec_statement P (InsertFile f) d =
     (case sql_insert_file P f d of
        (Inr n, d') \<Rightarrow> (map_option Created (pgUUID P (ID f)), d') | (Inl e, d') \<Rightarrow> (None, d'))"
| "exec_statement P (ConfirmFile i c t) d =
     (case sql_confirm P i c t d of
        (Inr (r # rs), d') \<Rightarrow> (Some (Confirmed (ID r)), d') | (_, d') \<Rightarrow> (None, d'))"
| "exec_statement P (SoftDeleteFile i t) d =
     (case sql_soft_delete P i t d of
        (Inr n, d') \<Rightarrow> (if n = 0 then None else map_option Removed (pgUUID P i), d') | (Inl e, d') \<Rightarrow> (None, d'))"
| "exec_statement P (UpsertPart i p) d = (None, snd (sql_upsert_part P i p d))"
| "exec_statement P (DeleteParts i) d = (None, snd (sql_delete_parts P i d))"

definition row_phase :: "FileMetadata option \<Rightarrow> phase" where
  "row_phase r =
     (case r of None \<Rightarrow> Absent
      | Some f \<Rightarrow> if Status f = FileStatusPending then Pending
                 else if Status f = FileStatusReady then Ready else Deleted)"

definition db_phase :: "pgdb \<Rightarrow> string \<Rightarrow> phase" where
  "db_phase d u = row_phase (get_row d u)"

definition statement_inv :: "pg_engine \<Rightarrow> pgdb \<Rightarrow> bool" where
  "statement_inv P d \<longleftrightarrow> engine_ok P \<and> db_wf P d"

lemma row_phase_eq [simp]: "row_phase (Some f) \<noteq> Absent" "row_phase None = Absent"
  by (simp_all add: row_phase_def)

lemma db_phase_insert:
  assumes "sql_insert_file P f d = (Inr n, d')" and "pgUUID P (ID f) = Some u"
  shows "life_step (Created u) (db_phase d) (db_phase d')"
proof -
  let ?r = "f\<lparr>ID := u, CreatedAt := pgTime P (CreatedAt f), UpdatedAt := pgTime P (UpdatedAt f)\<rparr>"
  have d': "d' = d\<lparr>files := files d @ [?r]\<rparr>" and n: "\<forall>x \<in> set (files d). ID x \<noteq> u"
    using assms by (auto simp: sql_insert_file_def Let_def split: if_splits)
  have a: "get_row d u = None" using n by (simp add: get_row_None_iff)
  have "db_phase d' = (db_phase d)(u := row_phase (Some ?r))"
    unfolding d' using a by (auto simp: db_phase_def get_row_append fun_eq_iff split: option.split)
  moreover have "db_phase d u = Absent" using a by (simp add: db_phase_def)
  ultimately show ?thesis by (simp add: life_step.created)
qed

lemma db_phase_confirm:
  assumes "db_wf P d" and "sql_confirm P i c t d = (Inr (r # rs), d')"
  shows "life_step (Confirmed (ID r)) (db_phase d) (db_phase d')"
proof -
  obtain u where rows: "r # rs = (case get_row d u of None \<Rightarrow> []
        | Some x \<Rightarrow> if Status x = FileStatusPending then [confirm_row P c t x] else [])"
    and all: "\<And>v. get_row d' v = map_option (confirmed_row P c t u) (get_row d v)"
    using sql_confirm_Inr [OF assms] by auto
  from rows obtain x where x: "get_row d u = Some x" "Status x = FileStatusPending" "r = confirm_row P c t x"
    by (auto split: option.splits if_splits)
  have "ID x = u" using x(1) by (simp add: get_row_ID)
  then have "db_phase d' = (db_phase d)(u := Ready)"
    using x all by (auto simp: db_phase_def row_phase_def fun_eq_iff confirmed_row_def confirm_row_def
        split: option.split dest: get_row_ID)
  moreover have "db_phase d u = Pending" using x by (simp add: db_phase_def row_phase_def)
  moreover have "ID r = u" using x(3) \<open>ID x = u\<close> by simp
  ultimately show ?thesis by (simp add: life_step.confirmed)
qed

lemma db_phase_soft_delete:
  assumes "db_wf P d" and "sql_soft_delete P i t d = (Inr n, d')" and "pgUUID P i = Some u"
  shows "if n = 0 then db_phase d' = db_phase d else life_step (Removed u) (db_phase d) (db_phase d')"
proof -
  have n: "n = (case get_row d u of None \<Rightarrow> 0 | Some r \<Rightarrow> if Status r \<noteq> FileStatusDeleted then 1 else 0)"
    and all: "\<And>v. get_row d' v = map_option (deleted_row P t u) (get_row d v)"
    using sql_soft_delete_Inr [OF assms(1,2)] assms(3) by auto
  show ?thesis
  proof (cases "n = 0")
    case True
    have "map_option (deleted_row P t u) (get_row d v) = get_row d v" for v
    proof (cases "get_row d v")
      case (Some a)
      then show ?thesis using n True get_row_ID [OF Some] by (auto simp: deleted_row_def split: if_splits)
    qed simp
    then show ?thesis using True by (simp add: db_phase_def [abs_def] all)
  next
    case False
    then obtain x where x: "get_row d u = Some x" "Status x \<noteq> FileStatusDeleted"
      using n by (auto split: option.splits if_splits)
    have ok: "ID x = u" "file_row_ok x" using x(1) assms(1) by (auto simp: db_wf_def dest!: get_row_ID)
    have "db_phase d' = (db_phase d)(u := Deleted)"
      using x ok(1) all by (auto simp: db_phase_def row_phase_def fun_eq_iff deleted_row_def delete_row_def
          split: option.split dest: get_row_ID)
    moreover have "db_phase d u \<in> {Pending, Ready}"
      using x ok(2) by (auto simp: db_phase_def row_phase_def file_row_ok_def)
    ultimately show ?thesis using False by (simp add: life_step.removed)
  qed
qed

lemma failed_insert: "sql_insert_file P f d = (Inl e, d') \<Longrightarrow> d' = d"
  by (auto simp: sql_insert_file_def Let_def split: option.splits if_splits)

lemma failed_confirm:
  assumes "db_wf P d" and "sql_confirm P i c t d = (r, d')" and "\<nexists>x xs. r = Inr (x # xs)"
  shows "db_phase d' = db_phase d"
proof (cases r)
  case (Inl e)
  then show ?thesis using assms(2) by (auto simp: sql_confirm_def Let_def split: option.splits if_splits)
next
  case (Inr rows)
  then obtain u where u: "rows = (case get_row d u of None \<Rightarrow> []
        | Some x \<Rightarrow> if Status x = FileStatusPending then [confirm_row P c t x] else [])"
    and all: "\<And>v. get_row d' v = map_option (confirmed_row P c t u) (get_row d v)"
    using sql_confirm_Inr [OF assms(1) assms(2) [unfolded Inr]] by auto
  have "rows = []" using assms(3) Inr by (cases rows) auto
  have "map_option (confirmed_row P c t u) (get_row d v) = get_row d v" for v
  proof (cases "get_row d v")
    case (Some a)
    then show ?thesis using u \<open>rows = []\<close> get_row_ID [OF Some] by (auto simp: confirmed_row_def split: if_splits)
  qed simp
  then show ?thesis by (simp add: db_phase_def [abs_def] all)
qed

lemma failed_soft_delete: "sql_soft_delete P i t d = (Inl e, d') \<Longrightarrow> d' = d"
  by (auto simp: sql_soft_delete_def Let_def split: option.splits)

lemma parsed_id:
  "sql_insert_file P f d = (Inr n, d') \<Longrightarrow> pgUUID P (ID f) \<noteq> None"
  "sql_soft_delete P i t d = (Inr n, d') \<Longrightarrow> pgUUID P i \<noteq> None"
  by (auto simp: sql_insert_file_def sql_soft_delete_def split: option.splits)

lemma idle_soft_delete:
  "db_wf P d \<Longrightarrow> sql_soft_delete P i t d = (Inr 0, d') \<Longrightarrow> db_phase d' = db_phase d"
  using parsed_id(2) [of P i t d 0 d'] db_phase_soft_delete [of P d i t 0 d'] by auto

lemma part_statements_phase [simp]:
  "db_phase (snd (sql_upsert_part P i p d)) = db_phase d" "db_phase (snd (sql_delete_parts P i d)) = db_phase d"
  by (auto simp: sql_upsert_part_def sql_delete_parts_def db_phase_def [abs_def] Let_def split: option.split)

lemma snd_exec_statement:
  "snd (exec_statement P (InsertFile f) d) = snd (sql_insert_file P f d)"
  "snd (exec_statement P (ConfirmFile i c t) d) = snd (sql_confirm P i c t d)"
  "snd (exec_statement P (SoftDeleteFile i t) d) = snd (sql_soft_delete P i t d)"
  by (simp_all split: prod.split sum.split list.split)

interpretation table: life_cycle_store "statement_inv P" db_phase "exec_statement P" for P
proof unfold_locales
  fix s c
  assume i: "statement_inv P s"
  then have e: "engine_ok P" and w: "db_wf P s" by (simp_all add: statement_inv_def)
  show "statement_inv P (snd (exec_statement P c s))"
    using e w by (cases c) (simp_all add: statement_inv_def snd_exec_statement db_wf_intros del: exec_statement.simps(1-3))
next
  fix s c s'
  assume i: "statement_inv P s" and x: "exec_statement P c s = (None, s')"
  then have w: "db_wf P s" by (simp add: statement_inv_def)
  show "db_phase s' = db_phase s"
    using x idle_soft_delete [OF w] failed_confirm [OF w]
    by (cases c) (auto split: prod.splits sum.splits list.splits if_splits
        dest: failed_insert failed_soft_delete parsed_id)
next
  fix s c e s'
  assume i: "statement_inv P s" and x: "exec_statement P c s = (Some e, s')"
  then have w: "db_wf P s" by (simp add: statement_inv_def)
  show "life_step e (db_phase s) (db_phase s')"
    using x db_phase_soft_delete [OF w] db_phase_confirm [OF w] db_phase_insert
    by (cases c) (auto split: prod.splits sum.splits list.splits if_splits)
qed

subsection \<open>Properties\<close>

text \<open>
  C5. The table of files implements the abstract life cycle: whatever statements the repository
  sends in whatever order, the successes it reports are a run of the specification from the
  phases before to the phases after, and the schema stays well-formed.
\<close>
theorem statements_refine_life_cycle:
  assumes "engine_ok P" and "db_wf P d" and "exec_all (exec_statement P) stmts d = (es, d')"
  shows "life_run es (db_phase d) (db_phase d') \<and> db_wf P d'"
  using table.exec_all_refines [of P d stmts es d'] assms by (simp add: statement_inv_def)

definition plain_engine :: pg_engine where
  "plain_engine = \<lparr>pgUUID = Some, pgTime = id, pgRefuses = (\<lambda>_ _. None)\<rparr>"

definition plain_file :: FileMetadata where
  "plain_file = \<lparr>ID = ''f1'', OwnerID = ''alice'', Bucket = ''files'', ObjectKey = ''alice/f1/a.txt'',
     OriginalName = ''a.txt'', ContentType = ''text/plain'', SizeBytes = 10, ChecksumSHA256 = [],
     Status = FileStatusPending, UploadMode = UploadModeSingle, UploadID = [], PartSize = 0,
     CreatedAt = 1000, UpdatedAt = 1000\<rparr>"

definition empty_db :: pgdb where
  "empty_db = \<lparr>files = [], upload_parts = [], scripts = []\<rparr>"

definition plain_statements :: "statement list" where
  "plain_statements = [InsertFile plain_file, ConfirmFile ''f1'' ''aa'' 2000, ConfirmFile ''f1'' ''bb'' 3000,
     SoftDeleteFile ''f1'' 4000, ConfirmFile ''f1'' ''cc'' 5000, SoftDeleteFile ''f1'' 6000, InsertFile plain_file]"

lemma plain_ok: "engine_ok plain_engine" "db_wf plain_engine empty_db" "statement_inv plain_engine empty_db"
  by (simp_all add: statement_inv_def engine_ok_def plain_engine_def db_wf_def empty_db_def)

lemma plain_events:
  "fst (exec_all (exec_statement plain_engine) plain_statements empty_db) = [Created ''f1'', Confirmed ''f1'', Removed ''f1'']"
  by code_simp

theorem statements_refine_life_cycle_witness:
  "\<exists>d'. life_run [Created ''f1'', Confirmed ''f1'', Removed ''f1''] (db_phase empty_db) (db_phase d')"
proof -
  obtain d' where d': "exec_all (exec_statement plain_engine) plain_statements empty_db =
      ([Created ''f1'', Confirmed ''f1'', Removed ''f1''], d')" using plain_events by (metis prod.collapse)
  show ?thesis using statements_refine_life_cycle [OF plain_ok(1,2) d'] by blast
qed

text \<open>
  C6. In any sequence of statements a file is created at most once, confirmed at most once, never
  before its creation and never after its deletion, and deleted at most once: the events of an
  identifier are what its phase at the start allows.
\<close>
theorem history_of_a_file:
  assumes "engine_ok P" and "db_wf P d"
  shows "filter (\<lambda>e. event_id e = u) (fst (exec_all (exec_statement P) stmts d)) \<in> futures (db_phase d u) u"
  using table.history [of P d u stmts] assms by (simp add: statement_inv_def)

theorem history_of_a_file_witness:
  "[Created ''f1'', Confirmed ''f1'', Removed ''f1''] \<in> futures (db_phase empty_db ''f1'') ''f1''"
  using history_of_a_file [OF plain_ok(1,2), of "''f1''" plain_statements] unfolding plain_events by simp

end
