(* ===== verification/Capacity.thy ===== *)
theory Capacity
  imports Multipart_Facts Config
begin

text \<open>
  How the limits of the configuration bound the uploads in parts: with the default or any
  reasonable size limit the number of parts is computed without overflow, without a limit it is
  not.
\<close>

lemma CreateMultipartUpload_Inr:
  assumes "run (CreateMultipartUpload s ow nm ct sz) E w = (Value (Inr res), v)"
  shows "FileSize_check sz (maxFileSizeBytes s) = None \<and> sint (multipartPartSize s) < sint sz \<and>
    SizeBytes (MpMetadata res) = sz \<and> PartSize (MpMetadata res) = multipartPartSize s \<and>
    MpTotalParts res = TotalParts (MpMetadata res)"
proof -
  let ?Q = "\<lambda>r. case r of Inl _ \<Rightarrow> True | Inr res \<Rightarrow>
    FileSize_check sz (maxFileSizeBytes s) = None \<and> sint (multipartPartSize s) < sint sz \<and>
    SizeBytes (MpMetadata res) = sz \<and> PartSize (MpMetadata res) = multipartPartSize s \<and>
    MpTotalParts res = TotalParts (MpMetadata res)"
  have "FileSize_check sz (maxFileSizeBytes s) = None"
    if "validateCreateInput ow nm ct sz (maxFileSizeBytes s) = None"
    using that by (auto simp: validateCreateInput_def CreateUploadInput_def split: if_splits option.splits)
  then have "returns (CreateMultipartUpload s ow nm ct sz) ?Q"
    unfolding CreateMultipartUpload_def Let_def
    by (auto simp: new_multipart_def split: sum.split intro!: returns_intros)
  from returns_run [OF this, of E w] assms show ?thesis by simp
qed

lemma parts_fit_limited:
  assumes "5 * 1024 * 1024 \<le> sint (PartSize f)" and "sint (PartSize f) < sint (SizeBytes f)"
    and "sint (SizeBytes f) \<le> 2 ^ 53"
  shows "parts_fit f"
proof -
  have "sint (SizeBytes f) \<le> 5 * 1024 * 1024 * (2 ^ 31 - 1)" using assms(3) by simp
  also have "\<dots> \<le> sint (PartSize f) * (2 ^ 31 - 1)" using assms(1) by simp
  finally show ?thesis using assms by (simp add: parts_fit_def)
qed

lemma two_parts:
  assumes "parts_fit f" and "sint (PartSize f) < sint (SizeBytes f)"
  shows "2 \<le> sint (TotalParts f)"
proof -
  have p: "0 < sint (PartSize f)" "0 < sint (SizeBytes f)" using assms(1) by (auto simp: parts_fit_def)
  have "sint (SizeBytes f) \<le> sint (TotalParts f) * sint (PartSize f)"
    using ceil_quot_bounds(3) [OF p] unfolding TotalParts_ceiling [OF assms(1)] .
  then have "1 * sint (PartSize f) < sint (TotalParts f) * sint (PartSize f)" using assms(2) by simp
  then have "1 < sint (TotalParts f)" using p(1) by (simp add: mult_less_cancel_right)
  then show ?thesis by simp
qed

subsection \<open>Properties\<close>

text \<open>
  C10. With a configuration that loads and limits the size of files to at most \<open>2\<^sup>5\<^sup>3\<close> bytes,
  every upload in parts that is created has at least two parts, and the number of parts it
  announces is its size divided by the part size, rounded up: neither the 64-bit sum nor the
  conversion to 32 bits overflows.
\<close>
theorem configured_uploads_fit:
  assumes "Load F env = Inr cfg" and "0 < sint (MaxFileSizeBytes cfg)" and "sint (MaxFileSizeBytes cfg) \<le> 2 ^ 53"
    and "run (CreateMultipartUpload (cfg_service cfg) ow nm ct sz) E w = (Value (Inr res), v)"
  shows "parts_fit (MpMetadata res) \<and> 2 \<le> sint (MpTotalParts res) \<and>
    sint (MpTotalParts res) =
      (sint sz + sint (MultipartPartSize cfg) - 1) div sint (MultipartPartSize cfg)"
proof -
  let ?f = "MpMetadata res"
  obtain p1 p2 p3 p4 p5 p6 p7 p8 p9 where p5: "5 * 1024 * 1024 \<le> sint p5"
    and c: "Load_checked env p1 p2 p3 p4 p5 p6 p7 p8 p9 = Inr cfg" using Load_Inr [OF assms(1)] by blast
  have ps: "5 * 1024 * 1024 \<le> sint (MultipartPartSize cfg)" using p5 Load_checked_Inr(1) [OF c] by simp
  note f = CreateMultipartUpload_Inr [OF assms(4)]
  have sz: "SizeBytes ?f = sz" "PartSize ?f = MultipartPartSize cfg" "sint (MultipartPartSize cfg) < sint sz"
    and check: "FileSize_check sz (MaxFileSizeBytes cfg) = None"
    and total: "MpTotalParts res = TotalParts ?f"
    using f by (simp_all add: cfg_service_def)
  have "sint sz \<le> 2 ^ 53" using check assms(2,3) by (simp add: FileSize_check_def split: if_splits)
  then have fit: "parts_fit ?f" using sz ps by (intro parts_fit_limited) simp_all
  have "2 \<le> sint (TotalParts ?f)" using two_parts [OF fit] sz by simp
  then show ?thesis using fit sz TotalParts_ceiling [OF fit] unfolding total by simp
qed

theorem configured_uploads_fit_witness:
  "\<exists>cfg res. Load demo_floats production_env = Inr cfg \<and>
     result (CreateMultipartUpload (cfg_service cfg) ''bob'' ''v.mp4'' ''video/mp4'' 12000000) demo_env demo_world =
       Value (Inr res) \<and> 2 \<le> sint (MpTotalParts res)"
proof -
  obtain cfg where c: "Load demo_floats production_env = Inr cfg"
    "sint (MaxFileSizeBytes cfg) = 5368709120" using production_loads by (auto split: sum.split_asm)
  have "case Load demo_floats production_env of Inl _ \<Rightarrow> False
    | Inr cfg \<Rightarrow> (case result (CreateMultipartUpload (cfg_service cfg) ''bob'' ''v.mp4'' ''video/mp4'' 12000000)
        demo_env demo_world of Value (Inr _) \<Rightarrow> True | _ \<Rightarrow> False)"
    by code_simp
  then obtain res v where r: "run (CreateMultipartUpload (cfg_service cfg) ''bob'' ''v.mp4'' ''video/mp4'' 12000000)
      demo_env demo_world = (Value (Inr res), v)"
    unfolding c(1) by (auto simp: result_def split: outcome.splits sum.splits) (metis prod.collapse)
  show ?thesis using configured_uploads_fit [OF c(1) _ _ r] c r by (auto simp: result_def)
qed



end
