(* ===== verification/Part_Records.thy ===== *)
theory Part_Records
  imports Multipart_Facts File_Facts Life_Cycle
begin

text \<open>
  The recorded parts of an upload are a map from part numbers to ETags. The locale
  \<open>part_store\<close> is what the service relies on of the table \<open>upload_parts\<close>; the upsert of
  the repository is its interpretation.
\<close>

subsection \<open>The contract of the table\<close>

locale part_store =
  fixes inv :: "'s \<Rightarrow> bool" and accepts :: "'s \<Rightarrow> string \<Rightarrow> UploadPart \<Rightarrow> bool"
    and lookup :: "'s \<Rightarrow> string \<Rightarrow> int32 \<Rightarrow> string option"
    and report :: "string \<Rightarrow> UploadPart \<Rightarrow> 's \<Rightarrow> 's" and clear :: "string \<Rightarrow> 's \<Rightarrow> 's"
  assumes inv_report: "inv s \<Longrightarrow> inv (report u p s)"
    and inv_clear: "inv s \<Longrightarrow> inv (clear u s)"
    and accepts_report: "inv s \<Longrightarrow> accepts s u p \<Longrightarrow> accepts (report v q s) u p"
    and lookup_report: "inv s \<Longrightarrow> accepts s u p \<Longrightarrow>
      lookup (report u p s) = (lookup s)(u := (lookup s u)(PartNumber p \<mapsto> ETag p))"
    and lookup_clear: "inv s \<Longrightarrow> accepts s u p \<Longrightarrow> lookup (clear u s) = (lookup s)(u := Map.empty)"
begin

text \<open>Of any reports for a file the last one for a part number wins.\<close>

lemma last_report_wins:
  assumes "inv s" and "\<forall>p \<in> set ps. accepts s u p"
  shows "lookup (fold (report u) ps s) =
    (lookup s)(u := fold (\<lambda>p m. m(PartNumber p \<mapsto> ETag p)) ps (lookup s u))"
  using assms
proof (induction ps arbitrary: s)
  case (Cons p ps)
  have "\<forall>q \<in> set ps. accepts (report u p s) u q" using Cons.prems accepts_report by simp
  then show ?case
    using Cons.IH [of "report u p s"] inv_report Cons.prems lookup_report by (simp add: fun_eq_iff)
qed simp

end

subsection \<open>The table\<close>

definition part_table :: "pgdb \<Rightarrow> string \<Rightarrow> int32 \<Rightarrow> string option" where
  "part_table d u = map_of (map (\<lambda>p. (PartNumber p, ETag p)) (parts_of d u))"

lemma distinct_parts_of:
  assumes "db_wf P d"
  shows "distinct (map PartNumber (parts_of d u))"
proof -
  let ?ps = "map pr_part (filter (\<lambda>p. pr_file_id p = u) (upload_parts d))"
  have "inj_on (\<lambda>p. PartNumber (pr_part p)) {p \<in> set (upload_parts d). pr_file_id p = u}"
    using assms unfolding db_wf_def by (auto simp: distinct_map inj_on_def)
  moreover have "distinct (upload_parts d)" using assms by (simp add: db_wf_def distinct_map)
  ultimately have "distinct (map (\<lambda>p. PartNumber (pr_part p)) (filter (\<lambda>p. pr_file_id p = u) (upload_parts d)))"
    unfolding distinct_map by simp
  then have "distinct (map PartNumber ?ps)" by (simp add: comp_def)
  then have "distinct ?ps" "inj_on PartNumber (set ?ps)" unfolding distinct_map [of PartNumber] by blast+
  then show ?thesis unfolding parts_of_def by (subst distinct_map) (simp only: set_sort distinct_sort)
qed

lemma part_table_iff:
  assumes "db_wf P d"
  shows "part_table d u n = Some e \<longleftrightarrow> (\<exists>q \<in> set (upload_parts d). part_hit u n q \<and> ETag (pr_part q) = e)"
proof -
  have "distinct (map fst (map (\<lambda>p. (PartNumber p, ETag p)) (parts_of d u)))"
    using distinct_parts_of [OF assms] by (simp add: comp_def)
  then have "part_table d u n = Some e \<longleftrightarrow> (n, e) \<in> (\<lambda>p. (PartNumber p, ETag p)) ` set (parts_of d u)"
    unfolding part_table_def by (subst map_of_eq_Some_iff) simp_all
  then show ?thesis by (auto simp: parts_of_def part_hit_def)
qed

definition accepts_part :: "pg_engine \<Rightarrow> pgdb \<Rightarrow> string \<Rightarrow> UploadPart \<Rightarrow> bool" where
  "accepts_part P d u p \<longleftrightarrow> pgUUID P u = Some u \<and> get_row d u \<noteq> None \<and>
     0 < sint (PartNumber p) \<and> text_ok (ETag p)"

lemma set_map_replace:
  "\<exists>q \<in> set qs. h q \<Longrightarrow> set (map (\<lambda>q. if h q then p else q) qs) = insert p {q \<in> set qs. \<not> h q}"
  by auto

lemma upsert_accepted:
  assumes "accepts_part P d u p"
  shows "\<exists>d'. sql_upsert_part P u p d = (Inr 1, d') \<and> files d' = files d \<and>
    set (upload_parts d') = insert \<lparr>pr_file_id = u, pr_part = p\<lparr>UploadedAt := pgTime P (UploadedAt p)\<rparr>\<rparr>
      {q \<in> set (upload_parts d). \<not> part_hit u (PartNumber p) q}"
proof -
  have "pgUUID P u = Some u" "0 < sint (PartNumber p)" "text_ok (ETag p)" "\<exists>r \<in> set (files d). ID r = u"
    using assms by (auto simp: accepts_part_def dest: get_row_ID)
  then show ?thesis
    using set_map_replace [of "upload_parts d" "part_hit u (PartNumber p)"]
    by (auto simp: sql_upsert_part_def part_row_ok_def Let_def simp del: set_map)
qed

lemma bex_replace:
  "\<not> k p \<Longrightarrow> (\<And>q. k q \<Longrightarrow> \<not> h q) \<Longrightarrow>
   (\<exists>q \<in> insert p {q \<in> X. \<not> h q}. k q \<and> Q q) \<longleftrightarrow> (\<exists>q \<in> X. k q \<and> Q q)"
  by blast

lemma part_table_upsert:
  assumes "engine_ok P" and "db_wf P d" and "accepts_part P d u p"
  shows "part_table (snd (sql_upsert_part P u p d)) =
    (part_table d)(u := (part_table d u)(PartNumber p \<mapsto> ETag p))"
proof (intro ext)
  fix v n
  obtain d' where x: "sql_upsert_part P u p d = (Inr 1, d')"
    and s: "set (upload_parts d') = insert \<lparr>pr_file_id = u, pr_part = p\<lparr>UploadedAt := pgTime P (UploadedAt p)\<rparr>\<rparr>
      {q \<in> set (upload_parts d). \<not> part_hit u (PartNumber p) q}"
    using upsert_accepted [OF assms(3)] by blast
  have d': "snd (sql_upsert_part P u p d) = d'" using x by simp
  have wf: "db_wf P d'" using db_wf_upsert_part [OF assms(1,2)] d' by metis
  show "part_table (snd (sql_upsert_part P u p d)) v n =
      ((part_table d)(u := (part_table d u)(PartNumber p \<mapsto> ETag p))) v n"
  proof (cases "v = u \<and> n = PartNumber p")
    case True
    then have "part_table d' v n = Some (ETag p)" unfolding part_table_iff [OF wf] s by (simp add: part_hit_def)
    then show ?thesis using True d' by simp
  next
    case False
    have "part_table d' v n = Some e \<longleftrightarrow> part_table d v n = Some e" for e
      unfolding part_table_iff [OF wf] part_table_iff [OF assms(2)] s
      by (rule bex_replace) (use False in \<open>auto simp: part_hit_def\<close>)
    then have "part_table d' v n = part_table d v n" by (metis not_Some_eq)
    then show ?thesis using False d' by auto
  qed
qed

lemma upsert_files [simp]: "files (snd (sql_upsert_part P i p d)) = files d"
  by (auto simp: sql_upsert_part_def Let_def split: option.split)

lemma get_row_files: "files d' = files d \<Longrightarrow> get_row d' u = get_row d u"
  by (simp add: get_row_def)

lemma part_table_clear:
  assumes "pgUUID P u = Some u"
  shows "part_table (snd (sql_delete_parts P u d)) = (part_table d)(u := Map.empty)"
proof -
  have "parts_of (snd (sql_delete_parts P u d)) x = (if x = u then [] else parts_of d x)" for x
  proof (cases "x = u")
    case False
    then have "filter (\<lambda>p. pr_file_id p \<noteq> u \<and> pr_file_id p = x) ps = filter (\<lambda>p. pr_file_id p = x) ps" for ps :: "part_row list"
      by (intro filter_cong) auto
    then show ?thesis using assms False by (simp add: parts_of_def sql_delete_parts_def conj_commute)
  qed (use assms in \<open>simp add: parts_of_def sql_delete_parts_def\<close>)
  then show ?thesis by (simp add: part_table_def fun_eq_iff)
qed

interpretation part_rows: part_store "statement_inv P" "accepts_part P" part_table
    "\<lambda>u p d. snd (sql_upsert_part P u p d)" "\<lambda>u d. snd (sql_delete_parts P u d)" for P
proof unfold_locales
  fix s u p v q
  assume "statement_inv P s" and a: "accepts_part P s u p"
  show "accepts_part P (snd (sql_upsert_part P v q s)) u p"
    using a get_row_files [OF upsert_files] by (simp add: accepts_part_def)
qed (simp_all add: statement_inv_def db_wf_intros part_table_upsert part_table_clear accepts_part_def)

subsection \<open>Reporting and listing when Postgres answers\<close>

lemma run_getPendingMultipart_calm:
  assumes "pg_calm E" and "db_wf (pg E) (db w)" and "pgUUID (pg E) i = Some u" and "get_row (db w) u = Some f"
    and "i \<noteq> []" and "ow \<noteq> []" and "OwnerID f = ow" and "Status f = FileStatusPending" and "IsMultipart f"
    and "UploadID f \<noteq> []"
  shows "run (getPendingMultipart s i ow) E w = (Value (Inr f), w\<lparr>tick := Suc (tick w)\<rparr>)"
  using assms run_GetByID_calm [OF assms(1-3)] by (simp add: getPendingMultipart_def run_simps IsOwnedBy_def)

lemma getPendingMultipart_args:
  "fst (run (getPendingMultipart s i ow) E w) = Value (Inr f) \<Longrightarrow> i \<noteq> [] \<and> ow \<noteq> []"
  by (auto simp: getPendingMultipart_def split: if_splits)

lemma ReportPartUploaded_Inr:
  assumes calm: "pg_calm E" and wf: "db_wf (pg E) (db w)"
    and run: "run (ReportPartUploaded s i ow n etag) E w = (Value (Inr part), v)"
  shows "\<exists>u f. pgUUID (pg E) i = Some u \<and> get_row (db w) u = Some f \<and> i \<noteq> [] \<and> ow \<noteq> [] \<and> OwnerID f = ow \<and>
    Status f = FileStatusPending \<and> IsMultipart f \<and> UploadID f \<noteq> [] \<and> PartNumber part = n \<and>
    ETag part = normalizeETag etag \<and> accepts_part (pg E) (db w) u part \<and>
    db v = snd (sql_upsert_part (pg E) u part (db w))"
proof -
  obtain f w1 where g: "run (getPendingMultipart s i ow) E w = (Value (Inr f), w1)"
    and rest: "run (guardE (validatePartNumber n (TotalParts f)) (
       let etag = normalizeETag etag in
       if etag = [] then Return (Inl ErrInvalidInput)
       else bindP time_Now (\<lambda>now.
         let part = \<lparr>PartNumber = n, ETag = etag, UploadedAt = now\<rparr> in
         tryE (SaveUploadPart (ID f) part) (\<lambda>_. Return (Inr part))))) E w1 = (Value (Inr part), v)"
    using run_tryE_Inr [OF run [unfolded ReportPartUploaded_def]] by blast
  have db1: "db w1 = db w" using kept [OF keeps_getPendingMultipart(1) g] .
  obtain u where u: "pgUUID (pg E) i = Some u" "get_row (db w) u = Some f" "OwnerID f = ow"
      "Status f = FileStatusPending" "IsMultipart f" "UploadID f \<noteq> []"
    using getPendingMultipart_Inr [OF wf, of s i ow f] g by auto
  have id: "ID f = u" and can: "pgUUID (pg E) u = Some u"
    using get_row_ID [OF u(2)] get_row_canonical [OF wf u(2)] by auto
  let ?part = "\<lparr>PartNumber = n, ETag = normalizeETag etag, UploadedAt = clock E (tick w1)\<rparr>"
  have part: "part = ?part" and ok: "map_sum id (\<lambda>_. ()) (fst (sql_upsert_part (pg E) u ?part (db w))) = Inr ()"
    and v: "db v = snd (sql_upsert_part (pg E) u ?part (db w))"
    using rest by (auto simp: run_simps Let_def time_Now_def SaveUploadPart_def run_sql_calm [OF calm] db1 id
        split: option.splits if_splits sum.splits)
  obtain m where st: "fst (sql_upsert_part (pg E) u ?part (db w)) = Inr m"
    using ok by (cases "fst (sql_upsert_part (pg E) u ?part (db w))") simp_all
  have "accepts_part (pg E) (db w) u ?part"
    using st can u(2) by (auto simp: sql_upsert_part_def Let_def part_row_ok_def accepts_part_def split: if_splits)
  then show ?thesis using u v part getPendingMultipart_args [of s i ow E w f] g by auto
qed

lemma run_ListUploadParts_calm:
  assumes "pg_calm E" and "db_wf (pg E) (db w)" and "pgUUID (pg E) i = Some u" and "get_row (db w) u = Some f"
    and "i \<noteq> []" and "ow \<noteq> []" and "OwnerID f = ow" and "Status f = FileStatusPending" and "IsMultipart f"
    and "UploadID f \<noteq> []"
  shows "result (ListUploadParts s i ow) E w = Value (Inr \<lparr>LpUploadID = UploadID f, LpPartSize = PartSize f,
    LpTotalParts = TotalParts f, LpParts = parts_of (db w) u\<rparr>)"
proof -
  have "ID f = u" "pgUUID (pg E) u = Some u" using get_row_ID [OF assms(4)] get_row_canonical [OF assms(2,4)] by auto
  then show ?thesis
    using run_getPendingMultipart_calm [OF assms, of s]
    by (simp add: ListUploadParts_def result_def run_simps Repo_ListUploadParts_def run_sql_calm [OF assms(1)]
        sql_select_parts_def)
qed

subsection \<open>Property\<close>

text \<open>
  C9. A part that was reported is recorded, once: after a successful \<open>ReportPartUploaded\<close> the
  recorded parts of the file are those before with the ETag of this part number set to the
  reported one without quotes and space, the parts of other files are as before, and
  \<open>ListUploadParts\<close> returns the records of the file in ascending order of their numbers.
\<close>
theorem reported_part_is_listed:
  assumes "pg_calm E" and "engine_ok (pg E)" and "db_wf (pg E) (db w)"
    and "run (ReportPartUploaded s i ow n etag) E w = (Value (Inr part), v)"
  shows "\<exists>u r. pgUUID (pg E) i = Some u \<and>
    part_table (db v) = (part_table (db w))(u := (part_table (db w) u)(n \<mapsto> normalizeETag etag)) \<and>
    result (ListUploadParts s i ow) E v = Value (Inr r) \<and>
    map_of (map (\<lambda>p. (PartNumber p, ETag p)) (LpParts r)) = part_table (db v) u \<and>
    sorted (map (\<lambda>p. sint (PartNumber p)) (LpParts r))"
proof -
  obtain u f where f: "pgUUID (pg E) i = Some u" "get_row (db w) u = Some f" "i \<noteq> []" "ow \<noteq> []" "OwnerID f = ow"
      "Status f = FileStatusPending" "IsMultipart f" "UploadID f \<noteq> []"
    and part: "PartNumber part = n" "ETag part = normalizeETag etag" "accepts_part (pg E) (db w) u part"
    and v: "db v = snd (sql_upsert_part (pg E) u part (db w))"
    using ReportPartUploaded_Inr [OF assms(1,3,4)] by blast
  let ?r = "\<lparr>LpUploadID = UploadID f, LpPartSize = PartSize f, LpTotalParts = TotalParts f,
    LpParts = parts_of (db v) u\<rparr>"
  have "statement_inv (pg E) (db w)" using assms(2,3) by (simp add: statement_inv_def)
  then have t: "part_table (db v) = (part_table (db w))(u := (part_table (db w) u)(n \<mapsto> normalizeETag etag))"
    using part_rows.lookup_report [of "pg E" "db w" u part] part v by simp
  have "db_wf (pg E) (db v)" unfolding v using assms(2,3) by (rule db_wf_upsert_part)
  moreover have "get_row (db v) u = Some f" unfolding v using f(2) get_row_files [OF upsert_files] by simp
  ultimately have "result (ListUploadParts s i ow) E v = Value (Inr ?r)"
    using assms(1) f by (intro run_ListUploadParts_calm)
  moreover have "map_of (map (\<lambda>p. (PartNumber p, ETag p)) (LpParts ?r)) = part_table (db v) u"
    by (simp add: part_table_def)
  moreover have "sorted (map (\<lambda>p. sint (PartNumber p)) (LpParts ?r))" using sorted_parts_of [of "db v" u] by simp
  ultimately show ?thesis using f(1) t by blast
qed

theorem reported_part_is_listed_witness:
  "\<exists>r. result (ListUploadParts demo_service ''f2'' ''alice'') demo_env
       (after (ReportPartUploaded demo_service ''f2'' ''alice'' 2 ''new'') demo_env demo_world) = Value (Inr r) \<and>
     map_of (map (\<lambda>p. (PartNumber p, ETag p)) (LpParts r)) 2 = Some ''new''"
proof -
  let ?p = "ReportPartUploaded demo_service ''f2'' ''alice'' 2 ''new''"
  have "case result ?p demo_env demo_world of Value (Inr _) \<Rightarrow> True | _ \<Rightarrow> False" by code_simp
  then obtain part where "result ?p demo_env demo_world = Value (Inr part)" by (auto split: outcome.splits sum.splits)
  then have run: "run ?p demo_env demo_world = (Value (Inr part), after ?p demo_env demo_world)"
    by (simp add: result_def after_def prod_eq_iff)
  have e: "engine_ok (pg demo_env)" using demo_engine_ok by (simp add: demo_env_def)
  have "normalizeETag ''new'' = ''new''" by code_simp
  then show ?thesis using reported_part_is_listed [OF demo_pg_calm e demo_db_wf run] by auto
qed

end
