(* ===== verification/Spec2Isabelle.thy ===== *)
theory Spec2Isabelle
  imports Listing Multipart_Facts File_Facts Server_Facts Object_Keys Config Startup_Facts
    Tokens Life_Cycle Capacity Part_Records
begin

text \<open>
  \<^bold>\<open>The file metadata service: a verification development.\<close>

  The program (\<open>src/\<close>, Go) is a gRPC service that keeps the metadata of files. A client creates
  an upload, sends the bytes to an object storage with a presigned URL, confirms the upload, lists,
  downloads and deletes its files; large files are uploaded in parts. The metadata lives in
  Postgres, a copy of it in Redis, events go to Kafka, the bytes to MinIO.

  \<^bold>\<open>Parts and how they interact.\<close> A request passes the interceptors of the server (recovery, logging,
  metrics, authentication, rate limit, audit), a handler that resolves the owner and maps messages
  and errors, the service with the rules of the program, and the clients of the four servers. The
  process reads its configuration, connects, runs the migrations, and serves until it is asked to
  stop.

  \<^bold>\<open>The model.\<close> A Go function that talks to a server is a program (\<open>prog\<close> of \<open>Effects\<close>): it
  returns, panics, or makes one atomic step on the shared \<open>world\<close> and goes on. One step is one
  statement, command, request or call of a library. The requests interleave between steps
  (\<open>sched\<close> of \<open>Concurrency\<close>), and the goroutine of the metrics server runs beside the rest of
  the process as the scheduler \<open>goTurn\<close> of the environment lets it (\<open>goP\<close> of \<open>Effects\<close>). An index
  or a slice out of range and a division by zero are panics: the expressions that could panic
  return an option (\<open>slice_at\<close>, \<open>slice_from\<close> and \<open>slice_to\<close> of \<open>Prelude\<close>), which \<open>boundedP\<close>
  turns into a panic of the program. What is not under \<open>src/\<close> is the parameter \<open>env\<close>, which may
  answer differently at every tick: failures of the servers before or after their effect, expiry
  of cache entries, URLs and upload identifiers, the clock, generated and parsed identifiers, the
  parsing of tokens, the token bucket, the scripts that Postgres refuses, the answers to the calls of the process. Errors are values
  of \<open>err\<close>, integers are words of their width, strings are lists of bytes.

  \<^item> \<open>Prelude\<close>, \<open>Go_Strings\<close>, \<open>Sha256\<close>: sized integers, and what is used of the packages strings,
    path, fmt, regexp, sha256, hmac and hex. The matcher of patterns decides their language
    (\<open>MatchString_lang\<close>). \<open>Submatch\<close>: the backtracking matcher of patterns with a group, lazy and
    greedy repetitions, which runs the pattern of the migrations.
  \<^item> \<open>Domain_Model\<close> (\<open>internal/domain/file.go\<close>), \<open>Validation\<close> (\<open>internal/validation\<close>).
  \<^item> \<open>Postgres_Sql\<close>: the two tables with the constraints of the migrations and the meaning of
    every statement; \<open>Postgres_Facts\<close>: they keep the schema and move rows forward;
    \<open>Repository\<close>: the methods of \<open>internal/repository/postgres/file.go\<close>.
  \<^item> \<open>Life_Cycle\<close>: an abstract specification of the table of files as a transition relation, the
    locale \<open>life_cycle_store\<close> of the stores that implement it, interpreted on the statements.
    \<open>Part_Records\<close>: the same for the recorded parts, with the locale \<open>part_store\<close>.
  \<^item> \<open>Redis_Cache\<close> (\<open>internal/cache/redis\<close>), \<open>Event_Publisher\<close> (\<open>internal/events/kafka\<close>,
    \<open>internal/service/events.go\<close>), \<open>Object_Storage\<close> (\<open>internal/storage/minio\<close>,
    \<open>internal/service/adapters.go\<close>).
  \<^item> \<open>File_Service\<close>, \<open>Multipart_Service\<close>: the operations of \<open>internal/service\<close>.
  \<^item> \<open>Auth\<close> (\<open>internal/auth/context.go\<close>), \<open>Tokens\<close> (\<open>internal/auth/jwt.go\<close>), \<open>Middleware\<close>
    (\<open>internal/grpc/middleware\<close>, \<open>internal/audit\<close>), \<open>Grpc_Handler\<close>
    (\<open>internal/grpc/handler.go\<close>): \<open>serve\<close> is one request through the whole server.
  \<^item> \<open>Config\<close> (\<open>internal/config\<close>), \<open>Migrations\<close> (\<open>migrate.go\<close> and the embedded scripts),
    \<open>Startup\<close> (\<open>internal/app/app.go\<close>, \<open>connect.go\<close>, \<open>internal/tlsutil\<close>,
    \<open>cmd/server/main.go\<close>).
  \<^item> \<open>Concurrency\<close>, \<open>Frame\<close>: the locale \<open>interference\<close> with proof rules for one program beside
    others, and its extension \<open>rely_guarantee\<close> with the theorem that carries them to every
    interleaving; what a program leaves alone and that it does not panic. Both are interpreted
    on the model: \<open>beside\<close> for the process and its goroutine, \<open>svc\<close> for the requests.
  \<^item> \<open>Isolation\<close>, \<open>Isolation_Rules\<close>, \<open>Isolation_Ops\<close>, \<open>Isolation_Multipart\<close>,
    \<open>Isolation_Server\<close>: the invariant of the shared world, its interpretation as a rely and a
    guarantee (\<open>svc\<close>), and that every operation, handler and request keeps it.
  \<^item> \<open>Example_Deployment\<close>: one environment and database on which the properties are applied.

  \<^bold>\<open>What is shown.\<close> This theory holds the properties of the whole server under every interleaving
  of any requests and any failures: isolation of owners, the life cycle of files with the soundness
  of the cache, confidentiality of responses, and that a confirmed checksum is final.
  \<open>Life_Cycle\<close> shows the refinement of the abstract life cycle by the SQL statements.
  \<open>Multipart_Facts\<close>, \<open>Part_Records\<close> and \<open>Capacity\<close> treat uploads in parts: that the completion
  sends every number once with the ETag recorded under it, the sizes and the number of the parts with their overflow, and the records of parts.
  \<open>Listing\<close> shows that following page tokens gives every live file once (locale
  \<open>keyset_paging\<close>); its client \<open>fetch_pages\<close> has fuel, and one page more than there are files is
  shown to be enough. \<open>File_Facts\<close> gives the outcome of a confirmation on every branch,
  invalid input included, and what is read after a creation and after a deletion.
  \<open>Server_Facts\<close> treats refused requests, panics (the server behaves as if it had no recovery
  interceptor), logs, audit, rate limits and status codes. \<open>Object_Keys\<close> and \<open>Validation\<close> treat
  the names and inputs, \<open>Tokens\<close> a development token from its making through the interceptor
  to the owner that the handlers resolve, \<open>Config\<close> what a loaded configuration guarantees,
  \<open>Migrations\<close> the text that is executed of a script and the order of the scripts,
  \<open>Startup_Facts\<close> the pools, the bucket, the service that a start gives, and the calls of a
  shutdown under any scheduling of the metrics goroutine. Some properties state what the code does where it falls short of its intent:
  \<open>deleted_file_still_served\<close>, \<open>confirm_without_completion\<close>, \<open>unlimited_size_overflows\<close>,
  \<open>listen_failure_skips_close\<close>, \<open>dotdot_key\<close>.

  \<^bold>\<open>What is assumed.\<close> \<open>env_ok\<close>: the database engine reads back a canonical identifier and a stored
  instant unchanged, and generated identifiers are canonical and not empty. Some properties are
  about runs in which Postgres or Redis answers (\<open>pg_calm\<close>, \<open>redis_calm\<close>), one about the JWT
  library (\<open>jwt_lib_ok\<close>: what it documents of the claims that JSON carries unchanged, those with
  ASCII strings, a non-empty audience and an expiry that is exact as a number of seconds). Of a
  migration script only its text and whether Postgres accepts it are modelled (\<open>sql_exec\<close>). The strings of requests are valid UTF-8, as the protobuf decoder
  guarantees, so that their JSON form is faithful. A \<open>float64\<close> is its bit pattern; parsing one, or
  a duration, is a parameter (\<open>float_lib\<close>).

  \<^bold>\<open>Not modelled.\<close> The generated protobuf code, the wire protocol, TLS itself and HTTP; the text of
  log lines beyond the fields that the code sets; cancellation of a request's context, which the
  code passes to the clients and which appears as a failure of theirs; the time to live of cache
  entries beyond their loss at any time; the test helpers under \<open>src/tests\<close>.
\<close>

section \<open>Tenant isolation and the life cycle of files, under any interleaving and any failures\<close>

text \<open>
  C1. Take any requests, served concurrently in any interleaving of their steps, while Postgres,
  Redis, Kafka and MinIO may fail at any step. A file whose owner none of the requests acts for
  keeps its row unchanged, and so do the recorded parts of its upload. With tokens required, a
  request acts only for the owner that a valid token of it names.
\<close>
theorem tenant_isolation:
  assumes "env_ok E" and "svc_inv E w"
    and "\<forall>(ctx, rq) \<in> set rqs. actors E cfg ctx rq \<subseteq> S"
    and "interleaved E (serve_all (app_service c ch ps ms) cfg rl rqs, w) (qs, v)"
    and "get_row (db w) u = Some r" and "OwnerID r \<notin> S"
  shows "get_row (db v) u = Some r \<and> parts_of (db v) u = parts_of (db w) u"
  using serve_all_kept [OF assms(1-4)] assms(5,6) by (simp add: foreign_kept_def)

theorem tenant_isolation_witness:
  "get_row (db (after (serve demo_service demo_auth demo_limiter (bearer_ctx ''HS256:keybob'')
      (DeleteFileRequest ''f1'' [])) demo_env demo_world)) ''f1'' = Some demo_file"
proof -
  let ?ctx = "bearer_ctx ''HS256:keybob''" and ?rq = "DeleteFileRequest ''f1'' []"
  obtain x where run: "interleaved demo_env (serve_all demo_service demo_auth demo_limiter [(?ctx, ?rq)], demo_world)
      ([Return x], after (serve demo_service demo_auth demo_limiter ?ctx ?rq) demo_env demo_world)"
    using run_alone by blast
  have row: "get_row (db demo_world) ''f1'' = Some demo_file" "OwnerID demo_file \<notin> {''bob''}"
    by (simp_all add: get_row_def demo_world_def demo_file_def)
  have act: "\<forall>(ctx, rq) \<in> set [(?ctx, ?rq)]. actors demo_env demo_auth ctx rq \<subseteq> {''bob''}"
    using demo_actors by simp
  show ?thesis
    using tenant_isolation [OF demo_env_ok demo_svc_inv act run [unfolded demo_service_def] row]
    by (simp add: demo_service_def)
qed

text \<open>
  C2. In every interleaving and with any failures the schema's invariant and the soundness of the
  cache are kept, and every file only moves forward: its row stays, its identity, owner, object
  key, name, type, size and creation time never change, its status goes from pending to ready to
  deleted and never back, and the checksum of a ready file never changes.
\<close>
theorem life_cycle:
  assumes "env_ok E" and "svc_inv E w"
    and "interleaved E (serve_all (app_service c ch ps ms) cfg rl rqs, w) (qs, v)"
  shows "svc_inv E v \<and>
    (\<forall>u r. get_row (db w) u = Some r \<longrightarrow> (\<exists>r'. get_row (db v) u = Some r' \<and> row_le r r'))"
proof -
  have "\<forall>(ctx, rq) \<in> set rqs. actors E cfg ctx rq \<subseteq> UNIV" by auto
  from serve_all_kept [OF assms(1,2) this assms(3)] show ?thesis by (simp add: db_le_def)
qed

theorem life_cycle_witness:
  "\<exists>r. get_row (db (after (serve demo_service demo_auth demo_limiter (bearer_ctx ''HS256:keybob'')
      (ListFilesRequest [] 10 [])) demo_env demo_world)) ''f1'' = Some r \<and> row_le demo_file r"
proof -
  obtain x where run: "interleaved demo_env (serve_all demo_service demo_auth demo_limiter
      [(bearer_ctx ''HS256:keybob'', ListFilesRequest [] 10 [])], demo_world)
      ([Return x], after (serve demo_service demo_auth demo_limiter (bearer_ctx ''HS256:keybob'')
        (ListFilesRequest [] 10 [])) demo_env demo_world)"
    using run_alone by blast
  have "get_row (db demo_world) ''f1'' = Some demo_file" by (simp add: get_row_def demo_world_def demo_file_def)
  then show ?thesis
    using life_cycle [OF demo_env_ok demo_svc_inv run [unfolded demo_service_def]] by (simp add: demo_service_def)
qed

text \<open>
  C3. Metadata is confidential: in every interleaving of requests and with any failures, whatever
  a request has returned holds only metadata of files of an owner that the request acts for, the
  owner named by its valid token when tokens are required.
\<close>
theorem responses_are_confidential:
  assumes "env_ok E" and "svc_inv E w"
    and "interleaved E (serve_all (app_service c ch ps ms) cfg rl rqs, w) (qs, v)"
    and "k < length rqs" and "qs ! k = Return (Inr resp)" and "f \<in> set (response_files resp)"
  shows "pbOwnerId f \<in> actors E cfg (fst (rqs ! k)) (snd (rqs ! k))"
proof -
  have all: "\<forall>(ctx, rq) \<in> set rqs. actors E cfg ctx rq \<subseteq> UNIV" by auto
  have "own_response (actors E cfg (fst (rqs ! k)) (snd (rqs ! k))) (Inr resp)"
    using svc.interleaved_result [OF assms(3) serve_all_rg [OF assms(1,2) all] _ assms(5)] assms(4) by simp
  then show ?thesis using assms(6) by simp
qed

theorem responses_are_confidential_witness:
  "\<exists>f. result (serve demo_service (demo_auth\<lparr>Enabled := False\<rparr>) demo_limiter (bearer_ctx [])
      (GetFileRequest ''f1'' ''alice'')) demo_env demo_world = Value (Inr (FileMetadataResponse f)) \<and>
     pbOwnerId f \<in> actors demo_env (demo_auth\<lparr>Enabled := False\<rparr>) (bearer_ctx []) (GetFileRequest ''f1'' ''alice'')"
proof -
  let ?cfg = "demo_auth\<lparr>Enabled := False\<rparr>" and ?rq = "GetFileRequest ''f1'' ''alice''"
  let ?p = "serve demo_service ?cfg demo_limiter (bearer_ctx []) ?rq"
  obtain x where run: "interleaved demo_env (serve_all demo_service ?cfg demo_limiter [(bearer_ctx [], ?rq)],
      demo_world) ([Return x], after ?p demo_env demo_world)" and x: "result ?p demo_env demo_world = Value x"
    using run_alone by blast
  have "case result ?p demo_env demo_world of Value (Inr (FileMetadataResponse _)) \<Rightarrow> True | _ \<Rightarrow> False"
    by code_simp
  then obtain f where f: "x = Inr (FileMetadataResponse f)"
    using x by (auto split: sum.splits response.splits)
  then have "pbOwnerId f \<in> actors demo_env ?cfg (bearer_ctx []) ?rq"
    using responses_are_confidential [OF demo_env_ok demo_svc_inv run [unfolded demo_service_def], of 0
        "FileMetadataResponse f" f] by simp
  then show ?thesis using x f by blast
qed

text \<open>
  C4. A confirmation is final. Of any confirmations and completions that run concurrently, one that
  returned has set the checksum of its call, and the row keeps it: it is ready with that
  checksum, or was deleted with it. So of two calls for the same file with different checksums at
  most one succeeds.
\<close>
theorem confirmed_checksum_is_final:
  assumes "env_ok E" and "svc_inv E w"
    and "interleaved E (map (confirm_prog (app_service c ch ps ms)) calls, w) (qs, v)"
    and "j < length calls" and "qs ! j = Return (Inr f)"
  shows "(\<exists>r. get_row (db v) (ID f) = Some r \<and> Status r \<in> {FileStatusReady, FileStatusDeleted} \<and>
      ChecksumSHA256 r = callChecksum (calls ! j)) \<and>
    (\<forall>k g. k < length calls \<longrightarrow> qs ! k = Return (Inr g) \<longrightarrow> ID g = ID f \<longrightarrow>
      callChecksum (calls ! k) = callChecksum (calls ! j))"
  using confirmed_row_final [OF assms] confirmed_row_final [OF assms(1-3)] by fastforce

theorem confirmed_checksum_is_final_witness:
  "\<exists>f r. result (ConfirmUpload demo_service ''f2'' ''alice'' []) demo_env demo_world = Value (Inr f) \<and>
     get_row (db (after (ConfirmUpload demo_service ''f2'' ''alice'' []) demo_env demo_world)) (ID f) = Some r \<and>
     ChecksumSHA256 r = []"
proof -
  let ?p = "ConfirmUpload demo_service ''f2'' ''alice'' []"
  have "case result ?p demo_env demo_world of Value (Inr _) \<Rightarrow> True | _ \<Rightarrow> False" by code_simp
  then obtain f where f: "result ?p demo_env demo_world = Value (Inr f)"
    by (auto split: outcome.splits sum.splits)
  then have "interleaved demo_env (map (confirm_prog demo_service) [ConfirmCall ''f2'' ''alice'' []], demo_world)
      ([Return (Inr f)], after ?p demo_env demo_world)"
    using run_interleaved [of demo_env ?p demo_world] by (auto simp: result_def after_def)
  from confirmed_checksum_is_final [OF demo_env_ok demo_svc_inv this [unfolded demo_service_def], of 0 f] f
  show ?thesis by (auto simp: demo_service_def)
qed

end
